(* ===== verification/Prelude.thy ===== *)
theory Prelude
  imports Complex_Main "HOL-Library.Word" "HOL-Library.Multiset" "HOL-Library.Disjoint_Sets"
begin

text \<open>
  Shared material of the development: the collections of simplification rules that the
  component theories extend, the wrap-around of Go's 64-bit integers, the error values of
  the program, and generic lemmas on lists that more than one component uses.
\<close>

named_theorems go_simps
named_theorems pool_simps
named_theorems slot_frame

section \<open>Machine integers\<close>

text \<open>
  Go's int and int64 are 64 bits wide on the platforms the program runs on. They are
  modelled as int; every addition or multiplication that may leave the range is wrapped
  with this function (two's complement).
\<close>

definition wrap64 :: "int \<Rightarrow> int" where
  "wrap64 x = (x + 2 ^ 63) mod 2 ^ 64 - 2 ^ 63"

definition max_int64 :: int where
  "max_int64 = 9223372036854775807"

definition min_int64 :: int where
  "min_int64 = - 9223372036854775808"

lemma wrap64_range: "min_int64 \<le> wrap64 x \<and> wrap64 x \<le> max_int64"
proof -
  have "0 \<le> (x + 2 ^ 63) mod 2 ^ 64" and "(x + 2 ^ 63) mod 2 ^ 64 < (2 ^ 64 :: int)"
    by simp_all
  then show ?thesis
    by (simp add: wrap64_def min_int64_def max_int64_def)
qed

lemma wrap64_id: "min_int64 \<le> x \<Longrightarrow> x \<le> max_int64 \<Longrightarrow> wrap64 x = x"
  by (simp add: wrap64_def min_int64_def max_int64_def)

lemma wrap64_add [simp]:
  "wrap64 (wrap64 x + y) = wrap64 (x + y)" "wrap64 (wrap64 x - y) = wrap64 (x - y)"
  "wrap64 (wrap64 x) = wrap64 x"
proof -
  have "wrap64 (wrap64 x + z) = wrap64 (x + z)" for z
  proof -
    have "(wrap64 x + z + 2 ^ 63) mod 2 ^ 64 = ((x + 2 ^ 63) mod 2 ^ 64 + z) mod (2 ^ 64 :: int)"
      by (simp add: wrap64_def algebra_simps)
    also have "\<dots> = (x + 2 ^ 63 + z) mod 2 ^ 64" by (rule mod_add_left_eq)
    finally show ?thesis by (simp add: wrap64_def algebra_simps)
  qed
  from this [of y] this [of "- y"] this [of 0]
  show "wrap64 (wrap64 x + y) = wrap64 (x + y)" "wrap64 (wrap64 x - y) = wrap64 (x - y)"
    "wrap64 (wrap64 x) = wrap64 x" by simp_all
qed

lemma wrap64_add_right [simp]: "wrap64 (y + wrap64 x) = wrap64 (y + x)"
  using wrap64_add(1) [of x y] by (simp only: add.commute)

text \<open>The duration between two clock readings saturates (time.Time.Sub).\<close>

definition saturate64 :: "int \<Rightarrow> int" where
  "saturate64 x = max min_int64 (min max_int64 x)"

lemma saturate64_ge: "g \<le> max_int64 \<Longrightarrow> g \<le> x \<Longrightarrow> g \<le> saturate64 x"
  by (simp add: saturate64_def)

lemma saturate64_geD: "min_int64 < g \<Longrightarrow> g \<le> saturate64 x \<Longrightarrow> g \<le> x"
  by (simp add: saturate64_def min_def max_def split: if_splits)

section \<open>Error values\<close>

text \<open>
  Go's error values. The two sentinel errors of wan.go are constructors of their own, so
  that errors.Is can recognise them through the wrapping of fmt.Errorf.
\<close>

datatype goerror =
    ErrNoReplacementCandidate
  | ErrReplacementTestFailed
  | ErrText string
  | ErrWrap string goerror string

text \<open>\<open>ErrWrap pre e post\<close> is the value of fmt.Errorf with a prefix, the verb \<open>%w\<close> and a suffix.\<close>

fun errors_Is :: "goerror option \<Rightarrow> goerror \<Rightarrow> bool" where
  "errors_Is None t = False"
| "errors_Is (Some (ErrWrap p e q)) t = (ErrWrap p e q = t \<or> errors_Is (Some e) t)"
| "errors_Is (Some e) t = (e = t)"

fun error_text :: "goerror \<Rightarrow> string" where
  "error_text ErrNoReplacementCandidate = ''no replacement candidate''"
| "error_text ErrReplacementTestFailed = ''replacement failed test''"
| "error_text (ErrText s) = s"
| "error_text (ErrWrap p e q) = p @ error_text e @ q"

section \<open>Lists\<close>

text \<open>A linear scan that keeps the better of two elements, as the selection loops do.\<close>

lemma foldl_invariant:
  assumes "P a" and "\<And>b x. P b \<Longrightarrow> x \<in> set xs \<Longrightarrow> P (f b x)"
  shows "P (foldl f a xs)"
  using assms by (induction xs arbitrary: a) auto

lemma filter_upt_ConsD:
  assumes "filter P [m..<n] = h # t"
  shows "P h" and "m \<le> h" and "h < n" and "m \<le> j \<Longrightarrow> j < h \<Longrightarrow> \<not> P j"
proof -
  from filter_eq_ConsD [OF assms] obtain us vs where
    split: "[m..<n] = us @ h # vs" and us: "\<forall>u \<in> set us. \<not> P u" and "P h"
    by auto
  let ?k = "length us"
  have len: "?k < n - m"
    using arg_cong [OF split, of length] by simp
  have "h = [m..<n] ! ?k" by (simp add: split)
  with len have h: "h = m + ?k" by simp
  have "us = take ?k [m..<n]" by (simp add: split)
  with len have "us = [m..<m + ?k]" by (simp add: take_upt)
  then have "set us = {m..<m + ?k}" by (metis set_upt)
  with us h show "m \<le> j \<Longrightarrow> j < h \<Longrightarrow> \<not> P j" by auto
  from h len show "m \<le> h" and "h < n" by auto
  show "P h" by fact
qed

section \<open>Families of sets\<close>

text \<open>Replacing one member of a disjoint family, as an update of one slot does.\<close>

lemma UN_update:
  assumes "disjoint_family_on A I" and "k \<in> I"
  shows "(\<Union>j \<in> I. if j = k then B else A j) = ((\<Union>j \<in> I. A j) - A k) \<union> B"
  using assms unfolding disjoint_family_on_def by (auto split: if_splits)

lemma disjoint_update:
  assumes "disjoint_family_on A I" and "B \<inter> (\<Union>j \<in> I. A j) \<subseteq> A k" and "k \<in> I"
  shows "disjoint_family_on (\<lambda>j. if j = k then B else A j) I"
proof (unfold disjoint_family_on_def, intro ballI impI)
  have away: "B \<inter> A j = {}" if "j \<in> I" "j \<noteq> k" for j
    using assms that unfolding disjoint_family_on_def by blast
  fix m n assume "m \<in> I" "n \<in> I" "m \<noteq> n"
  with assms(1) away [of m] away [of n]
  show "(if m = k then B else A m) \<inter> (if n = k then B else A n) = {}"
    unfolding disjoint_family_on_def by auto
qed

lemma disjoint_family_cong:
  "(\<And>j. j \<in> I \<Longrightarrow> A j = B j) \<Longrightarrow> disjoint_family_on A I \<longleftrightarrow> disjoint_family_on B I"
  by (simp add: disjoint_family_on_def)

end
