(* ===== verification/GoLib.thy ===== *)
theory GoLib
  imports Prelude
begin

text \<open>
  The part of Go's standard library that the program's logic calls on strings and numbers:
  packages strings and strconv. A Go string is a sequence of bytes and so is a HOL string.
  strings.ToLower of a string with bytes outside ASCII applies Unicode case tables; that
  mapping is the argument \<open>ul\<close> of the definitions that use it.
\<close>

section \<open>Package strings\<close>

definition strings_HasPrefix :: "string \<Rightarrow> string \<Rightarrow> bool" where
  "strings_HasPrefix s p \<longleftrightarrow> take (length p) s = p"

definition strings_HasSuffix :: "string \<Rightarrow> string \<Rightarrow> bool" where
  "strings_HasSuffix s p \<longleftrightarrow> length p \<le> length s \<and> drop (length s - length p) s = p"

definition strings_TrimSuffix :: "string \<Rightarrow> string \<Rightarrow> string" where
  "strings_TrimSuffix s p =
     (if strings_HasSuffix s p then take (length s - length p) s else s)"

definition strings_TrimPrefix :: "string \<Rightarrow> string \<Rightarrow> string" where
  "strings_TrimPrefix s p = (if strings_HasPrefix s p then drop (length p) s else s)"

fun strings_IndexByte :: "string \<Rightarrow> char \<Rightarrow> nat option" where
  "strings_IndexByte [] c = None"
| "strings_IndexByte (x # xs) c =
     (if x = c then Some 0 else map_option Suc (strings_IndexByte xs c))"

definition strings_LastIndexByte :: "string \<Rightarrow> char \<Rightarrow> nat option" where
  "strings_LastIndexByte s c =
     map_option (\<lambda>i. length s - 1 - i) (strings_IndexByte (rev s) c)"

fun strings_Cut :: "string \<Rightarrow> string \<Rightarrow> string \<times> string \<times> bool" where
  "strings_Cut [] sep = (if sep = [] then ([], [], True) else ([], [], False))"
| "strings_Cut (c # cs) sep =
     (if strings_HasPrefix (c # cs) sep then ([], drop (length sep) (c # cs), True)
      else (case strings_Cut cs sep of (b, a, f) \<Rightarrow> (c # b, a, f)))"

definition strings_Contains :: "string \<Rightarrow> string \<Rightarrow> bool" where
  "strings_Contains s sub \<longleftrightarrow> snd (snd (strings_Cut s sub))"

text \<open>strings.Split at a separator of one byte (the only kind the program uses).\<close>

fun strings_Split :: "string \<Rightarrow> char \<Rightarrow> string list" where
  "strings_Split [] c = [[]]"
| "strings_Split (x # xs) c =
     (if x = c then [] # strings_Split xs c
      else (case strings_Split xs c of
              [] \<Rightarrow> [[x]]
            | y # ys \<Rightarrow> (x # y) # ys))"

fun strings_Join :: "string list \<Rightarrow> string \<Rightarrow> string" where
  "strings_Join [] sep = []"
| "strings_Join [x] sep = x"
| "strings_Join (x # y # ys) sep = x @ sep @ strings_Join (y # ys) sep"

function strings_ReplaceAll :: "string \<Rightarrow> string \<Rightarrow> string \<Rightarrow> string" where
  "strings_ReplaceAll s old new =
     (if s = [] \<or> old = [] then s
      else if strings_HasPrefix s old then new @ strings_ReplaceAll (drop (length old) s) old new
      else hd s # strings_ReplaceAll (tl s) old new)"
  by pat_completeness auto
termination
  by (relation "measure (\<lambda>(s, old, new). length s)") auto

declare strings_ReplaceAll.simps [simp del]

text \<open>The encodings of the Unicode white space characters (unicode.IsSpace), in UTF-8.\<close>

definition space_encodings :: "string list" where
  "space_encodings =
     [[CHR 0x09], [CHR 0x0A], [CHR 0x0B], [CHR 0x0C], [CHR 0x0D], [CHR 0x20],
      [CHR 0xC2, CHR 0x85], [CHR 0xC2, CHR 0xA0], [CHR 0xE1, CHR 0x9A, CHR 0x80],
      [CHR 0xE2, CHR 0x80, CHR 0x80], [CHR 0xE2, CHR 0x80, CHR 0x81],
      [CHR 0xE2, CHR 0x80, CHR 0x82], [CHR 0xE2, CHR 0x80, CHR 0x83],
      [CHR 0xE2, CHR 0x80, CHR 0x84], [CHR 0xE2, CHR 0x80, CHR 0x85],
      [CHR 0xE2, CHR 0x80, CHR 0x86], [CHR 0xE2, CHR 0x80, CHR 0x87],
      [CHR 0xE2, CHR 0x80, CHR 0x88], [CHR 0xE2, CHR 0x80, CHR 0x89],
      [CHR 0xE2, CHR 0x80, CHR 0x8A], [CHR 0xE2, CHR 0x80, CHR 0xA8],
      [CHR 0xE2, CHR 0x80, CHR 0xA9], [CHR 0xE2, CHR 0x80, CHR 0xAF],
      [CHR 0xE2, CHR 0x81, CHR 0x9F], [CHR 0xE3, CHR 0x80, CHR 0x80]]"

definition front_space :: "string list \<Rightarrow> string \<Rightarrow> nat" where
  "front_space encs s =
     (case find (\<lambda>e. strings_HasPrefix s e) encs of None \<Rightarrow> 0 | Some e \<Rightarrow> length e)"

function trim_front :: "string list \<Rightarrow> string \<Rightarrow> string" where
  "trim_front encs s =
     (if s = [] \<or> front_space encs s = 0 then s
      else trim_front encs (drop (front_space encs s) s))"
  by pat_completeness auto
termination
  by (relation "measure (\<lambda>(encs, s). length s)") auto

declare trim_front.simps [simp del]

definition strings_TrimSpace :: "string \<Rightarrow> string" where
  "strings_TrimSpace s =
     rev (trim_front (map rev space_encodings) (rev (trim_front space_encodings s)))"

definition is_ascii :: "char \<Rightarrow> bool" where
  "is_ascii c \<longleftrightarrow> (of_char c :: nat) < 128"

definition ascii_lower :: "char \<Rightarrow> char" where
  "ascii_lower c =
     (if 65 \<le> (of_char c :: nat) \<and> (of_char c :: nat) \<le> 90
      then char_of ((of_char c :: nat) + 32) else c)"

definition strings_ToLower :: "(string \<Rightarrow> string) \<Rightarrow> string \<Rightarrow> string" where
  "strings_ToLower ul s = (if list_all is_ascii s then map ascii_lower s else ul s)"

section \<open>Package strconv\<close>

datatype num_error = ErrSyntax | ErrRange

definition is_digit :: "char \<Rightarrow> bool" where
  "is_digit c \<longleftrightarrow> 48 \<le> (of_char c :: nat) \<and> (of_char c :: nat) \<le> 57"

definition digit_value :: "char \<Rightarrow> int" where
  "digit_value c = (of_char c :: int) - 48"

text \<open>The digit loop of strconv.ParseUint: base 10, 64 bits, stopping at the first bad digit or overflow.\<close>

fun parse_uint_loop :: "string \<Rightarrow> int \<Rightarrow> num_error + int" where
  "parse_uint_loop [] n = Inr n"
| "parse_uint_loop (c # cs) n =
     (if \<not> is_digit c then Inl ErrSyntax
      else if 1844674407370955162 \<le> n then Inl ErrRange
      else if 18446744073709551615 < n * 10 + digit_value c then Inl ErrRange
      else parse_uint_loop cs (n * 10 + digit_value c))"

definition strconv_ParseUint :: "string \<Rightarrow> num_error + int" where
  "strconv_ParseUint s = (if s = [] then Inl ErrSyntax else parse_uint_loop s 0)"

text \<open>
  strconv.ParseInt in base 10 with 64 bits, and strconv.Atoi: the value returned next to
  the error is 0 for a syntax error and the nearest bound for a range error.
\<close>

definition strconv_ParseInt :: "string \<Rightarrow> int \<times> num_error option" where
  "strconv_ParseInt s =
     (if s = [] then (0, Some ErrSyntax)
      else
        let neg = (hd s = CHR ''-'');
            ds = (if hd s = CHR ''+'' \<or> hd s = CHR ''-'' then tl s else s)
        in case strconv_ParseUint ds of
             Inl ErrSyntax \<Rightarrow> (0, Some ErrSyntax)
           | Inl ErrRange \<Rightarrow> (if neg then min_int64 else max_int64, Some ErrRange)
           | Inr un \<Rightarrow>
               if \<not> neg \<and> 9223372036854775808 \<le> un then (max_int64, Some ErrRange)
               else if neg \<and> 9223372036854775808 < un then (min_int64, Some ErrRange)
               else (if neg then - un else un, None))"

definition strconv_Atoi :: "string \<Rightarrow> int \<times> num_error option" where
  "strconv_Atoi s = strconv_ParseInt s"

fun nat_digits :: "nat \<Rightarrow> string" where
  "nat_digits n =
     (if n < 10 then [char_of (48 + n)] else nat_digits (n div 10) @ [char_of (48 + n mod 10)])"

declare nat_digits.simps [simp del]

definition strconv_Itoa :: "int \<Rightarrow> string" where
  "strconv_Itoa i = (if i < 0 then CHR ''-'' # nat_digits (nat (- i)) else nat_digits (nat i))"

definition strconv_ParseBool :: "string \<Rightarrow> bool option" where
  "strconv_ParseBool s =
     (if s \<in> {''1'', ''t'', ''T'', ''TRUE'', ''true'', ''True''} then Some True
      else if s \<in> {''0'', ''f'', ''F'', ''FALSE'', ''false'', ''False''} then Some False
      else None)"

section \<open>Facts about package strings\<close>

lemma is_ascii_lower [simp]: "is_ascii (ascii_lower c) = is_ascii c"
  by (cases "65 \<le> (of_char c :: nat) \<and> (of_char c :: nat) \<le> 90")
    (auto simp: is_ascii_def ascii_lower_def of_char_of)

lemma ascii_lower_idem [simp]: "ascii_lower (ascii_lower c) = ascii_lower c"
  by (cases "65 \<le> (of_char c :: nat) \<and> (of_char c :: nat) \<le> 90")
    (auto simp: ascii_lower_def)

lemma ToLower_ascii: "list_all is_ascii s \<Longrightarrow> strings_ToLower ul s = map ascii_lower s"
  by (simp add: strings_ToLower_def)

lemma ToLower_Nil [simp]: "strings_ToLower ul [] = []"
  by (simp add: strings_ToLower_def)

lemma HasPrefix_iff: "strings_HasPrefix s p \<longleftrightarrow> (\<exists>r. s = p @ r)"
proof
  assume "strings_HasPrefix s p"
  then have "s = p @ drop (length p) s"
    by (metis append_take_drop_id strings_HasPrefix_def)
  then show "\<exists>r. s = p @ r" ..
qed (auto simp: strings_HasPrefix_def)

lemma HasSuffix_iff: "strings_HasSuffix s p \<longleftrightarrow> (\<exists>r. s = r @ p)"
proof
  assume "strings_HasSuffix s p"
  then have "s = take (length s - length p) s @ p"
    by (metis append_take_drop_id strings_HasSuffix_def)
  then show "\<exists>r. s = r @ p" ..
qed (auto simp: strings_HasSuffix_def)

lemma HasPrefix_byte: "strings_HasPrefix s [c] \<longleftrightarrow> s \<noteq> [] \<and> hd s = c"
  by (cases s) (auto simp: strings_HasPrefix_def)

lemma Contains_byte: "strings_Contains s [c] \<longleftrightarrow> c \<in> set s"
  by (induction s) (auto simp: strings_Contains_def HasPrefix_byte split: prod.splits)

lemma IndexByte_None: "strings_IndexByte s c = None \<longleftrightarrow> c \<notin> set s"
  by (induction s) auto

lemma IndexByte_append: "c \<notin> set p \<Longrightarrow> strings_IndexByte (p @ c # r) c = Some (length p)"
  by (induction p) auto

lemma LastIndexByte_None: "strings_LastIndexByte s c = None \<longleftrightarrow> c \<notin> set s"
  by (simp add: strings_LastIndexByte_def IndexByte_None)

lemma LastIndexByte_append: "c \<notin> set r \<Longrightarrow> strings_LastIndexByte (p @ c # r) c = Some (length p)"
  using IndexByte_append [of c "rev r" "rev p"] by (simp add: strings_LastIndexByte_def)

lemma TrimSuffix_append [simp]: "strings_TrimSuffix (s @ p) p = s"
  by (simp add: strings_TrimSuffix_def strings_HasSuffix_def)

definition ascii_space :: "char \<Rightarrow> bool" where
  "ascii_space c \<longleftrightarrow> c \<in> {CHR 0x09, CHR 0x0A, CHR 0x0B, CHR 0x0C, CHR 0x0D, CHR 0x20}"

definition ascii_encodings :: "string list \<Rightarrow> bool" where
  "ascii_encodings encs \<longleftrightarrow>
     (\<forall>e \<in> set encs. (\<exists>c. e = [c] \<and> ascii_space c) \<or> (e \<noteq> [] \<and> \<not> is_ascii (hd e))) \<and>
     (\<forall>c. ascii_space c \<longrightarrow> [c] \<in> set encs)"

lemma ascii_encodings_space: "ascii_encodings space_encodings"
  by (auto simp: ascii_encodings_def space_encodings_def ascii_space_def is_ascii_def)

lemma ascii_encodings_rev: "ascii_encodings (map rev space_encodings)"
  by (auto simp: ascii_encodings_def space_encodings_def ascii_space_def is_ascii_def)

lemma front_space_ascii:
  assumes "ascii_encodings encs" and "is_ascii c"
  shows "front_space encs (c # cs) = (if ascii_space c then 1 else 0)"
proof -
  have only: "e = [c] \<and> ascii_space c"
    if "e \<in> set encs" "strings_HasPrefix (c # cs) e" for e
  proof -
    from that(1) assms(1) have "e \<noteq> []" by (auto simp: ascii_encodings_def)
    with that(2) have "hd e = c" by (cases e) (auto simp: HasPrefix_iff)
    with that(1) assms show ?thesis by (auto simp: ascii_encodings_def)
  qed
  show ?thesis
  proof (cases "ascii_space c")
    case True
    then have "[c] \<in> set encs" using assms(1) by (simp add: ascii_encodings_def)
    then have "find (\<lambda>e. strings_HasPrefix (c # cs) e) encs \<noteq> None"
      by (auto simp: find_None_iff HasPrefix_byte)
    then obtain e where e: "find (\<lambda>e. strings_HasPrefix (c # cs) e) encs = Some e"
      by auto
    then have "e \<in> set encs" "strings_HasPrefix (c # cs) e"
      by (auto simp: find_Some_iff)
    then have "e = [c]" using only by blast
    with e True show ?thesis by (simp add: front_space_def)
  next
    case False
    then have "find (\<lambda>e. strings_HasPrefix (c # cs) e) encs = None"
      using only by (auto simp: find_None_iff)
    with False show ?thesis by (simp add: front_space_def)
  qed
qed

lemma trim_front_ascii:
  assumes "ascii_encodings encs" and "list_all is_ascii s"
  shows "trim_front encs s = dropWhile ascii_space s"
  using assms(2)
proof (induction s)
  case Nil
  show ?case by (subst trim_front.simps) simp
next
  case (Cons c cs)
  then have "is_ascii c" by simp
  from front_space_ascii [OF assms(1) this] Cons show ?case
    by (subst trim_front.simps) simp
qed

lemma list_all_dropWhile: "list_all P xs \<Longrightarrow> list_all P (dropWhile Q xs)"
  by (induction xs) auto

lemma list_all_rev: "list_all P (rev xs) = list_all P xs"
  by (induction xs) auto

lemma TrimSpace_ascii:
  assumes "list_all is_ascii s"
  shows "strings_TrimSpace s = rev (dropWhile ascii_space (rev (dropWhile ascii_space s)))"
  using assms
  by (simp add: strings_TrimSpace_def trim_front_ascii ascii_encodings_space
      ascii_encodings_rev list_all_dropWhile list_all_rev)

lemma dropWhile_id: "(xs \<noteq> [] \<Longrightarrow> \<not> P (hd xs)) \<Longrightarrow> dropWhile P xs = xs"
  by (cases xs) auto

lemma TrimSpace_id:
  assumes "list_all is_ascii s" and "s \<noteq> [] \<Longrightarrow> \<not> ascii_space (hd s) \<and> \<not> ascii_space (last s)"
  shows "strings_TrimSpace s = s"
proof (cases "s = []")
  case False
  with assms have "dropWhile ascii_space s = s" and "dropWhile ascii_space (rev s) = rev s"
    by (simp_all add: dropWhile_id hd_rev)
  with assms(1) show ?thesis by (simp add: TrimSpace_ascii)
qed (simp add: TrimSpace_ascii)

lemma hd_rev_dropWhile_rev:
  assumes "rev (dropWhile P (rev xs)) \<noteq> []"
  shows "hd (rev (dropWhile P (rev xs))) = hd xs \<and> \<not> P (last (rev (dropWhile P (rev xs))))"
proof -
  have "xs = rev (dropWhile P (rev xs)) @ rev (takeWhile P (rev xs))"
    by (metis rev_append rev_rev_ident takeWhile_dropWhile_id)
  then have "hd xs = hd (rev (dropWhile P (rev xs)))"
    using assms by (metis hd_append)
  moreover have "\<not> P (hd (dropWhile P (rev xs)))"
    using assms by (simp add: hd_dropWhile)
  ultimately show ?thesis
    using assms by (simp add: last_rev)
qed

lemma TrimSpace_ends:
  assumes "list_all is_ascii s" and "strings_TrimSpace s \<noteq> []"
  shows "\<not> ascii_space (hd (strings_TrimSpace s))"
    and "\<not> ascii_space (last (strings_TrimSpace s))"
proof -
  let ?d = "dropWhile ascii_space s"
  have eq: "strings_TrimSpace s = rev (dropWhile ascii_space (rev ?d))"
    by (simp add: TrimSpace_ascii assms(1))
  with assms(2) have ends: "hd (strings_TrimSpace s) = hd ?d"
      "\<not> ascii_space (last (strings_TrimSpace s))"
    using hd_rev_dropWhile_rev [of ascii_space ?d] by auto
  then show "\<not> ascii_space (last (strings_TrimSpace s))" by simp
  have "?d \<noteq> []"
  proof
    assume "?d = []"
    with eq have "strings_TrimSpace s = []" by (simp only: rev.simps dropWhile.simps)
    with assms(2) show False by contradiction
  qed
  with ends show "\<not> ascii_space (hd (strings_TrimSpace s))"
    by (simp add: hd_dropWhile)
qed

lemma set_TrimSpace_ascii: "list_all is_ascii s \<Longrightarrow> set (strings_TrimSpace s) \<subseteq> set s"
  by (auto simp: TrimSpace_ascii dest!: set_dropWhileD)

lemma of_char_ascii_lower:
  "(of_char (ascii_lower c) :: nat) =
     (if 65 \<le> (of_char c :: nat) \<and> (of_char c :: nat) \<le> 90 then of_char c + 32 else of_char c)"
  by (auto simp: ascii_lower_def)

lemma ascii_lower_eq:
  assumes "\<not> (65 \<le> (of_char x :: nat) \<and> (of_char x :: nat) \<le> 90)"
    and "\<not> (97 \<le> (of_char x :: nat) \<and> (of_char x :: nat) \<le> 122)"
  shows "ascii_lower c = x \<longleftrightarrow> c = x"
  using assms of_char_ascii_lower [of c] by (auto simp: ascii_lower_def split: if_splits)

lemma IndexByte_map: "(\<And>x. f x = c \<longleftrightarrow> x = c) \<Longrightarrow> strings_IndexByte (map f s) c = strings_IndexByte s c"
  by (induction s) auto

lemma is_digit_ascii_lower [simp]: "is_digit (ascii_lower c) = is_digit c"
  by (simp add: is_digit_def of_char_ascii_lower)

lemma list_all_take: "list_all P xs \<Longrightarrow> list_all P (take n xs)"
  by (auto simp: list_all_iff dest: in_set_takeD)

lemma Split_no_sep: "x \<in> set (strings_Split s c) \<Longrightarrow> c \<notin> set x"
  by (induction s arbitrary: x) (auto split: if_splits list.splits)

lemma Split_chars: "x \<in> set (strings_Split s c) \<Longrightarrow> set x \<subseteq> set s"
  by (induction s arbitrary: x) (fastforce split: if_splits list.splits)+

lemma Split_nonempty [simp]: "strings_Split s c \<noteq> []"
  by (induction s) (auto split: list.splits)

lemma Split_append: "c \<notin> set p \<Longrightarrow> strings_Split (p @ c # r) c = p # strings_Split r c"
  by (induction p) auto

lemma Split_id: "c \<notin> set p \<Longrightarrow> strings_Split p c = [p]"
  by (induction p) auto

lemma Join_Split: "strings_Join (strings_Split s c) [c] = s"
proof (induction s)
  case (Cons x xs)
  obtain y ys where "strings_Split xs c = y # ys" using Split_nonempty [of xs c] by (cases "strings_Split xs c") auto
  with Cons show ?case by (cases ys) auto
qed simp

lemma Split_Join:
  "xs \<noteq> [] \<Longrightarrow> \<forall>x \<in> set xs. c \<notin> set x \<Longrightarrow> strings_Split (strings_Join xs [c]) c = xs"
  by (induction xs "[c]" rule: strings_Join.induct) (auto simp: Split_id Split_append)

lemma ascii_space_lower [simp]: "ascii_space (ascii_lower c) = ascii_space c"
  by (auto simp: ascii_space_def ascii_lower_eq)

lemma TrimSpace_Nil [simp]: "strings_TrimSpace [] = []"
  by (rule TrimSpace_id) simp_all

lemma ReplaceAll_byte:
  "strings_ReplaceAll s [c] new = concat (map (\<lambda>x. if x = c then new else [x]) s)"
proof (induction s)
  case Nil
  show ?case by (subst strings_ReplaceAll.simps) simp
next
  case (Cons x xs)
  then show ?case by (subst strings_ReplaceAll.simps) (simp add: HasPrefix_byte)
qed

section \<open>Facts about package strconv\<close>

definition digits_value :: "string \<Rightarrow> nat" where
  "digits_value s = foldl (\<lambda>n c. 10 * n + ((of_char c :: nat) - 48)) 0 s"

lemma digits_value_snoc: "digits_value (s @ [c]) = 10 * digits_value s + ((of_char c :: nat) - 48)"
  by (simp add: digits_value_def)

lemma digits_value_nat_digits: "digits_value (nat_digits n) = n"
proof (induction n rule: nat_digits.induct)
  case (1 n)
  show ?case
  proof (cases "n < 10")
    case True
    then show ?thesis by (subst nat_digits.simps) (simp add: digits_value_def)
  next
    case False
    with 1 show ?thesis by (subst nat_digits.simps) (simp add: digits_value_snoc)
  qed
qed

lemma nat_digits_inject [simp]: "nat_digits m = nat_digits n \<longleftrightarrow> m = n"
  by (metis digits_value_nat_digits)

lemma nat_digits_ne [simp]: "nat_digits n \<noteq> []"
  by (subst nat_digits.simps) simp

lemma nat_digits_digit: "c \<in> set (nat_digits n) \<Longrightarrow> is_digit c"
proof (induction n rule: nat_digits.induct)
  case (1 n)
  show ?case
  proof (cases "n < 10")
    case True
    with "1.prems" show ?thesis by (subst (asm) nat_digits.simps) (simp add: is_digit_def)
  next
    case False
    with 1 show ?thesis by (subst (asm) (2) nat_digits.simps) (auto simp: is_digit_def)
  qed
qed

lemma parse_uint_loop_digits:
  assumes "list_all is_digit s" and "0 \<le> n"
    and "n * 10 ^ length s + int (digits_value s) \<le> 9223372036854775808"
  shows "parse_uint_loop s n = Inr (n * 10 ^ length s + int (digits_value s))"
  using assms
proof (induction s arbitrary: n)
  case (Cons c cs)
  have d: "0 \<le> digit_value c" "digit_value c = int (of_char c - 48)" and dig: "is_digit c"
    using Cons.prems(1) of_nat_of_char [of c, where 'a = int]
    by (auto simp: digit_value_def is_digit_def of_nat_diff)
  have val: "digits_value (c # cs) = (of_char c - 48) * 10 ^ length cs + digits_value cs" for c cs
  proof (induction cs rule: rev_induct)
    case (snoc x xs)
    then show ?case using digits_value_snoc [of "c # xs" x] digits_value_snoc [of xs x]
      by (simp add: algebra_simps)
  qed (simp add: digits_value_def)
  let ?m = "n * 10 + digit_value c"
  have eq: "?m * 10 ^ length cs + int (digits_value cs) = n * 10 ^ length (c # cs) + int (digits_value (c # cs))"
    by (simp add: val d(2) distrib_right)
  then have le: "?m * 10 ^ length cs + int (digits_value cs) \<le> 9223372036854775808" using Cons.prems by simp
  have "?m * 1 \<le> ?m * 10 ^ length cs" using d Cons.prems(2) by (intro mult_left_mono) simp_all
  then have m: "?m \<le> 9223372036854775808" using le by simp
  from Cons.IH [of ?m] Cons.prems(1,2) d le m dig show ?case
    unfolding eq by simp
qed (simp add: digits_value_def)

lemma Atoi_nat_digits:
  assumes "n \<le> 9223372036854775807"
  shows "strconv_Atoi (nat_digits n) = (int n, None)"
proof -
  have "list_all is_digit (nat_digits n)" using nat_digits_digit by (simp add: list_all_iff)
  then have "parse_uint_loop (nat_digits n) 0 = Inr (int n)"
    using parse_uint_loop_digits [of "nat_digits n" 0] assms by (simp add: digits_value_nat_digits)
  moreover have "is_digit (hd (nat_digits n))" by (rule nat_digits_digit [of _ n]) simp
  then have "hd (nat_digits n) \<noteq> CHR ''+''" "hd (nat_digits n) \<noteq> CHR ''-''"
    by (auto simp: is_digit_def)
  ultimately show ?thesis
    using assms by (simp add: strconv_Atoi_def strconv_ParseInt_def strconv_ParseUint_def Let_def)
qed

lemma Atoi_Itoa:
  assumes "min_int64 \<le> n" and "n \<le> max_int64"
  shows "strconv_Atoi (strconv_Itoa n) = (n, None)"
proof (cases "n < 0")
  case False
  then show ?thesis using Atoi_nat_digits [of "nat n"] assms(2) by (simp add: strconv_Itoa_def max_int64_def)
next
  case True
  let ?m = "nat (- n)"
  have m: "int ?m \<le> 9223372036854775808" using assms(1) by (simp add: min_int64_def)
  have "parse_uint_loop (nat_digits ?m) 0 = Inr (int ?m)"
    using parse_uint_loop_digits [of "nat_digits ?m" 0] m nat_digits_digit
    by (simp add: list_all_iff digits_value_nat_digits)
  with True m show ?thesis
    by (simp add: strconv_Itoa_def strconv_Atoi_def strconv_ParseInt_def strconv_ParseUint_def Let_def)
qed

lemma Cut_byte: "c \<notin> set p \<Longrightarrow> strings_Cut (p @ c # r) [c] = (p, r, True)"
  by (induction p) (auto simp: HasPrefix_byte)

lemma Cut_byte_none: "c \<notin> set p \<Longrightarrow> strings_Cut p [c] = (p, [], False)"
  by (induction p) (auto simp: HasPrefix_byte)

lemmas string_eval = strings_LastIndexByte_def strings_TrimSuffix_def strings_HasSuffix_def
  strings_HasPrefix_def strings_TrimPrefix_def strings_ToLower_def is_ascii_def ascii_lower_def
  is_digit_def strings_Contains_def ascii_space_def

end
