(* ===== verification/Router.thy ===== *)
theory Router
  imports GoLib
begin

text \<open>
  Split routing (router.go): route modes, suffix lists and the decision per target host.
  A nil \<open>*Router\<close> is None. \<open>ul\<close> is the action of strings.ToLower on strings with
  bytes outside ASCII; every property here holds for any such mapping.
\<close>

section \<open>Routes and modes\<close>

datatype Route = RouteWAN | RouteDirect

fun Route_String :: "Route \<Rightarrow> string" where
  "Route_String RouteWAN = ''wan''"
| "Route_String RouteDirect = ''direct''"

type_synonym RouteMode = string

definition RouteAllProxy :: RouteMode where
  "RouteAllProxy = ''all-proxy''"

definition RouteProxyDefault :: RouteMode where
  "RouteProxyDefault = ''proxy-default''"

definition RouteDirectDefault :: RouteMode where
  "RouteDirectDefault = ''direct-default''"

text \<open>\<open>q\<close> is the quoting of the format verb for quoted strings.\<close>

definition ParseRouteMode :: "(string \<Rightarrow> string) \<Rightarrow> string \<Rightarrow> goerror + RouteMode" where
  "ParseRouteMode q s =
     (if s = RouteAllProxy \<or> s = RouteProxyDefault \<or> s = RouteDirectDefault then Inr s
      else Inl (ErrText (''invalid route mode '' @ q s
                         @ '' (want all-proxy | proxy-default | direct-default)'')))"

record Router =
  Mode :: RouteMode
  directSuffixes :: "string list"
  proxySuffixes :: "string list"

definition NewRouter :: "RouteMode \<Rightarrow> string list \<Rightarrow> string list \<Rightarrow> Router" where
  "NewRouter mode direct proxy =
     \<lparr>Mode = mode, directSuffixes = direct, proxySuffixes = proxy\<rparr>"

section \<open>Host matching\<close>

definition strip_port :: "string \<Rightarrow> string" where
  "strip_port host =
     (case strings_LastIndexByte host (CHR '':'') of
        None \<Rightarrow> host
      | Some i \<Rightarrow> if i + 1 < length host \<and> is_digit (host ! (i + 1)) then take i host else host)"

definition normalizeHost :: "(string \<Rightarrow> string) \<Rightarrow> string \<Rightarrow> string" where
  "normalizeHost ul target = strings_ToLower ul (strings_TrimSuffix (strip_port target) ''.'')"

fun suffix_matches :: "(string \<Rightarrow> string) \<Rightarrow> string \<Rightarrow> string \<Rightarrow> bool" where
  "suffix_matches ul host suf =
     (let s = strings_ToLower ul suf
      in if strings_HasPrefix s ''.'' then host = drop 1 s \<or> strings_HasSuffix host s
         else host = s)"

definition matchesAny :: "(string \<Rightarrow> string) \<Rightarrow> string \<Rightarrow> string list \<Rightarrow> bool" where
  "matchesAny ul target suffixes =
     (let host = normalizeHost ul target
      in if host = [] then False else list_ex (suffix_matches ul host) suffixes)"

fun Decide :: "(string \<Rightarrow> string) \<Rightarrow> Router option \<Rightarrow> string \<Rightarrow> Route" where
  "Decide ul None target = RouteWAN"
| "Decide ul (Some r) target =
     (if Mode r = RouteProxyDefault then
        if matchesAny ul target (directSuffixes r) then RouteDirect else RouteWAN
      else if Mode r = RouteDirectDefault then
        if matchesAny ul target (proxySuffixes r) then RouteWAN else RouteDirect
      else RouteWAN)"

section \<open>Suffix lists\<close>

fun normalize_entry :: "(string \<Rightarrow> string) \<Rightarrow> string \<Rightarrow> string option" where
  "normalize_entry ul part =
     (let p = strings_TrimSpace part
      in if p = [] then None
         else let q = strings_ToLower ul p
              in Some (if \<not> strings_HasPrefix q ''.'' \<and> strings_Contains q ''.''
                       then CHR ''.'' # q else q))"

definition parseSuffixList :: "(string \<Rightarrow> string) \<Rightarrow> string \<Rightarrow> string list" where
  "parseSuffixList ul s = List.map_filter (normalize_entry ul) (strings_Split s (CHR '',''))"

text \<open>
  bufio.Scanner with its default split function and buffer: lines without the final
  newline and without one trailing carriage return; a line that does not fit the 64 KiB
  buffer stops the scan with an error.
\<close>

definition drop_cr :: "string \<Rightarrow> string" where
  "drop_cr l = (if l \<noteq> [] \<and> last l = CHR 0x0D then butlast l else l)"

definition scan_lines :: "string \<Rightarrow> goerror + string list" where
  "scan_lines content =
     (let raw = strings_Split content (CHR 0x0A);
          raw' = (if last raw = [] then butlast raw else raw)
      in if list_ex (\<lambda>l. 65536 \<le> length l) raw'
         then Inl (ErrText ''bufio.Scanner: token too long'')
         else Inr (map drop_cr raw'))"

definition keep_line :: "string \<Rightarrow> bool" where
  "keep_line line \<longleftrightarrow> line \<noteq> [] \<and> \<not> strings_HasPrefix line ''#''"

definition loadSuffixFile ::
    "(string \<Rightarrow> string) \<Rightarrow> (string \<Rightarrow> goerror + string) \<Rightarrow> string \<Rightarrow> goerror + string list" where
  "loadSuffixFile ul fs path =
     (case fs path of
        Inl e \<Rightarrow> Inl e
      | Inr content \<Rightarrow>
          (case scan_lines content of
             Inl e \<Rightarrow> Inl e
           | Inr ls \<Rightarrow>
               Inr (parseSuffixList ul
                      (strings_Join (filter keep_line (map strings_TrimSpace ls)) '',''))))"

section \<open>Properties\<close>


definition in_domain :: "string \<Rightarrow> string \<Rightarrow> bool" where
  "in_domain host s =
     (case s of
        [] \<Rightarrow> host = []
      | c # d \<Rightarrow> if c = CHR ''.'' then host = d \<or> (\<exists>l. host = l @ CHR ''.'' # d) else host = s)"

lemma suffix_matches_iff: "suffix_matches ul host s \<longleftrightarrow> in_domain host (strings_ToLower ul s)"
  by (cases "strings_ToLower ul s")
    (auto simp: in_domain_def HasPrefix_byte HasSuffix_iff Let_def)

lemma matchesAny_iff:
  "matchesAny ul t ss \<longleftrightarrow> normalizeHost ul t \<noteq> [] \<and>
     (\<exists>s \<in> set ss. in_domain (normalizeHost ul t) (strings_ToLower ul s))"
  by (auto simp: matchesAny_def Let_def list_ex_iff suffix_matches_iff simp del: suffix_matches.simps)

lemma modes_distinct [simp]:
  "RouteDirectDefault \<noteq> RouteProxyDefault" "RouteProxyDefault \<noteq> RouteDirectDefault"
  "RouteAllProxy \<noteq> RouteProxyDefault" "RouteAllProxy \<noteq> RouteDirectDefault"
  by (simp_all add: RouteDirectDefault_def RouteProxyDefault_def RouteAllProxy_def)

text \<open>C35. The routing table of the README: a connection goes direct exactly when the
  router is in proxy-default mode and the normalised host lies in a domain of the direct list,
  or in direct-default mode and it lies in no domain of the proxy list. A dotted suffix covers
  its domain and the labels below it only (a label boundary is required); without a router, and
  in every other mode, everything goes through the WAN pool.\<close>

theorem Decide_direct_iff:
  "Decide ul ro t = RouteDirect \<longleftrightarrow>
     (\<exists>r. ro = Some r \<and>
        (Mode r = ''proxy-default'' \<and> normalizeHost ul t \<noteq> [] \<and>
           (\<exists>s \<in> set (directSuffixes r). in_domain (normalizeHost ul t) (strings_ToLower ul s))
         \<or> Mode r = ''direct-default'' \<and>
           (normalizeHost ul t = [] \<or>
            (\<forall>s \<in> set (proxySuffixes r). \<not> in_domain (normalizeHost ul t) (strings_ToLower ul s)))))"
  by (cases ro)
    (auto simp: matchesAny_iff RouteDirectDefault_def RouteProxyDefault_def)

lemma Decide_direct_iff_witness:
  "Decide (\<lambda>s. s) (Some (NewRouter ''proxy-default'' [''.ir''] [])) ''Shop.IR:443'' = RouteDirect \<and>
   Decide (\<lambda>s. s) (Some (NewRouter ''proxy-default'' [''.ir''] [])) ''shopir'' \<noteq> RouteDirect"
proof -
  have "normalizeHost (\<lambda>s. s) ''Shop.IR:443'' = ''shop.ir''"
    and "normalizeHost (\<lambda>s. s) ''shopir'' = ''shopir''"
    by code_simp+
  then show ?thesis
    unfolding Decide_direct_iff
    by (simp add: NewRouter_def in_domain_def HasSuffix_iff [symmetric] string_eval char_of_def bit_simps)
qed


lemma strip_port_no_colon: "CHR '':'' \<notin> set h \<Longrightarrow> strip_port h = h"
  by (simp add: strip_port_def LastIndexByte_None [THEN iffD2])

lemma strip_port_digits:
  assumes "p \<noteq> []" and "list_all is_digit p"
  shows "strip_port (h @ CHR '':'' # p) = h"
proof -
  have "CHR '':'' \<notin> set p"
    using assms(2) by (auto simp: list_all_iff is_digit_def)
  moreover have "is_digit ((h @ CHR '':'' # p) ! (length h + 1))"
    using assms by (cases p) (auto simp: nth_append)
  ultimately show ?thesis
    using assms(1) by (simp add: strip_port_def LastIndexByte_append)
qed

lemma normalizeHost_port:
  "p \<noteq> [] \<Longrightarrow> list_all is_digit p \<Longrightarrow> CHR '':'' \<notin> set h \<Longrightarrow>
     normalizeHost ul (h @ CHR '':'' # p) = normalizeHost ul h"
  by (simp add: normalizeHost_def strip_port_digits strip_port_no_colon)

lemma TrimSuffix_dot_id: "h = [] \<or> last h \<noteq> CHR ''.'' \<Longrightarrow> strings_TrimSuffix h ''.'' = h"
  by (auto simp: strings_TrimSuffix_def HasSuffix_iff)

lemma normalizeHost_dot:
  "CHR '':'' \<notin> set h \<Longrightarrow> h = [] \<or> last h \<noteq> CHR ''.'' \<Longrightarrow>
     normalizeHost ul (h @ ''.'') = normalizeHost ul h"
  by (simp add: normalizeHost_def strip_port_no_colon TrimSuffix_dot_id)

lemma strip_port_lower: "strip_port (map ascii_lower t) = map ascii_lower (strip_port t)"
proof -
  have "ascii_lower x = CHR '':'' \<longleftrightarrow> x = CHR '':''" for x
    by (rule ascii_lower_eq) simp_all
  then have "strings_LastIndexByte (map ascii_lower t) (CHR '':'') = strings_LastIndexByte t (CHR '':'')"
    by (simp add: strings_LastIndexByte_def rev_map IndexByte_map)
  then show ?thesis
    by (auto simp: strip_port_def take_map split: option.splits)
qed

lemma TrimSuffix_dot_lower:
  "strings_TrimSuffix (map ascii_lower t) ''.'' = map ascii_lower (strings_TrimSuffix t ''.'')"
proof -
  have "ascii_lower x = CHR ''.'' \<longleftrightarrow> x = CHR ''.''" for x
    by (rule ascii_lower_eq) simp_all
  then have "strings_HasSuffix (map ascii_lower t) ''.'' = strings_HasSuffix t ''.''"
    by (cases t rule: rev_cases) (auto simp: HasSuffix_iff)
  then show ?thesis by (simp add: strings_TrimSuffix_def take_map)
qed

lemma normalizeHost_lower:
  assumes "list_all is_ascii t"
  shows "normalizeHost ul (map ascii_lower t) = normalizeHost ul t"
proof -
  have "list_all is_ascii (strings_TrimSuffix (strip_port t) ''.'')"
    using assms by (auto simp: strings_TrimSuffix_def strip_port_def list_all_take split: option.splits)
  then show ?thesis
    by (simp add: normalizeHost_def strip_port_lower TrimSuffix_dot_lower ToLower_ascii
        list.pred_map o_def list.map_comp)
qed

lemma Decide_cong: "normalizeHost ul t = normalizeHost ul u \<Longrightarrow> Decide ul ro t = Decide ul ro u"
  by (cases ro) (simp_all add: matchesAny_def)

text \<open>C36. The decision does not depend on how the client spells the target: an
  ASCII host name gets the same route with a port appended, with a trailing dot and in any mix of
  upper and lower case, for every router.\<close>

theorem Decide_target_variants:
  assumes "list_all is_ascii h" and "CHR '':'' \<notin> set h" and "h = [] \<or> last h \<noteq> CHR ''.''"
    and "p \<noteq> []" and "list_all is_digit p" and "map ascii_lower h' = map ascii_lower h"
    and "list_all is_ascii h'"
  shows "Decide ul ro (h @ CHR '':'' # p) = Decide ul ro h \<and>
         Decide ul ro (h @ ''.'') = Decide ul ro h \<and> Decide ul ro h' = Decide ul ro h"
proof (intro conjI)
  show "Decide ul ro (h @ CHR '':'' # p) = Decide ul ro h"
    by (rule Decide_cong) (rule normalizeHost_port [OF assms(4,5,2)])
  show "Decide ul ro (h @ ''.'') = Decide ul ro h"
    by (rule Decide_cong) (rule normalizeHost_dot [OF assms(2,3)])
  have "normalizeHost ul h' = normalizeHost ul h"
    using normalizeHost_lower [OF assms(1), of ul] normalizeHost_lower [OF assms(7), of ul] assms(6)
    by simp
  then show "Decide ul ro h' = Decide ul ro h" by (rule Decide_cong)
qed

definition example_router :: Router where
  "example_router = NewRouter RouteProxyDefault [''.ir''] []"

lemma Decide_target_variants_witness:
  "Decide id (Some example_router) (''example.ir'' @ CHR '':'' # ''443'') = Decide id (Some example_router) ''example.ir'' \<and>
   Decide id (Some example_router) (''example.ir'' @ ''.'') = Decide id (Some example_router) ''example.ir'' \<and>
   Decide id (Some example_router) ''EXAMPLE.ir'' = Decide id (Some example_router) ''example.ir''"
  by (rule Decide_target_variants [of "''example.ir''" "''443''" "''EXAMPLE.ir''"])
    code_simp+

definition normal_entry :: "string \<Rightarrow> bool" where
  "normal_entry e \<longleftrightarrow> e \<noteq> [] \<and> list_all is_ascii e \<and> CHR '','' \<notin> set e \<and>
     \<not> ascii_space (hd e) \<and> \<not> ascii_space (last e) \<and> map ascii_lower e = e \<and>
     (hd e = CHR ''.'' \<or> CHR ''.'' \<notin> set e)"

lemma normal_entry_fixed: "normal_entry e \<Longrightarrow> normalize_entry ul e = Some e"
  by (auto simp: normal_entry_def TrimSpace_id ToLower_ascii HasPrefix_byte Contains_byte Let_def)

lemma normal_entry_lowered:
  assumes "t \<noteq> []" and "list_all is_ascii t" and "CHR '','' \<notin> set t"
    and "\<not> ascii_space (hd t)" and "\<not> ascii_space (last t)"
  defines "q \<equiv> map ascii_lower t"
  shows "normal_entry (if hd q \<noteq> CHR ''.'' \<and> CHR ''.'' \<in> set q then CHR ''.'' # q else q)"
proof -
  have comma: "ascii_lower x = CHR '','' \<longleftrightarrow> x = CHR '',''" for x
    by (rule ascii_lower_eq) simp_all
  have "CHR '','' \<notin> set q"
    unfolding q_def using assms(3) by (metis comma image_iff list.set_map)
  moreover have "q \<noteq> []" "\<not> ascii_space (hd q)" "\<not> ascii_space (last q)"
    using assms by (simp_all add: q_def hd_map last_map)
  moreover have "list_all is_ascii q" "map ascii_lower q = q"
    using assms(2) by (simp_all add: q_def list.pred_map o_def)
  moreover have "\<not> ascii_space (CHR ''.'')" "ascii_lower (CHR ''.'') = CHR ''.''" "is_ascii (CHR ''.'')"
    by (simp_all add: ascii_space_def ascii_lower_def is_ascii_def)
  ultimately show ?thesis by (simp add: normal_entry_def)
qed

lemma normalize_entry_normal:
  assumes "list_all is_ascii p" and "CHR '','' \<notin> set p" and "normalize_entry ul p = Some e"
  shows "normal_entry e"
proof -
  let ?t = "strings_TrimSpace p"
  have sub: "set ?t \<subseteq> set p" by (rule set_TrimSpace_ascii [OF assms(1)])
  with assms(1) have ascii: "list_all is_ascii ?t" by (auto simp: list_all_iff)
  from assms(3) have ne: "?t \<noteq> []" by (auto simp: Let_def split: if_splits)
  then have e: "e = (if hd (map ascii_lower ?t) \<noteq> CHR ''.'' \<and> CHR ''.'' \<in> set (map ascii_lower ?t)
                  then CHR ''.'' # map ascii_lower ?t else map ascii_lower ?t)"
    using assms(3) by (simp add: Let_def ToLower_ascii [OF ascii] HasPrefix_byte Contains_byte
        del: list.set_map)
  from sub assms(2) have "CHR '','' \<notin> set ?t" by auto
  from normal_entry_lowered [OF ne ascii this TrimSpace_ends [OF assms(1) ne]]
  show ?thesis by (simp only: e)
qed

lemma map_filter_normal:
  "list_all normal_entry es \<Longrightarrow> List.map_filter (normalize_entry ul) es = es"
  by (induction es) (simp_all add: normal_entry_fixed del: normalize_entry.simps)

lemma normalize_entry_Nil: "normalize_entry ul [] = None"
  by simp

text \<open>parseSuffixList puts an ASCII list into normal form: every entry is
  non-empty, trimmed, lower case, free of commas, and either starts with a dot or is a single label;
  and a list in normal form is a fixed point, so reading the entries back (as loadSuffixFile does
  by joining lines with commas) changes nothing.\<close>

theorem parseSuffixList_normal:
  assumes "list_all is_ascii s"
  shows "list_all normal_entry (parseSuffixList ul s) \<and>
         parseSuffixList ul (strings_Join (parseSuffixList ul s) '','') = parseSuffixList ul s"
proof (rule conjI)
  show all: "list_all normal_entry (parseSuffixList ul s)"
    unfolding list_all_iff
  proof
    fix e assume "e \<in> set (parseSuffixList ul s)"
    then obtain p where p: "p \<in> set (strings_Split s (CHR '',''))" "normalize_entry ul p = Some e"
      by (auto simp: parseSuffixList_def List.map_filter_def)
    then have "list_all is_ascii p" using assms Split_chars [OF p(1)] by (auto simp: list_all_iff)
    with p Split_no_sep [OF p(1)] show "normal_entry e" by (intro normalize_entry_normal)
  qed
  let ?es = "parseSuffixList ul s"
  show "parseSuffixList ul (strings_Join ?es '','') = ?es"
  proof (cases "?es = []")
    case True
    then show ?thesis
      by (simp add: parseSuffixList_def normalize_entry_Nil del: normalize_entry.simps)
  next
    case False
    with all have "strings_Split (strings_Join ?es '','') (CHR '','') = ?es"
      by (intro Split_Join) (auto simp: list_all_iff normal_entry_def)
    with map_filter_normal [OF all, of ul] show ?thesis
      by (simp add: parseSuffixList_def)
  qed
qed

lemma parseSuffixList_normal_witness:
  "parseSuffixList (\<lambda>s. s) '' Example.COM,,localhost'' = [''.example.com'', ''localhost''] \<and>
   list_all normal_entry [''.example.com'', ''localhost'']"
proof -
  have "parseSuffixList (\<lambda>s. s) '' Example.COM,,localhost'' = [''.example.com'', ''localhost'']"
    by code_simp
  with parseSuffixList_normal [of "'' Example.COM,,localhost''" "\<lambda>s. s"] show ?thesis
    by (simp add: string_eval)
qed


lemma normalizeHost_bare_ipv6: "normalizeHost ul ''[::1]'' = ''[:''"
  by (simp add: normalizeHost_def strip_port_def strings_LastIndexByte_def is_digit_def
      strings_TrimSuffix_def strings_HasSuffix_def strings_ToLower_def is_ascii_def ascii_lower_def)

end
