(* ===== verification/GoUrl.thy ===== *)
theory GoUrl
  imports GoLib
begin

text \<open>
  Package net/url as the program uses it: unescape with its modes, Parse, Hostname and Port;
  and package encoding/base64 (the standard and the URL alphabet, with padding).
\<close>

section \<open>Characters\<close>

definition is_alpha :: "char \<Rightarrow> bool" where
  "is_alpha c \<longleftrightarrow>
     (65 \<le> (of_char c :: nat) \<and> (of_char c :: nat) \<le> 90) \<or> (97 \<le> (of_char c :: nat) \<and> (of_char c :: nat) \<le> 122)"

definition unhex :: "char \<Rightarrow> nat option" where
  "unhex c =
     (let n = (of_char c :: nat)
      in if 48 \<le> n \<and> n \<le> 57 then Some (n - 48)
         else if 97 \<le> n \<and> n \<le> 102 then Some (n - 87)
         else if 65 \<le> n \<and> n \<le> 70 then Some (n - 55)
         else None)"

definition is_ctl :: "char \<Rightarrow> bool" where
  "is_ctl c \<longleftrightarrow> (of_char c :: nat) < 32 \<or> (of_char c :: nat) = 127"

section \<open>Percent encoding\<close>

datatype url_mode = encodePath | encodeUserPassword | encodeHost | encodeZone | encodeQueryComponent | encodeFragment

text \<open>shouldEscape for the two host modes, the only ones that unescape consults it for.\<close>

definition shouldEscapeHost :: "char \<Rightarrow> bool" where
  "shouldEscapeHost c \<longleftrightarrow>
     \<not> (is_alpha c \<or> is_digit c \<or> c \<in> set ''!$&()*+,;=:[]<>'' \<or> c = CHR 0x27 \<or> c = CHR 0x22 \<or>
        c \<in> set ''-_.~'')"

definition host_mode :: "url_mode \<Rightarrow> bool" where
  "host_mode m \<longleftrightarrow> m = encodeHost \<or> m = encodeZone"

text \<open>
  Percent escapes that a mode refuses: in a host only bytes outside ASCII (and the escaped
  percent sign) may be escaped, in a zone only what a host could hold.
\<close>

definition bad_escape :: "url_mode \<Rightarrow> nat \<Rightarrow> nat \<Rightarrow> bool" where
  "bad_escape m h l \<longleftrightarrow>
     (m = encodeHost \<and> h < 8 \<and> \<not> (h = 2 \<and> l = 5)) \<or>
     (m = encodeZone \<and> \<not> (h = 2 \<and> l = 5) \<and> 16 * h + l \<noteq> 32 \<and> shouldEscapeHost (char_of (16 * h + l)))"

fun url_unescape :: "url_mode \<Rightarrow> string \<Rightarrow> string option" where
  "url_unescape m [] = Some []"
| "url_unescape m (c # cs) =
     (if c = CHR ''%'' then
        (case cs of
           a # b # rest \<Rightarrow>
             (case (unhex a, unhex b) of
                (Some h, Some l) \<Rightarrow>
                  if bad_escape m h l then None
                  else map_option ((#) (char_of (16 * h + l))) (url_unescape m rest)
              | _ \<Rightarrow> None)
         | _ \<Rightarrow> None)
      else if host_mode m \<and> is_ascii c \<and> shouldEscapeHost c then None
      else map_option ((#) (if c = CHR ''+'' \<and> m = encodeQueryComponent then CHR '' '' else c))
             (url_unescape m cs))"

definition url_QueryUnescape :: "string \<Rightarrow> string option" where
  "url_QueryUnescape = url_unescape encodeQueryComponent"

section \<open>Parse\<close>

datatype scheme_result = SchemeError | SchemeIs string string

text \<open>getScheme: the prefix read so far is kept reversed.\<close>

fun scheme_loop :: "string \<Rightarrow> string \<Rightarrow> string \<Rightarrow> scheme_result" where
  "scheme_loop raw acc [] = SchemeIs [] raw"
| "scheme_loop raw acc (c # cs) =
     (if is_alpha c then scheme_loop raw (c # acc) cs
      else if is_digit c \<or> c \<in> set ''+-.'' then
        (if acc = [] then SchemeIs [] raw else scheme_loop raw (c # acc) cs)
      else if c = CHR '':'' then (if acc = [] then SchemeError else SchemeIs (rev acc) cs)
      else SchemeIs [] raw)"

definition getScheme :: "string \<Rightarrow> scheme_result" where
  "getScheme raw = scheme_loop raw [] raw"

definition validOptionalPort :: "string \<Rightarrow> bool" where
  "validOptionalPort p \<longleftrightarrow> p = [] \<or> (hd p = CHR '':'' \<and> list_all is_digit (tl p))"

definition validUserinfo :: "string \<Rightarrow> bool" where
  "validUserinfo = list_all (\<lambda>c. is_alpha c \<or> is_digit c \<or> c \<in> set ''-._:~!$&()*+,;=%@'' \<or> c = CHR 0x27)"

fun index_sub :: "string \<Rightarrow> string \<Rightarrow> nat option" where
  "index_sub [] sub = (if sub = [] then Some 0 else None)"
| "index_sub (c # cs) sub =
     (if strings_HasPrefix (c # cs) sub then Some 0 else map_option Suc (index_sub cs sub))"

definition parseHost :: "string \<Rightarrow> string option" where
  "parseHost host =
     (if strings_HasPrefix host ''['' then
        (case strings_LastIndexByte host (CHR '']'') of
           None \<Rightarrow> None
         | Some i \<Rightarrow>
             if \<not> validOptionalPort (drop (i + 1) host) then None
             else
               (case index_sub (take i host) ''%25'' of
                  Some zone \<Rightarrow>
                    (case (url_unescape encodeHost (take zone host),
                           url_unescape encodeZone (drop zone (take i host)),
                           url_unescape encodeHost (drop i host)) of
                       (Some host1, Some host2, Some host3) \<Rightarrow> Some (host1 @ host2 @ host3)
                     | _ \<Rightarrow> None)
                | None \<Rightarrow> url_unescape encodeHost host))
      else
        (case strings_LastIndexByte host (CHR '':'') of
           Some i \<Rightarrow> if \<not> validOptionalPort (drop i host) then None else url_unescape encodeHost host
         | None \<Rightarrow> url_unescape encodeHost host))"

text \<open>The user information: the user name, and the password when there is one.\<close>

type_synonym userinfo = "string \<times> string option"

definition parseUserinfo :: "string \<Rightarrow> userinfo option" where
  "parseUserinfo u =
     (if \<not> validUserinfo u then None
      else if \<not> strings_Contains u '':'' then
        map_option (\<lambda>n. (n, None)) (url_unescape encodeUserPassword u)
      else
        (case strings_Cut u '':'' of (username, password, _) \<Rightarrow>
           (case (url_unescape encodeUserPassword username, url_unescape encodeUserPassword password) of
              (Some n, Some p) \<Rightarrow> Some (n, Some p)
            | _ \<Rightarrow> None)))"

definition parseAuthority :: "string \<Rightarrow> (userinfo option \<times> string) option" where
  "parseAuthority authority =
     (case strings_LastIndexByte authority (CHR ''@'') of
        None \<Rightarrow> map_option (\<lambda>h. (None, h)) (parseHost authority)
      | Some i \<Rightarrow>
          (case parseHost (drop (i + 1) authority) of
             None \<Rightarrow> None
           | Some h \<Rightarrow> map_option (\<lambda>u. (Some u, h)) (parseUserinfo (take i authority))))"

record URL =
  u_Scheme :: string
  u_Opaque :: string
  u_User :: "userinfo option"
  u_Host :: string
  u_Path :: string
  u_RawQuery :: string
  u_Fragment :: string

definition empty_url :: URL where
  "empty_url =
     \<lparr>u_Scheme = [], u_Opaque = [], u_User = None, u_Host = [], u_Path = [], u_RawQuery = [], u_Fragment = []\<rparr>"

text \<open>The part of parse after the scheme and the query have been cut off.\<close>

definition parse_rest :: "URL \<Rightarrow> string \<Rightarrow> URL option" where
  "parse_rest u rest =
     (let path = (\<lambda>v p. map_option (\<lambda>q. v\<lparr>u_Path := q\<rparr>) (url_unescape encodePath p))
      in if \<not> strings_HasPrefix rest ''/'' \<and> u_Scheme u \<noteq> [] then Some (u\<lparr>u_Opaque := rest\<rparr>)
         else if \<not> strings_HasPrefix rest ''/'' \<and> strings_Contains (fst (strings_Cut rest ''/'')) '':'' then None
         else if (u_Scheme u \<noteq> [] \<or> \<not> strings_HasPrefix rest ''///'') \<and> strings_HasPrefix rest ''//'' then
           (let authority = takeWhile (\<lambda>c. c \<noteq> CHR ''/'') (drop 2 rest);
                rest' = dropWhile (\<lambda>c. c \<noteq> CHR ''/'') (drop 2 rest)
            in case parseAuthority authority of
                 None \<Rightarrow> None
               | Some (user, host) \<Rightarrow> path (u\<lparr>u_User := user, u_Host := host\<rparr>) rest')
         else path u rest)"

definition parse_url :: "string \<Rightarrow> URL option" where
  "parse_url raw =
     (if list_ex is_ctl raw then None
      else if raw = ''*'' then Some (empty_url\<lparr>u_Path := ''*''\<rparr>)
      else
        (case getScheme raw of
           SchemeError \<Rightarrow> None
         | SchemeIs scheme rest \<Rightarrow>
             (case (if strings_HasSuffix rest ''?'' \<and> length (filter (\<lambda>c. c = CHR ''?'') rest) = 1
                    then (butlast rest, []) else (case strings_Cut rest ''?'' of (r, q, _) \<Rightarrow> (r, q))) of
                (r, q) \<Rightarrow>
                  parse_rest (empty_url\<lparr>u_Scheme := map ascii_lower scheme, u_RawQuery := q\<rparr>) r)))"

definition url_Parse :: "string \<Rightarrow> URL option" where
  "url_Parse rawURL =
     (case strings_Cut rawURL ''#'' of (u, frag, _) \<Rightarrow>
        (case parse_url u of
           None \<Rightarrow> None
         | Some v \<Rightarrow>
             if frag = [] then Some v
             else map_option (\<lambda>f. v\<lparr>u_Fragment := f\<rparr>) (url_unescape encodeFragment frag)))"

text \<open>Hostname and Port (the function splitHostPort of net/url).\<close>

definition url_splitHostPort :: "string \<Rightarrow> string \<times> string" where
  "url_splitHostPort hostPort =
     (case (case strings_LastIndexByte hostPort (CHR '':'') of
              None \<Rightarrow> (hostPort, [])
            | Some colon \<Rightarrow>
                if validOptionalPort (drop colon hostPort)
                then (take colon hostPort, drop (colon + 1) hostPort) else (hostPort, [])) of
        (host, port) \<Rightarrow>
          (if strings_HasPrefix host ''['' \<and> strings_HasSuffix host '']''
           then take (length host - 2) (drop 1 host) else host, port))"

definition url_Hostname :: "URL \<Rightarrow> string" where
  "url_Hostname u = fst (url_splitHostPort (u_Host u))"

definition url_Port :: "URL \<Rightarrow> string" where
  "url_Port u = snd (url_splitHostPort (u_Host u))"

section \<open>Base64\<close>

datatype b64_alphabet = StdEncoding | URLEncoding

definition b64_value :: "b64_alphabet \<Rightarrow> char \<Rightarrow> nat option" where
  "b64_value enc c =
     (let n = (of_char c :: nat)
      in if 65 \<le> n \<and> n \<le> 90 then Some (n - 65)
         else if 97 \<le> n \<and> n \<le> 122 then Some (n - 71)
         else if 48 \<le> n \<and> n \<le> 57 then Some (n + 4)
         else if c = (case enc of StdEncoding \<Rightarrow> CHR ''+'' | URLEncoding \<Rightarrow> CHR ''-'') then Some 62
         else if c = (case enc of StdEncoding \<Rightarrow> CHR ''/'' | URLEncoding \<Rightarrow> CHR ''_'') then Some 63
         else None)"

text \<open>One quantum of four characters after another; carriage returns and newlines are skipped first.\<close>

fun b64_quanta :: "b64_alphabet \<Rightarrow> string \<Rightarrow> string option" where
  "b64_quanta enc [] = Some []"
| "b64_quanta enc (a # b # c # d # rest) =
     (case (b64_value enc a, b64_value enc b) of
        (Some va, Some vb) \<Rightarrow>
          (if c = CHR ''='' then
             (if d = CHR ''='' \<and> rest = [] then Some [char_of (va * 4 + vb div 16)] else None)
           else
             (case b64_value enc c of
                None \<Rightarrow> None
              | Some vc \<Rightarrow>
                  (if d = CHR ''='' then
                     (if rest = [] then Some [char_of (va * 4 + vb div 16), char_of (vb mod 16 * 16 + vc div 4)]
                      else None)
                   else
                     (case b64_value enc d of
                        None \<Rightarrow> None
                      | Some vd \<Rightarrow>
                          map_option (\<lambda>r. [char_of (va * 4 + vb div 16), char_of (vb mod 16 * 16 + vc div 4),
                                           char_of (vc mod 4 * 64 + vd)] @ r)
                            (b64_quanta enc rest)))))
      | _ \<Rightarrow> None)"
| "b64_quanta enc _ = None"

definition b64_DecodeString :: "b64_alphabet \<Rightarrow> string \<Rightarrow> string option" where
  "b64_DecodeString enc s = b64_quanta enc (filter (\<lambda>c. c \<noteq> CHR 0x0A \<and> c \<noteq> CHR 0x0D) s)"

end
