(* ===== verification/Config.thy ===== *)
theory Config
  imports Router GoUrl
begin

text \<open>
  The configuration read from the environment (main.go: Config, parseConfig, MaxTestPerCycleVal,
  buildDownloadURL). Arguments: the environment \<open>ev\<close> (None for a variable that is not set), the
  conversion \<open>pf\<close> of strconv.ParseFloat (finite numbers; None for an error), the quoting \<open>q\<close> of the
  format verb for quoted strings, the file system \<open>fs\<close> and the Unicode part \<open>ul\<close> of
  strings.ToLower.
\<close>

record Config =
  c_SubscriberURL :: string
  c_FetchInterval :: int
  c_TestTimeout :: int
  c_DownloadSize :: int
  c_DownloadEndpoint :: string
  c_DownloadFallback :: string
  c_WanCount :: int
  c_WanBasePort :: int
  c_TestBasePort :: int
  c_ProxyPort :: int
  c_SocksPort :: int
  c_MetricsPort :: int
  c_MinimumSpeed :: real
  c_MaxTestPerCycle :: int
  c_KeepaliveInterval :: int
  c_WanFailThreshold :: int
  c_StabilityProbes :: int
  c_AccessLog :: bool
  c_AllowDegradedBoot :: bool
  c_Router :: "Router option"
  c_XrayMux :: bool

type_synonym environ = "string \<Rightarrow> string option"

definition MaxTestPerCycleVal :: "Config \<Rightarrow> int" where
  "MaxTestPerCycleVal c = (if c_MaxTestPerCycle c > 0 then c_MaxTestPerCycle c else 20)"

definition buildDownloadURL :: "Config \<Rightarrow> int \<Rightarrow> string" where
  "buildDownloadURL cfg downloadSize =
     (if c_DownloadEndpoint cfg \<noteq> [] then c_DownloadEndpoint cfg @ strconv_Itoa downloadSize
      else c_DownloadFallback cfg)"

section \<open>One setting\<close>

definition getenv :: "environ \<Rightarrow> string \<Rightarrow> string" where
  "getenv ev name = (case ev name of None \<Rightarrow> [] | Some v \<Rightarrow> v)"

definition setting_error :: "(string \<Rightarrow> string) \<Rightarrow> string \<Rightarrow> string \<Rightarrow> string \<Rightarrow> goerror" where
  "setting_error q name v msg = ErrText (''error: '' @ name @ ''='' @ q v @ '': '' @ msg)"

definition and_then :: "goerror + 'a \<Rightarrow> ('a \<Rightarrow> goerror + 'b) \<Rightarrow> goerror + 'b" where
  "and_then r f = (case r of Inl e \<Rightarrow> Inl e | Inr x \<Rightarrow> f x)"

text \<open>The pattern of the integer settings: a default, Atoi, and a range check with its message.\<close>

definition int_setting ::
    "(string \<Rightarrow> string) \<Rightarrow> environ \<Rightarrow> string \<Rightarrow> int \<Rightarrow> (int \<Rightarrow> bool) \<Rightarrow> string \<Rightarrow> goerror + int" where
  "int_setting q ev name def ok msg =
     (let v = getenv ev name
      in if v = [] then Inr def
         else (case strconv_Atoi v of (n, err) \<Rightarrow>
                 if err \<noteq> None then Inl (setting_error q name v ''must be a valid integer'')
                 else if \<not> ok n then Inl (setting_error q name v msg)
                 else Inr n))"

definition bool_setting :: "(string \<Rightarrow> string) \<Rightarrow> environ \<Rightarrow> string \<Rightarrow> bool \<Rightarrow> goerror + bool" where
  "bool_setting q ev name def =
     (let v = getenv ev name
      in if v = [] then Inr def
         else (case strconv_ParseBool v of
                 None \<Rightarrow> Inl (setting_error q name v ''must be a boolean (true/false)'')
               | Some b \<Rightarrow> Inr b))"

definition http_url :: "string \<Rightarrow> bool" where
  "http_url v = (case url_Parse v of None \<Rightarrow> False | Some u \<Rightarrow> u_Scheme u = ''http'' \<or> u_Scheme u = ''https'')"

definition url_setting :: "(string \<Rightarrow> string) \<Rightarrow> environ \<Rightarrow> string \<Rightarrow> string \<Rightarrow> goerror + string" where
  "url_setting q ev name def =
     (case ev name of
        None \<Rightarrow> Inr def
      | Some v \<Rightarrow>
          if v \<noteq> [] \<and> \<not> http_url v then Inl (setting_error q name v ''must be a valid HTTP/HTTPS URL'') else Inr v)"

definition between :: "int \<Rightarrow> int \<Rightarrow> int \<Rightarrow> bool" where
  "between lo hi n \<longleftrightarrow> \<not> (n < lo \<or> n > hi)"

section \<open>The settings in order\<close>

definition blank_config :: Config where
  "blank_config =
     \<lparr>c_SubscriberURL = [], c_FetchInterval = 0, c_TestTimeout = 0, c_DownloadSize = 0,
      c_DownloadEndpoint = [], c_DownloadFallback = [], c_WanCount = 0, c_WanBasePort = 0,
      c_TestBasePort = 0, c_ProxyPort = 0, c_SocksPort = 0, c_MetricsPort = 0, c_MinimumSpeed = 0,
      c_MaxTestPerCycle = 0, c_KeepaliveInterval = 0, c_WanFailThreshold = 0, c_StabilityProbes = 0,
      c_AccessLog = False, c_AllowDegradedBoot = False, c_Router = None, c_XrayMux = False\<rparr>"

definition parse_subscriber :: "(string \<Rightarrow> string) \<Rightarrow> environ \<Rightarrow> goerror + Config" where
  "parse_subscriber q ev =
     (let v = getenv ev ''SUBSCRIBER_URL''
      in if v = [] then Inl (setting_error q ''SUBSCRIBER_URL'' v ''must be set to a valid HTTP/HTTPS URL'')
         else if \<not> http_url v then Inl (setting_error q ''SUBSCRIBER_URL'' v ''must be a valid HTTP/HTTPS URL'')
         else Inr (blank_config\<lparr>c_SubscriberURL := v\<rparr>))"

definition parse_download :: "(string \<Rightarrow> string) \<Rightarrow> environ \<Rightarrow> Config \<Rightarrow> goerror + Config" where
  "parse_download q ev c =
     and_then (int_setting q ev ''FETCH_INTERVAL'' 300 (\<lambda>n. \<not> n < 30) ''must be >= 30'') (\<lambda>fi.
     and_then (int_setting q ev ''TEST_TIMEOUT'' 10 (\<lambda>n. \<not> n < 3) ''must be >= 3'') (\<lambda>tt.
     and_then (int_setting q ev ''DOWNLOAD_SIZE'' 10000000 (\<lambda>n. \<not> n < 1000000) ''must be >= 1000000'') (\<lambda>ds.
     and_then (url_setting q ev ''DOWNLOAD_ENDPOINT'' ''https://speed.cloudflare.com/__down?bytes='') (\<lambda>de.
     and_then (url_setting q ev ''DOWNLOAD_FALLBACK'' ''https://proof.ovh.net/files/'') (\<lambda>df.
     Inr (c\<lparr>c_FetchInterval := fi, c_TestTimeout := tt, c_DownloadSize := ds, c_DownloadEndpoint := de,
            c_DownloadFallback := df\<rparr>))))))"

definition parse_ports :: "(string \<Rightarrow> string) \<Rightarrow> environ \<Rightarrow> Config \<Rightarrow> goerror + Config" where
  "parse_ports q ev c =
     and_then (int_setting q ev ''WAN_COUNT'' 4 (between 1 5) ''must be between 1 and 5'') (\<lambda>wc.
     and_then (int_setting q ev ''WAN_BASE_PORT'' 10700 (between 1 65535) ''must be between 1 and 65535'') (\<lambda>wb.
     and_then (int_setting q ev ''TEST_BASE_PORT'' 10800 (between 1 65535) ''must be between 1 and 65535'') (\<lambda>tb.
     and_then (int_setting q ev ''PROXY_PORT'' 1080 (between 1 65535) ''must be between 1 and 65535'') (\<lambda>pp.
     and_then (int_setting q ev ''SOCKS_PORT'' 0 (between 0 65535) ''must be between 0 and 65535'') (\<lambda>sp.
     Inr (c\<lparr>c_WanCount := wc, c_WanBasePort := wb, c_TestBasePort := tb, c_ProxyPort := pp,
            c_SocksPort := sp\<rparr>))))))"

definition speed_setting :: "(string \<Rightarrow> real option) \<Rightarrow> (string \<Rightarrow> string) \<Rightarrow> environ \<Rightarrow> goerror + real" where
  "speed_setting pf q ev =
     (let v = getenv ev ''MINIMUM_SPEED''
      in if v = [] then Inr 5
         else (case pf v of
                 None \<Rightarrow> Inl (setting_error q ''MINIMUM_SPEED'' v ''must be a valid number'')
               | Some n \<Rightarrow> if n < 0.1 then Inl (setting_error q ''MINIMUM_SPEED'' v ''must be >= 0.1'') else Inr n))"

definition parse_limits ::
    "(string \<Rightarrow> real option) \<Rightarrow> (string \<Rightarrow> string) \<Rightarrow> environ \<Rightarrow> Config \<Rightarrow> goerror + Config" where
  "parse_limits pf q ev c =
     and_then (speed_setting pf q ev) (\<lambda>ms.
     and_then (int_setting q ev ''MAX_TEST_PER_CYCLE'' 20 (between 1 500) ''must be between 1 and 500'') (\<lambda>mt.
     and_then (int_setting q ev ''KEEPALIVE_INTERVAL'' 300 (\<lambda>n. \<not> n < 10) ''must be >= 10'') (\<lambda>ki.
     and_then (int_setting q ev ''WAN_FAIL_THRESHOLD'' 2 (\<lambda>n. \<not> n < 1) ''must be >= 1'') (\<lambda>wf.
     and_then (int_setting q ev ''STABILITY_PROBES'' 0 (between 0 5) ''must be between 0 and 5'') (\<lambda>sb.
     and_then (int_setting q ev ''METRICS_PORT'' 0 (between 0 65535) ''must be between 0 and 65535'') (\<lambda>mp.
     Inr (c\<lparr>c_MinimumSpeed := ms, c_MaxTestPerCycle := mt, c_KeepaliveInterval := ki,
            c_WanFailThreshold := wf, c_StabilityProbes := sb, c_MetricsPort := mp\<rparr>)))))))"

definition parse_flags :: "(string \<Rightarrow> string) \<Rightarrow> environ \<Rightarrow> Config \<Rightarrow> goerror + Config" where
  "parse_flags q ev c =
     and_then (bool_setting q ev ''ACCESS_LOG'' True) (\<lambda>al.
     and_then (bool_setting q ev ''ALLOW_DEGRADED_BOOT'' True) (\<lambda>ad.
     Inr (c\<lparr>c_AccessLog := al, c_AllowDegradedBoot := ad\<rparr>)))"

text \<open>The list files: read after the lists of the environment, and appended to them.\<close>

definition list_file_setting ::
    "(string \<Rightarrow> string) \<Rightarrow> (string \<Rightarrow> string) \<Rightarrow> (string \<Rightarrow> goerror + string) \<Rightarrow> environ \<Rightarrow> string \<Rightarrow>
     string list \<Rightarrow> goerror + string list" where
  "list_file_setting ul q fs ev name entries =
     (let v = getenv ev name
      in if v = [] then Inr entries
         else (case loadSuffixFile ul fs v of
                 Inl e \<Rightarrow> Inl (ErrWrap (''error: '' @ name @ ''='' @ q v @ '': '') e [])
               | Inr fromFile \<Rightarrow> Inr (entries @ fromFile)))"

definition mode_setting :: "(string \<Rightarrow> string) \<Rightarrow> environ \<Rightarrow> goerror + string" where
  "mode_setting q ev =
     (let v = getenv ev ''ROUTE_MODE''
      in if v = [] then Inr RouteAllProxy
         else (case ParseRouteMode q v of Inl e \<Rightarrow> Inl (ErrWrap ''error: '' e []) | Inr m \<Rightarrow> Inr m))"

definition parse_routing ::
    "(string \<Rightarrow> string) \<Rightarrow> (string \<Rightarrow> string) \<Rightarrow> (string \<Rightarrow> goerror + string) \<Rightarrow> environ \<Rightarrow> Config \<Rightarrow> goerror + Config" where
  "parse_routing ul q fs ev c =
     and_then (mode_setting q ev) (\<lambda>mode.
     and_then (list_file_setting ul q fs ev ''DIRECT_LIST_FILE''
                 (parseSuffixList ul (getenv ev ''DIRECT_DOMAINS''))) (\<lambda>direct.
     and_then (list_file_setting ul q fs ev ''PROXY_LIST_FILE''
                 (parseSuffixList ul (getenv ev ''PROXY_DOMAINS''))) (\<lambda>prox.
     Inr (if mode \<noteq> RouteAllProxy \<or> direct \<noteq> [] \<or> prox \<noteq> []
          then c\<lparr>c_Router := Some (NewRouter mode direct prox)\<rparr> else c))))"

definition parseConfig ::
    "(string \<Rightarrow> string) \<Rightarrow> (string \<Rightarrow> real option) \<Rightarrow> (string \<Rightarrow> string) \<Rightarrow> (string \<Rightarrow> goerror + string) \<Rightarrow>
     environ \<Rightarrow> goerror + Config" where
  "parseConfig ul pf q fs ev =
     and_then (parse_subscriber q ev) (\<lambda>c0.
     and_then (parse_download q ev c0) (\<lambda>c1.
     and_then (parse_ports q ev c1) (\<lambda>c2.
     and_then (parse_limits pf q ev c2) (\<lambda>c3.
     and_then (parse_flags q ev c3) (\<lambda>c4.
     and_then (parse_routing ul q fs ev c4) (\<lambda>c5.
     and_then (bool_setting q ev ''XRAY_MUX'' True) (\<lambda>mux.
     Inr (c5\<lparr>c_XrayMux := mux\<rparr>))))))))"

section \<open>Properties\<close>

lemma and_then_Inr: "and_then r f = Inr y \<longleftrightarrow> (\<exists>x. r = Inr x \<and> f x = Inr y)"
  by (cases r) (simp_all add: and_then_def)

lemma int_setting_ok: "int_setting q ev name def ok msg = Inr n \<Longrightarrow> ok def \<Longrightarrow> ok n"
  by (auto simp: int_setting_def Let_def split: prod.splits if_splits)

text \<open>The documented range of every number of the configuration.\<close>

definition config_ok :: "Config \<Rightarrow> bool" where
  "config_ok c \<longleftrightarrow>
     http_url (c_SubscriberURL c) \<and> 30 \<le> c_FetchInterval c \<and> 3 \<le> c_TestTimeout c \<and>
     1000000 \<le> c_DownloadSize c \<and> 1 \<le> c_WanCount c \<and> c_WanCount c \<le> 5 \<and>
     1 \<le> c_WanBasePort c \<and> c_WanBasePort c \<le> 65535 \<and> 1 \<le> c_TestBasePort c \<and> c_TestBasePort c \<le> 65535 \<and>
     1 \<le> c_ProxyPort c \<and> c_ProxyPort c \<le> 65535 \<and> 0 \<le> c_SocksPort c \<and> c_SocksPort c \<le> 65535 \<and>
     0 \<le> c_MetricsPort c \<and> c_MetricsPort c \<le> 65535 \<and> 0.1 \<le> c_MinimumSpeed c \<and>
     1 \<le> c_MaxTestPerCycle c \<and> c_MaxTestPerCycle c \<le> 500 \<and> 10 \<le> c_KeepaliveInterval c \<and>
     1 \<le> c_WanFailThreshold c \<and> 0 \<le> c_StabilityProbes c \<and> c_StabilityProbes c \<le> 5 \<and>
     (c_DownloadEndpoint c = [] \<or> http_url (c_DownloadEndpoint c)) \<and>
     (c_DownloadFallback c = [] \<or> http_url (c_DownloadFallback c))"

lemma default_urls: "http_url ''https://speed.cloudflare.com/__down?bytes=''" "http_url ''https://proof.ovh.net/files/''"
  by code_simp+

lemma url_setting_ok: "url_setting q ev name def = Inr v \<Longrightarrow> http_url def \<Longrightarrow> v = [] \<or> http_url v"
  by (auto simp: url_setting_def split: option.splits if_splits)

lemma speed_setting_ok: "speed_setting pf q ev = Inr v \<Longrightarrow> 0.1 \<le> v"
  by (auto simp: speed_setting_def Let_def split: option.splits if_splits)

lemma parse_subscriber_ok:
  "parse_subscriber q ev = Inr c \<Longrightarrow>
     c = blank_config\<lparr>c_SubscriberURL := getenv ev ''SUBSCRIBER_URL''\<rparr> \<and> http_url (getenv ev ''SUBSCRIBER_URL'')"
  by (auto simp: parse_subscriber_def Let_def split: if_splits)

lemma parse_download_ok:
  assumes "parse_download q ev c = Inr c'"
  shows "\<exists>fi tt ds de df. c' = c\<lparr>c_FetchInterval := fi, c_TestTimeout := tt, c_DownloadSize := ds,
      c_DownloadEndpoint := de, c_DownloadFallback := df\<rparr> \<and> 30 \<le> fi \<and> 3 \<le> tt \<and> 1000000 \<le> ds \<and>
      (de = [] \<or> http_url de) \<and> (df = [] \<or> http_url df)"
proof -
  obtain fi tt ds de df where c': "c' = c\<lparr>c_FetchInterval := fi, c_TestTimeout := tt, c_DownloadSize := ds,
      c_DownloadEndpoint := de, c_DownloadFallback := df\<rparr>"
    and set: "int_setting q ev ''FETCH_INTERVAL'' 300 (\<lambda>n. \<not> n < 30) ''must be >= 30'' = Inr fi"
      "int_setting q ev ''TEST_TIMEOUT'' 10 (\<lambda>n. \<not> n < 3) ''must be >= 3'' = Inr tt"
      "int_setting q ev ''DOWNLOAD_SIZE'' 10000000 (\<lambda>n. \<not> n < 1000000) ''must be >= 1000000'' = Inr ds"
      "url_setting q ev ''DOWNLOAD_ENDPOINT'' ''https://speed.cloudflare.com/__down?bytes='' = Inr de"
      "url_setting q ev ''DOWNLOAD_FALLBACK'' ''https://proof.ovh.net/files/'' = Inr df"
    using assms unfolding parse_download_def and_then_Inr by blast
  have "30 \<le> fi" "3 \<le> tt" "1000000 \<le> ds"
    using int_setting_ok [OF set(1)] int_setting_ok [OF set(2)] int_setting_ok [OF set(3)] by simp_all
  moreover have "de = [] \<or> http_url de" "df = [] \<or> http_url df"
    using url_setting_ok [OF set(4)] url_setting_ok [OF set(5)] default_urls by blast+
  ultimately show ?thesis using c' by blast
qed

lemma parse_ports_ok:
  assumes "parse_ports q ev c = Inr c'"
  shows "\<exists>wc wb tb pp sp. c' = c\<lparr>c_WanCount := wc, c_WanBasePort := wb, c_TestBasePort := tb,
      c_ProxyPort := pp, c_SocksPort := sp\<rparr> \<and> between 1 5 wc \<and> between 1 65535 wb \<and>
      between 1 65535 tb \<and> between 1 65535 pp \<and> between 0 65535 sp"
proof -
  obtain wc wb tb pp sp where c': "c' = c\<lparr>c_WanCount := wc, c_WanBasePort := wb, c_TestBasePort := tb,
      c_ProxyPort := pp, c_SocksPort := sp\<rparr>"
    and set: "int_setting q ev ''WAN_COUNT'' 4 (between 1 5) ''must be between 1 and 5'' = Inr wc"
      "int_setting q ev ''WAN_BASE_PORT'' 10700 (between 1 65535) ''must be between 1 and 65535'' = Inr wb"
      "int_setting q ev ''TEST_BASE_PORT'' 10800 (between 1 65535) ''must be between 1 and 65535'' = Inr tb"
      "int_setting q ev ''PROXY_PORT'' 1080 (between 1 65535) ''must be between 1 and 65535'' = Inr pp"
      "int_setting q ev ''SOCKS_PORT'' 0 (between 0 65535) ''must be between 0 and 65535'' = Inr sp"
    using assms unfolding parse_ports_def and_then_Inr by blast
  have "between 1 5 4" "between 1 65535 10700" "between 1 65535 10800" "between 1 65535 1080" "between 0 65535 0"
    by (simp_all add: between_def)
  with c' set [THEN int_setting_ok] show ?thesis by blast
qed

lemma parse_limits_ok:
  assumes "parse_limits pf q ev c = Inr c'"
  shows "\<exists>ms mt ki wf sb mp. c' = c\<lparr>c_MinimumSpeed := ms, c_MaxTestPerCycle := mt, c_KeepaliveInterval := ki,
      c_WanFailThreshold := wf, c_StabilityProbes := sb, c_MetricsPort := mp\<rparr> \<and> 0.1 \<le> ms \<and>
      between 1 500 mt \<and> 10 \<le> ki \<and> 1 \<le> wf \<and> between 0 5 sb \<and> between 0 65535 mp"
proof -
  obtain ms mt ki wf sb mp where c': "c' = c\<lparr>c_MinimumSpeed := ms, c_MaxTestPerCycle := mt,
      c_KeepaliveInterval := ki, c_WanFailThreshold := wf, c_StabilityProbes := sb, c_MetricsPort := mp\<rparr>"
    and ms: "speed_setting pf q ev = Inr ms"
    and set: "int_setting q ev ''MAX_TEST_PER_CYCLE'' 20 (between 1 500) ''must be between 1 and 500'' = Inr mt"
      "int_setting q ev ''KEEPALIVE_INTERVAL'' 300 (\<lambda>n. \<not> n < 10) ''must be >= 10'' = Inr ki"
      "int_setting q ev ''WAN_FAIL_THRESHOLD'' 2 (\<lambda>n. \<not> n < 1) ''must be >= 1'' = Inr wf"
      "int_setting q ev ''STABILITY_PROBES'' 0 (between 0 5) ''must be between 0 and 5'' = Inr sb"
      "int_setting q ev ''METRICS_PORT'' 0 (between 0 65535) ''must be between 0 and 65535'' = Inr mp"
    using assms unfolding parse_limits_def and_then_Inr by blast
  have "between 1 500 20" "between 0 5 0" "between 0 65535 0" by (simp_all add: between_def)
  then have "between 1 500 mt" "10 \<le> ki" "1 \<le> wf" "between 0 5 sb" "between 0 65535 mp"
    using int_setting_ok [OF set(1)] int_setting_ok [OF set(2)] int_setting_ok [OF set(3)]
      int_setting_ok [OF set(4)] int_setting_ok [OF set(5)] by simp_all
  with c' speed_setting_ok [OF ms] show ?thesis by blast
qed

lemma parse_flags_ok:
  "parse_flags q ev c = Inr c' \<Longrightarrow> \<exists>al ad. c' = c\<lparr>c_AccessLog := al, c_AllowDegradedBoot := ad\<rparr>"
  unfolding parse_flags_def and_then_Inr by blast

lemma parse_routing_ok:
  "parse_routing ul q fs ev c = Inr c' \<Longrightarrow> c' = c \<or> (\<exists>r. c' = c\<lparr>c_Router := Some r\<rparr>)"
  unfolding parse_routing_def and_then_Inr by (auto split: if_splits)

lemma parseConfig_config_ok:
  assumes "parseConfig ul pf q fs ev = Inr c"
  shows "config_ok c \<and> c_SubscriberURL c = getenv ev ''SUBSCRIBER_URL''"
proof -
  obtain c0 c1 c2 c3 c4 c5 mux where
    st: "parse_subscriber q ev = Inr c0" "parse_download q ev c0 = Inr c1" "parse_ports q ev c1 = Inr c2"
      "parse_limits pf q ev c2 = Inr c3" "parse_flags q ev c3 = Inr c4" "parse_routing ul q fs ev c4 = Inr c5"
    and c: "c = c5\<lparr>c_XrayMux := mux\<rparr>"
    using assms unfolding parseConfig_def and_then_Inr by blast
  note ok = parse_subscriber_ok [OF st(1)] parse_download_ok [OF st(2)] parse_ports_ok [OF st(3)]
    parse_limits_ok [OF st(4)] parse_flags_ok [OF st(5)] parse_routing_ok [OF st(6)]
  show ?thesis using ok unfolding c config_ok_def between_def by (elim exE conjE disjE) simp_all
qed


definition example_environ :: environ where
  "example_environ =
     [''SUBSCRIBER_URL'' \<mapsto> ''https://example.com/sub'', ''WAN_COUNT'' \<mapsto> ''2'',
      ''DIRECT_DOMAINS'' \<mapsto> ''.ir'', ''ROUTE_MODE'' \<mapsto> ''proxy-default'']"

definition example_config :: Config where
  "example_config =
     \<lparr>c_SubscriberURL = ''https://example.com/sub'', c_FetchInterval = 300, c_TestTimeout = 10,
      c_DownloadSize = 10000000, c_DownloadEndpoint = ''https://speed.cloudflare.com/__down?bytes='',
      c_DownloadFallback = ''https://proof.ovh.net/files/'', c_WanCount = 2, c_WanBasePort = 10700,
      c_TestBasePort = 10800, c_ProxyPort = 1080, c_SocksPort = 0, c_MetricsPort = 0, c_MinimumSpeed = 5,
      c_MaxTestPerCycle = 20, c_KeepaliveInterval = 300, c_WanFailThreshold = 2, c_StabilityProbes = 0,
      c_AccessLog = True, c_AllowDegradedBoot = True,
      c_Router = Some (NewRouter RouteProxyDefault [''.ir''] []), c_XrayMux = True\<rparr>"


definition default_config :: "string \<Rightarrow> Config" where
  "default_config v =
     \<lparr>c_SubscriberURL = v, c_FetchInterval = 300, c_TestTimeout = 10,
      c_DownloadSize = 10000000, c_DownloadEndpoint = ''https://speed.cloudflare.com/__down?bytes='',
      c_DownloadFallback = ''https://proof.ovh.net/files/'', c_WanCount = 4, c_WanBasePort = 10700,
      c_TestBasePort = 10800, c_ProxyPort = 1080, c_SocksPort = 0, c_MetricsPort = 0, c_MinimumSpeed = 5,
      c_MaxTestPerCycle = 20, c_KeepaliveInterval = 300, c_WanFailThreshold = 2, c_StabilityProbes = 0,
      c_AccessLog = True, c_AllowDegradedBoot = True, c_Router = None, c_XrayMux = True\<rparr>"

lemma parseSuffixList_Nil: "parseSuffixList ul [] = []"
  by (simp add: parseSuffixList_def map_filter_def)

text \<open>With nothing but the subscription address set, parseConfig returns the documented defaults,
  and no router.\<close>

theorem parseConfig_defaults:
  assumes "http_url v"
  shows "parseConfig ul pf q fs [''SUBSCRIBER_URL'' \<mapsto> v] = Inr (default_config v)"
proof -
  let ?ev = "[''SUBSCRIBER_URL'' \<mapsto> v] :: environ"
  have ne: "v \<noteq> []"
  proof
    assume "v = []"
    moreover have "\<not> http_url []" by code_simp
    ultimately show False using assms by simp
  qed
  have env: "getenv ?ev ''SUBSCRIBER_URL'' = v" "name \<noteq> ''SUBSCRIBER_URL'' \<Longrightarrow> getenv ?ev name = []"
    "name \<noteq> ''SUBSCRIBER_URL'' \<Longrightarrow> ?ev name = None" for name
    by (simp_all add: getenv_def)
  have "parse_subscriber q ?ev = Inr (blank_config\<lparr>c_SubscriberURL := v\<rparr>)"
    using assms ne by (simp add: parse_subscriber_def env(1) Let_def)
  moreover have "int_setting q ?ev name d ok msg = Inr d" if "name \<noteq> ''SUBSCRIBER_URL''" for name d ok msg
    using that by (simp add: int_setting_def env(2))
  moreover have "bool_setting q ?ev name d = Inr d" if "name \<noteq> ''SUBSCRIBER_URL''" for name d
    using that by (simp add: bool_setting_def env(2))
  moreover have "url_setting q ?ev name d = Inr d" if "name \<noteq> ''SUBSCRIBER_URL''" for name d
    using that by (simp add: url_setting_def)
  moreover have "speed_setting pf q ?ev = Inr 5" "mode_setting q ?ev = Inr RouteAllProxy"
    by (simp_all add: speed_setting_def mode_setting_def env(2))
  moreover have "list_file_setting ul q fs ?ev name xs = Inr xs" if "name \<noteq> ''SUBSCRIBER_URL''" for name xs
    using that by (simp add: list_file_setting_def env(2))
  ultimately show ?thesis
    by (simp add: parseConfig_def and_then_def parse_download_def parse_ports_def parse_limits_def
        parse_flags_def parse_routing_def env(2) parseSuffixList_Nil blank_config_def default_config_def)
qed

lemma parseConfig_defaults_witness:
  "parseConfig id (\<lambda>_. None) id (\<lambda>_. Inr []) [''SUBSCRIBER_URL'' \<mapsto> ''https://example.com/sub''] =
     Inr (default_config ''https://example.com/sub'')"
proof -
  have "http_url ''https://example.com/sub''" by code_simp
  then show ?thesis by (rule parseConfig_defaults)
qed

text \<open>The integer settings with their bounds.\<close>

definition int_settings :: "(string \<times> int \<times> int) list" where
  "int_settings =
     [(''FETCH_INTERVAL'', 30, max_int64), (''TEST_TIMEOUT'', 3, max_int64), (''DOWNLOAD_SIZE'', 1000000, max_int64),
      (''WAN_COUNT'', 1, 5), (''WAN_BASE_PORT'', 1, 65535), (''TEST_BASE_PORT'', 1, 65535), (''PROXY_PORT'', 1, 65535),
      (''SOCKS_PORT'', 0, 65535), (''MAX_TEST_PER_CYCLE'', 1, 500), (''KEEPALIVE_INTERVAL'', 10, max_int64),
      (''WAN_FAIL_THRESHOLD'', 1, max_int64), (''STABILITY_PROBES'', 0, 5), (''METRICS_PORT'', 0, 65535)]"

lemma int_setting_reject:
  assumes "ev name = Some (strconv_Itoa n)" "min_int64 \<le> n" "n \<le> max_int64"
    and "int_setting q ev name d ok msg = Inr m"
  shows "ok n"
proof -
  have "strconv_Itoa n \<noteq> []" by (simp add: strconv_Itoa_def)
  then show ?thesis
    using assms Atoi_Itoa [OF assms(2,3)]
    by (simp add: int_setting_def getenv_def Let_def split: if_splits)
qed

text \<open>A number outside its range in any integer setting makes parseConfig fail, whatever the
  other variables are.\<close>

theorem parseConfig_rejects:
  assumes "(name, lo, hi) \<in> set int_settings" and "ev name = Some (strconv_Itoa n)"
    and "min_int64 \<le> n" "n \<le> max_int64" and "n < lo \<or> hi < n"
  shows "\<exists>e. parseConfig ul pf q fs ev = Inl e"
proof (rule ccontr)
  assume "\<not> ?thesis"
  then obtain c where "parseConfig ul pf q fs ev = Inr c" by (cases "parseConfig ul pf q fs ev") auto
  then obtain c0 c1 c2 c3 where st: "parse_download q ev c0 = Inr c1" "parse_ports q ev c1 = Inr c2"
      "parse_limits pf q ev c2 = Inr c3"
    unfolding parseConfig_def and_then_Inr by blast
  obtain fi tt ds where i1: "int_setting q ev ''FETCH_INTERVAL'' 300 (\<lambda>n. \<not> n < 30) ''must be >= 30'' = Inr fi"
      "int_setting q ev ''TEST_TIMEOUT'' 10 (\<lambda>n. \<not> n < 3) ''must be >= 3'' = Inr tt"
      "int_setting q ev ''DOWNLOAD_SIZE'' 10000000 (\<lambda>n. \<not> n < 1000000) ''must be >= 1000000'' = Inr ds"
    using st(1) unfolding parse_download_def and_then_Inr by blast
  obtain wc wb tb pp sp where i2: "int_setting q ev ''WAN_COUNT'' 4 (between 1 5) ''must be between 1 and 5'' = Inr wc"
      "int_setting q ev ''WAN_BASE_PORT'' 10700 (between 1 65535) ''must be between 1 and 65535'' = Inr wb"
      "int_setting q ev ''TEST_BASE_PORT'' 10800 (between 1 65535) ''must be between 1 and 65535'' = Inr tb"
      "int_setting q ev ''PROXY_PORT'' 1080 (between 1 65535) ''must be between 1 and 65535'' = Inr pp"
      "int_setting q ev ''SOCKS_PORT'' 0 (between 0 65535) ''must be between 0 and 65535'' = Inr sp"
    using st(2) unfolding parse_ports_def and_then_Inr by blast
  obtain mt ki wf sb mp where i3: "int_setting q ev ''MAX_TEST_PER_CYCLE'' 20 (between 1 500) ''must be between 1 and 500'' = Inr mt"
      "int_setting q ev ''KEEPALIVE_INTERVAL'' 300 (\<lambda>n. \<not> n < 10) ''must be >= 10'' = Inr ki"
      "int_setting q ev ''WAN_FAIL_THRESHOLD'' 2 (\<lambda>n. \<not> n < 1) ''must be >= 1'' = Inr wf"
      "int_setting q ev ''STABILITY_PROBES'' 0 (between 0 5) ''must be between 0 and 5'' = Inr sb"
      "int_setting q ev ''METRICS_PORT'' 0 (between 0 65535) ''must be between 0 and 65535'' = Inr mp"
    using st(3) unfolding parse_limits_def and_then_Inr by blast
  have sound: "ev nm = Some (strconv_Itoa n) \<longrightarrow> lo \<le> n \<and> n \<le> hi"
    if "int_setting q ev nm d ok msg = Inr m" "ok n \<Longrightarrow> lo \<le> n" "ok n \<Longrightarrow> n \<le> hi" for nm d ok msg m lo hi
    using int_setting_reject [OF _ assms(3,4) that(1)] that(2,3) by blast
  have "list_all (\<lambda>(nm, lo, hi). ev nm = Some (strconv_Itoa n) \<longrightarrow> lo \<le> n \<and> n \<le> hi) int_settings"
    unfolding int_settings_def list.pred_inject prod.case
    by (intro conjI TrueI
      sound [OF i1(1)]
      sound [OF i1(2)]
      sound [OF i1(3)]
      sound [OF i2(1)]
      sound [OF i2(2)]
      sound [OF i2(3)]
      sound [OF i2(4)]
      sound [OF i2(5)]
      sound [OF i3(1)]
      sound [OF i3(2)]
      sound [OF i3(3)]
      sound [OF i3(4)]
      sound [OF i3(5)])
      (simp_all add: between_def assms(4))
  with assms(1,2,5) show False by (fastforce simp: list_all_iff)
qed

lemma parseConfig_rejects_witness:
  "\<exists>e. parseConfig id (\<lambda>_. None) id (\<lambda>_. Inr [])
     [''SUBSCRIBER_URL'' \<mapsto> ''https://example.com/sub'', ''WAN_COUNT'' \<mapsto> ''6''] = Inl e"
proof (rule parseConfig_rejects)
  show "(''WAN_COUNT'', 1, 5) \<in> set int_settings" by (simp add: int_settings_def)
  have "strconv_Itoa 6 = ''6''" by code_simp
  then show "[''SUBSCRIBER_URL'' \<mapsto> ''https://example.com/sub'', ''WAN_COUNT'' \<mapsto> ''6''] ''WAN_COUNT'' =
      Some (strconv_Itoa 6)" by simp
qed (simp_all add: min_int64_def max_int64_def)

end
