(* ===== verification/GoJson.thy ===== *)
theory GoJson
  imports GoLib
begin

text \<open>
  Package encoding/json as parser.go uses it: Unmarshal into a map of interfaces and into a struct of
  string fields. A text is cut into tokens, and a pushdown automaton assembles the value;
  both are total, and the nesting limit of the package (10000) is kept. Numbers are kept as
  their literals. Strings are decoded as the package does: escapes, surrogate pairs, and invalid
  UTF-8 replaced.
\<close>

section \<open>Strings\<close>

definition hex4 :: "string \<Rightarrow> nat option" where
  "hex4 s =
     (let d = (\<lambda>c. let n = (of_char c :: nat)
                   in if 48 \<le> n \<and> n \<le> 57 then n - 48
                      else if 97 \<le> n \<and> n \<le> 102 then n - 87
                      else if 65 \<le> n \<and> n \<le> 70 then n - 55 else 16)
      in case s of
           [a, b, c, e] \<Rightarrow>
             if d a < 16 \<and> d b < 16 \<and> d c < 16 \<and> d e < 16
             then Some (d a * 4096 + d b * 256 + d c * 16 + d e) else None
         | _ \<Rightarrow> None)"

text \<open>The contents of a string literal up to the closing quote, and the rest after it.\<close>

fun scan_string :: "string \<Rightarrow> (string \<times> string) option" where
  "scan_string [] = None"
| "scan_string (c # cs) =
     (if c = CHR 0x22 then Some ([], cs)
      else if c = CHR 0x5C then
        (case cs of
           [] \<Rightarrow> None
         | e # rest \<Rightarrow>
             if e = CHR ''u'' \<and> hex4 (take 4 rest) = None then None
             else if e \<noteq> CHR ''u'' \<and> e \<noteq> CHR 0x22 \<and> e \<noteq> CHR 0x5C \<and> e \<notin> set ''/bfnrt'' then None
             else map_option (\<lambda>(s, r). (c # e # s, r)) (scan_string rest))
      else if (of_char c :: nat) < 32 then None
      else map_option (\<lambda>(s, r). (c # s, r)) (scan_string cs))"

lemma scan_string_shorter: "scan_string s = Some (x, r) \<Longrightarrow> length r < length s"
  by (induction s arbitrary: x r rule: scan_string.induct)
    (fastforce split: if_splits list.splits)+

definition utf8_bytes :: "nat \<Rightarrow> string" where
  "utf8_bytes r =
     (if r < 128 then [char_of r]
      else if r < 2048 then [char_of (192 + r div 64), char_of (128 + r mod 64)]
      else if r < 65536 then
        [char_of (224 + r div 4096), char_of (128 + r div 64 mod 64), char_of (128 + r mod 64)]
      else
        [char_of (240 + r div 262144), char_of (128 + r div 4096 mod 64),
         char_of (128 + r div 64 mod 64), char_of (128 + r mod 64)])"

definition replacement :: string where
  "replacement = [CHR 0xEF, CHR 0xBF, CHR 0xBD]"

text \<open>
  The length of the valid UTF-8 sequence at the front of a string of bytes, 0 when there is none
  (utf8.DecodeRune: overlong forms, surrogates and code points above 10FFFF are invalid).
\<close>

definition rune_length :: "string \<Rightarrow> nat" where
  "rune_length s =
     (let b = (\<lambda>i. if i < length s then (of_char (s ! i) :: nat) else 0);
          cont = (\<lambda>i. 128 \<le> b i \<and> b i \<le> 191)
      in if b 0 < 128 then (if s = [] then 0 else 1)
         else if 194 \<le> b 0 \<and> b 0 \<le> 223 \<and> cont 1 then 2
         else if b 0 = 224 \<and> 160 \<le> b 1 \<and> b 1 \<le> 191 \<and> cont 2 then 3
         else if b 0 = 237 \<and> 128 \<le> b 1 \<and> b 1 \<le> 159 \<and> cont 2 then 3
         else if 225 \<le> b 0 \<and> b 0 \<le> 239 \<and> b 0 \<noteq> 237 \<and> cont 1 \<and> cont 2 then 3
         else if b 0 = 240 \<and> 144 \<le> b 1 \<and> b 1 \<le> 191 \<and> cont 2 \<and> cont 3 then 4
         else if 241 \<le> b 0 \<and> b 0 \<le> 243 \<and> cont 1 \<and> cont 2 \<and> cont 3 then 4
         else if b 0 = 244 \<and> 128 \<le> b 1 \<and> b 1 \<le> 143 \<and> cont 2 \<and> cont 3 then 4
         else 0)"

definition simple_escape :: "char \<Rightarrow> char" where
  "simple_escape e =
     (if e = CHR ''b'' then CHR 0x08 else if e = CHR ''f'' then CHR 0x0C
      else if e = CHR ''n'' then CHR 0x0A else if e = CHR ''r'' then CHR 0x0D
      else if e = CHR ''t'' then CHR 0x09 else e)"

definition next_u :: "string \<Rightarrow> nat option" where
  "next_u s = (case s of a # b # rest \<Rightarrow>
       if a = CHR 0x5C \<and> b = CHR ''u'' then hex4 (take 4 rest) else None
     | _ \<Rightarrow> None)"

function unquote :: "string \<Rightarrow> string" where
  "unquote s =
     (case s of
        [] \<Rightarrow> []
      | c # cs \<Rightarrow>
          if c = CHR 0x5C \<and> cs \<noteq> [] then
            (if hd cs = CHR ''u'' then
               (let r = (case hex4 (take 4 (tl cs)) of None \<Rightarrow> 0 | Some n \<Rightarrow> n);
                    rest = drop 4 (tl cs)
                in if 55296 \<le> r \<and> r < 57344 then
                     (case next_u rest of
                        Some r1 \<Rightarrow>
                          if r < 56320 \<and> 56320 \<le> r1 \<and> r1 < 57344
                          then utf8_bytes (65536 + (r - 55296) * 1024 + (r1 - 56320)) @ unquote (drop 6 rest)
                          else replacement @ unquote rest
                      | None \<Rightarrow> replacement @ unquote rest)
                   else utf8_bytes r @ unquote rest)
             else simple_escape (hd cs) # unquote (tl cs))
          else if rune_length s = 0 then replacement @ unquote cs
          else take (rune_length s) s @ unquote (drop (rune_length s) s))"
  by pat_completeness auto
termination
  by (relation "measure length") (auto simp: less_Suc_eq_le split: list.splits)

declare unquote.simps [simp del]

section \<open>Tokens\<close>

datatype json = JNull | JBool bool | JNum string | JStr string | JArr "json list" | JObj "(string \<times> json) list"

datatype jtoken = OpenObj | CloseObj | OpenArr | CloseArr | Colon | Comma | Scalar json

fun all_digits :: "string \<Rightarrow> bool" where
  "all_digits s \<longleftrightarrow> s \<noteq> [] \<and> list_all is_digit s"

definition valid_exponent :: "string \<Rightarrow> bool" where
  "valid_exponent s \<longleftrightarrow>
     s = [] \<or> (hd s \<in> set ''eE'' \<and>
       (let t = tl s in all_digits (if t \<noteq> [] \<and> hd t \<in> set ''+-'' then tl t else t)))"

definition valid_number :: "string \<Rightarrow> bool" where
  "valid_number s =
     (let t = (if s \<noteq> [] \<and> hd s = CHR ''-'' then tl s else s);
          whole = takeWhile is_digit t;
          u = dropWhile is_digit t;
          frac = takeWhile is_digit (tl u);
          v = (if u \<noteq> [] \<and> hd u = CHR ''.'' then dropWhile is_digit (tl u) else u)
      in whole \<noteq> [] \<and> (hd whole = CHR ''0'' \<longrightarrow> length whole = 1) \<and>
         (u \<noteq> [] \<and> hd u = CHR ''.'' \<longrightarrow> frac \<noteq> []) \<and> valid_exponent v)"

definition number_char :: "char \<Rightarrow> bool" where
  "number_char c \<longleftrightarrow> is_digit c \<or> c \<in> set ''+-.eE''"

definition json_space :: "char \<Rightarrow> bool" where
  "json_space c \<longleftrightarrow> c = CHR '' '' \<or> c = CHR 0x09 \<or> c = CHR 0x0A \<or> c = CHR 0x0D"

definition punctuation :: "char \<Rightarrow> jtoken option" where
  "punctuation c =
     (if c = CHR ''{'' then Some OpenObj else if c = CHR ''}'' then Some CloseObj
      else if c = CHR ''['' then Some OpenArr else if c = CHR '']'' then Some CloseArr
      else if c = CHR '':'' then Some Colon else if c = CHR '','' then Some Comma else None)"

definition literal :: "string \<Rightarrow> (json \<times> string) option" where
  "literal s =
     (if strings_HasPrefix s ''null'' then Some (JNull, drop 4 s)
      else if strings_HasPrefix s ''true'' then Some (JBool True, drop 4 s)
      else if strings_HasPrefix s ''false'' then Some (JBool False, drop 5 s)
      else let n = takeWhile number_char s
           in if valid_number n then Some (JNum n, drop (length n) s) else None)"

lemma literal_shorter: "literal s = Some (v, r) \<Longrightarrow> s \<noteq> [] \<and> length r < length s"
  by (cases s) (auto simp: literal_def strings_HasPrefix_def valid_number_def Let_def split: if_splits)

function (sequential) tokens :: "string \<Rightarrow> jtoken list option" where
  "tokens [] = Some []"
| "tokens (c # cs) =
     (if json_space c then tokens cs
      else (case punctuation c of
              Some t \<Rightarrow> map_option ((#) t) (tokens cs)
            | None \<Rightarrow>
                if c = CHR 0x22 then
                  (case scan_string cs of
                     None \<Rightarrow> None
                   | Some (s, r) \<Rightarrow> map_option ((#) (Scalar (JStr (unquote s)))) (tokens r))
                else
                  (case literal (c # cs) of
                     None \<Rightarrow> None
                   | Some (v, r) \<Rightarrow> map_option ((#) (Scalar v)) (tokens r))))"
  by pat_completeness auto
termination
  by (relation "measure length") (auto dest: scan_string_shorter literal_shorter)

section \<open>Values\<close>

text \<open>
  An open array holds its values so far, an open object its members so far and the key in progress;
  both lists are reversed.
\<close>

datatype jframe = InArr "json list" | InObj "(string \<times> json) list" string

datatype jmode = WantValue | WantValueOrClose | WantKey "(string \<times> json) list" bool
  | WantColon "(string \<times> json) list" string | AfterValue json

type_synonym jstate = "jframe list \<times> jmode"

definition json_depth :: nat where
  "json_depth = 10000"

fun open_value :: "jframe list \<Rightarrow> jtoken \<Rightarrow> jstate option" where
  "open_value fs (Scalar v) = Some (fs, AfterValue v)"
| "open_value fs OpenArr = (if json_depth \<le> length fs then None else Some (InArr [] # fs, WantValueOrClose))"
| "open_value fs OpenObj = (if json_depth \<le> length fs then None else Some (InObj [] [] # fs, WantKey [] True))"
| "open_value fs _ = None"

fun jstep :: "jstate \<Rightarrow> jtoken \<Rightarrow> jstate option" where
  "jstep (fs, WantValue) t = open_value fs t"
| "jstep (InArr vs # fs, WantValueOrClose) CloseArr = Some (fs, AfterValue (JArr (rev vs)))"
| "jstep (fs, WantValueOrClose) t = open_value fs t"
| "jstep (InObj _ _ # fs, WantKey ms may_close) CloseObj =
     (if may_close then Some (fs, AfterValue (JObj (rev ms))) else None)"
| "jstep (fs, WantKey ms _) (Scalar (JStr k)) = Some (fs, WantColon ms k)"
| "jstep (InObj _ _ # fs, WantColon ms k) Colon = Some (InObj ms k # fs, WantValue)"
| "jstep (InArr vs # fs, AfterValue v) Comma = Some (InArr (v # vs) # fs, WantValue)"
| "jstep (InArr vs # fs, AfterValue v) CloseArr = Some (fs, AfterValue (JArr (rev (v # vs))))"
| "jstep (InObj ms k # fs, AfterValue v) Comma = Some (InObj [] [] # fs, WantKey ((k, v) # ms) False)"
| "jstep (InObj ms k # fs, AfterValue v) CloseObj = Some (fs, AfterValue (JObj (rev ((k, v) # ms))))"
| "jstep _ _ = None"

fun jrun :: "jstate \<Rightarrow> jtoken list \<Rightarrow> jstate option" where
  "jrun st [] = Some st"
| "jrun st (t # ts) = (case jstep st t of None \<Rightarrow> None | Some st' \<Rightarrow> jrun st' ts)"

definition json_parse :: "string \<Rightarrow> json option" where
  "json_parse s =
     (case tokens s of
        None \<Rightarrow> None
      | Some ts \<Rightarrow>
          (case jrun ([], WantValue) ts of
             Some ([], AfterValue v) \<Rightarrow> Some v
           | _ \<Rightarrow> None))"

section \<open>Numbers\<close>

text \<open>
  The sign, the digits of the mantissa as an integer, and the power of ten of a number literal;
  the exponent is cut off at five digits as in strconv.ParseFloat.
\<close>

fun digits_int :: "string \<Rightarrow> int \<Rightarrow> int" where
  "digits_int [] n = n"
| "digits_int (c # cs) n = digits_int cs (10 * n + digit_value c)"

fun exponent_loop :: "string \<Rightarrow> int \<Rightarrow> int" where
  "exponent_loop [] e = e"
| "exponent_loop (c # cs) e = exponent_loop cs (if e < 10000 then 10 * e + digit_value c else e)"

definition number_parts :: "string \<Rightarrow> bool \<times> int \<times> int" where
  "number_parts s =
     (let neg = (s \<noteq> [] \<and> hd s = CHR ''-'');
          t = (if neg then tl s else s);
          whole = takeWhile is_digit t;
          u = dropWhile is_digit t;
          frac = (if u \<noteq> [] \<and> hd u = CHR ''.'' then takeWhile is_digit (tl u) else []);
          v = (if u \<noteq> [] \<and> hd u = CHR ''.'' then dropWhile is_digit (tl u) else u);
          w = tl v;
          e = (if v = [] then 0
               else if hd w = CHR ''-'' then - exponent_loop (tl w) 0
               else exponent_loop (if hd w = CHR ''+'' then tl w else w) 0)
      in (neg, digits_int (whole @ frac) 0, e - int (length frac)))"

text \<open>
  The integer part of the number, truncated towards zero (the conversion of a float64 to int; the
  rounding of the decimal to the nearest float64 is not modelled).
\<close>

definition number_trunc :: "string \<Rightarrow> int" where
  "number_trunc s =
     (case number_parts s of (neg, m, e) \<Rightarrow>
        (let n = (if 0 \<le> e then m * 10 ^ nat e else m div 10 ^ nat (- e)) in if neg then - n else n))"

text \<open>A number that overflows float64 makes Unmarshal fail.\<close>

definition number_overflow :: "string \<Rightarrow> bool" where
  "number_overflow s =
     (case number_parts s of (neg, m, e) \<Rightarrow>
        (if 0 \<le> e then 2 ^ 1024 - 2 ^ 970 \<le> m * 10 ^ nat e
         else (2 ^ 1024 - 2 ^ 970) * 10 ^ nat (- e) \<le> m))"

fun json_overflow :: "json \<Rightarrow> bool" where
  "json_overflow (JNum s) = number_overflow s"
| "json_overflow (JArr vs) = list_ex json_overflow vs"
| "json_overflow (JObj ms) = list_ex (\<lambda>m. json_overflow (snd m)) ms"
| "json_overflow _ = False"

section \<open>Unmarshal\<close>

text \<open>Into a map from strings to interfaces: null leaves the nil map, a repeated key keeps the last value.\<close>

definition unmarshal_map :: "string \<Rightarrow> (string \<rightharpoonup> json) option" where
  "unmarshal_map data =
     (case json_parse data of
        Some (JObj ms) \<Rightarrow> if json_overflow (JObj ms) then None else Some (map_of (rev ms))
      | Some JNull \<Rightarrow> Some Map.empty
      | _ \<Rightarrow> None)"

text \<open>
  Into a struct of string fields: a member goes to the field of its name, compared without case
  (and with the long s of Unicode folded); null leaves the field, any other value that is not
  a string is an error.
\<close>

definition json_fold :: "string \<Rightarrow> string" where
  "json_fold k = map ascii_lower (strings_ReplaceAll (strings_ReplaceAll k [CHR 0xC5, CHR 0xBF] ''s'')
     [CHR 0xE2, CHR 0x84, CHR 0xAA] ''k'')"

fun string_field :: "string \<Rightarrow> (string \<times> json) list \<Rightarrow> string \<Rightarrow> string option" where
  "string_field name [] v = Some v"
| "string_field name ((k, x) # ms) v =
     (if json_fold k = name
      then (case x of
              JStr s \<Rightarrow> string_field name ms s
            | JNull \<Rightarrow> string_field name ms v
            | _ \<Rightarrow> None)
      else string_field name ms v)"

definition unmarshal_fields :: "string \<Rightarrow> string \<Rightarrow> string \<Rightarrow> (string \<times> string) option" where
  "unmarshal_fields data f g =
     (case json_parse data of
        Some (JObj ms) \<Rightarrow>
          (case (string_field f ms [], string_field g ms []) of
             (Some x, Some y) \<Rightarrow> Some (x, y)
           | _ \<Rightarrow> None)
      | Some JNull \<Rightarrow> Some ([], [])
      | _ \<Rightarrow> None)"

end
