(* ===== verification/Parser.thy ===== *)
theory Parser
  imports GoUrl GoJson
begin

text \<open>
  Subscription parsing (parser.go): a subscription is a list of share links, possibly base64
  encoded as a whole; each line becomes a ProxyConfig or is dropped. A \<open>*ProxyConfig\<close> is never
  mutated once it has been returned, so pointers are values and nil is None. The argument
  \<open>ul\<close> is the Unicode part of strings.ToLower. An index out of range panics, and nothing recovers
  it: the functions that may panic return a value under one more option, whose None is the panic.
\<close>

section \<open>Configurations\<close>

record ProxyConfig =
  pc_Protocol :: string
  pc_Server :: string
  pc_Port :: int
  pc_Name :: string
  pc_Raw :: string

definition IsXraySupported :: "ProxyConfig option \<Rightarrow> bool" where
  "IsXraySupported cfg =
     (case cfg of
        None \<Rightarrow> False
      | Some c \<Rightarrow> pc_Protocol c \<notin> {''hysteria2'', ''tuic'', ''wireguard''})"

text \<open>\<open>&ProxyConfig{Server: host, Port: port}\<close>\<close>

definition endpoint_config :: "string \<Rightarrow> int \<Rightarrow> string \<Rightarrow> ProxyConfig" where
  "endpoint_config server port name =
     \<lparr>pc_Protocol = [], pc_Server = server, pc_Port = port, pc_Name = name, pc_Raw = []\<rparr>"

section \<open>Helpers\<close>

definition extractFragment :: "string \<Rightarrow> string \<times> string" where
  "extractFragment raw = (case strings_Cut raw ''#'' of (front, after, _) \<Rightarrow> (front, after))"

definition extractProtocol :: "(string \<Rightarrow> string) \<Rightarrow> string \<Rightarrow> string" where
  "extractProtocol ul raw =
     (case strings_Cut raw ''://'' of (proto, _, found) \<Rightarrow>
        if \<not> found then [] else strings_ToLower ul proto)"

definition addBase64Padding :: "string \<Rightarrow> string" where
  "addBase64Padding s =
     (if length s mod 4 = 2 then s @ ''=='' else if length s mod 4 = 3 then s @ ''='' else s)"

definition first_decoding :: "string \<Rightarrow> string option" where
  "first_decoding s =
     (case b64_DecodeString StdEncoding s of
        Some d \<Rightarrow> Some d
      | None \<Rightarrow> b64_DecodeString URLEncoding s)"

definition base64Decode :: "string \<Rightarrow> string option" where
  "base64Decode s =
     (case first_decoding s of Some d \<Rightarrow> Some d | None \<Rightarrow> first_decoding (addBase64Padding s))"

text \<open>The first byte is read after the query has been cut off, when nothing may be left.\<close>

definition splitHostPort :: "string \<Rightarrow> (string \<times> string) option" where
  "splitHostPort s0 =
     (if s0 = [] then Some ([], [])
      else
        let s = (case strings_IndexByte s0 (CHR ''?'') of None \<Rightarrow> s0 | Some q \<Rightarrow> take q s0)
        in if s = [] then None
           else if hd s = CHR ''['' then
             (case strings_IndexByte s (CHR '']'') of
                None \<Rightarrow> Some ([], [])
              | Some e \<Rightarrow>
                  (if e + 1 < length s \<and> s ! (e + 1) = CHR '':'' then Some (take (e - 1) (drop 1 s), drop (e + 2) s)
                   else Some (take (e - 1) (drop 1 s), [])))
           else (case strings_Cut s '':'' of (host, port, _) \<Rightarrow> Some (host, port)))"

definition defaultPort :: "string \<Rightarrow> int \<Rightarrow> int" where
  "defaultPort portStr def =
     (if portStr = [] then def
      else (case strconv_Atoi portStr of (p, err) \<Rightarrow>
              if err \<noteq> None \<or> p < 1 \<or> p > 65535 then def else p))"

section \<open>One parser per protocol\<close>

text \<open>The checks of host and port that parseShadowsocks has twice, and parseVLess and parseTrojan each once.\<close>

definition checked_endpoint :: "string \<times> string \<Rightarrow> ProxyConfig option" where
  "checked_endpoint hp =
     (case hp of (host, portStr) \<Rightarrow>
        if host = [] \<or> portStr = [] then None
        else (case strconv_Atoi portStr of (port, err) \<Rightarrow>
                if err \<noteq> None \<or> port < 1 \<or> port > 65535 then None
                else Some (endpoint_config host port [])))"

definition parseShadowsocks :: "string \<Rightarrow> ProxyConfig option option" where
  "parseShadowsocks raw =
     (let rest = drop 5 raw
      in case strings_Cut rest ''@'' of (userinfoB64, hostPart, found) \<Rightarrow>
           if found then
             (case base64Decode userinfoB64 of
                None \<Rightarrow> Some None
              | Some _ \<Rightarrow> map_option checked_endpoint (splitHostPort hostPart))
           else
             (case base64Decode rest of
                None \<Rightarrow> Some None
              | Some decoded \<Rightarrow>
                  (case strings_Cut decoded ''@'' of (_, hostPart, found) \<Rightarrow>
                     if \<not> found then Some None else map_option checked_endpoint (splitHostPort hostPart))))"

definition json_string :: "json option \<Rightarrow> string" where
  "json_string v = (case v of Some (JStr s) \<Rightarrow> s | _ \<Rightarrow> [])"

definition parseVMess :: "string \<Rightarrow> ProxyConfig option" where
  "parseVMess raw =
     (case base64Decode (drop 8 raw) of
        None \<Rightarrow> None
      | Some data \<Rightarrow>
          (case unmarshal_map data of
             None \<Rightarrow> None
           | Some v \<Rightarrow>
               let server0 = json_string (v ''add'');
                   server = (if server0 = [] then json_string (v ''address'') else server0);
                   port = (case v ''port'' of
                             Some (JNum p) \<Rightarrow> number_trunc p
                           | Some (JStr p) \<Rightarrow> fst (strconv_Atoi p)
                           | _ \<Rightarrow> 0)
               in if server = [] then None
                  else if port < 1 \<or> port > 65535 then None
                  else Some (endpoint_config server port (json_string (v ''ps'')))))"

definition parseVLess :: "string \<Rightarrow> ProxyConfig option" where
  "parseVLess raw =
     (case url_Parse raw of
        None \<Rightarrow> None
      | Some u \<Rightarrow> checked_endpoint (url_Hostname u, url_Port u))"

definition parseTrojan :: "string \<Rightarrow> ProxyConfig option" where
  "parseTrojan raw =
     (case url_Parse raw of
        None \<Rightarrow> None
      | Some u \<Rightarrow> checked_endpoint (url_Hostname u, url_Port u))"

text \<open>The body that parseHysteria2, parseTUIC, parseSocks and the URL form of parseWireGuard share.\<close>

definition url_endpoint :: "int \<Rightarrow> string \<Rightarrow> ProxyConfig option" where
  "url_endpoint def raw =
     (case url_Parse raw of
        None \<Rightarrow> None
      | Some u \<Rightarrow>
          let host = url_Hostname u; port = defaultPort (url_Port u) def
          in if host = [] then None
             else if port < 1 \<or> port > 65535 then None
             else Some (endpoint_config host port []))"

definition parseHysteria2 :: "string \<Rightarrow> ProxyConfig option" where
  "parseHysteria2 raw = url_endpoint 443 raw"

definition parseTUIC :: "string \<Rightarrow> ProxyConfig option" where
  "parseTUIC raw = url_endpoint 443 raw"

definition parseWireGuard :: "string \<Rightarrow> ProxyConfig option option" where
  "parseWireGuard raw =
     (let rest = drop 12 raw
      in if strings_Contains rest ''@'' then Some (url_endpoint 51820 raw)
         else
           (case base64Decode rest of
              None \<Rightarrow> Some None
            | Some data \<Rightarrow>
                (case unmarshal_fields data ''endpoint'' ''server'' of
                   None \<Rightarrow> Some None
                 | Some (wgEndpoint, wgServer) \<Rightarrow>
                     let ep = (if wgEndpoint = [] then wgServer else wgEndpoint)
                     in if ep = [] then Some None
                        else map_option
                          (\<lambda>(host, portStr).
                             if host = [] then None
                             else Some (endpoint_config host (defaultPort portStr 51820) []))
                          (splitHostPort ep))))"

definition parseSocks :: "string \<Rightarrow> ProxyConfig option" where
  "parseSocks raw = url_endpoint 1080 raw"

section \<open>Lines and subscriptions\<close>

definition parse_protocol :: "string \<Rightarrow> string \<Rightarrow> ProxyConfig option option" where
  "parse_protocol proto front =
     (if proto = ''ss'' then parseShadowsocks front
      else if proto = ''vmess'' then Some (parseVMess front)
      else if proto = ''vless'' then Some (parseVLess front)
      else if proto = ''trojan'' then Some (parseTrojan front)
      else if proto = ''hysteria2'' \<or> proto = ''hy2'' then Some (parseHysteria2 front)
      else if proto = ''tuic'' then Some (parseTUIC front)
      else if proto = ''wireguard'' then parseWireGuard front
      else if proto = ''socks5'' \<or> proto = ''socks4'' \<or> proto = ''socks'' then Some (parseSocks front)
      else Some None)"

definition canonical_protocol :: "string \<Rightarrow> string" where
  "canonical_protocol proto =
     (if proto = ''hy2'' then ''hysteria2''
      else if proto = ''socks'' \<or> proto = ''socks4'' then ''socks5'' else proto)"

definition finish_config :: "string \<Rightarrow> string \<Rightarrow> string \<Rightarrow> ProxyConfig \<Rightarrow> ProxyConfig" where
  "finish_config raw proto fragment cfg =
     cfg\<lparr>pc_Raw := raw,
         pc_Name := (if pc_Name cfg = []
                     then (case url_QueryUnescape fragment of None \<Rightarrow> [] | Some n \<Rightarrow> n) else pc_Name cfg),
         pc_Protocol := canonical_protocol proto\<rparr>"

definition ParseSingle :: "(string \<Rightarrow> string) \<Rightarrow> string \<Rightarrow> ProxyConfig option option" where
  "ParseSingle ul raw0 =
     (let raw = strings_TrimSpace raw0
      in if raw = [] then Some None
         else
           (case extractFragment raw of (front, fragment) \<Rightarrow>
              let proto = extractProtocol ul front
              in if proto = [] then Some None
                 else map_option (map_option (finish_config raw proto fragment)) (parse_protocol proto front)))"

definition decodeLines :: "string \<Rightarrow> string list" where
  "decodeLines body =
     strings_Split
       (strings_ReplaceAll (case base64Decode body of Some decoded \<Rightarrow> decoded | None \<Rightarrow> body)
          [CHR 0x0D, CHR 0x0A] [CHR 0x0A])
       (CHR 0x0A)"

definition parse_line :: "(string \<Rightarrow> string) \<Rightarrow> string \<Rightarrow> ProxyConfig option option" where
  "parse_line ul line0 =
     (let line = strings_TrimSpace line0
      in if line = [] \<or> strings_HasPrefix line ''#'' then Some None else ParseSingle ul line)"

fun parse_lines :: "(string \<Rightarrow> string) \<Rightarrow> string list \<Rightarrow> ProxyConfig list option" where
  "parse_lines ul [] = Some []"
| "parse_lines ul (line # lines) =
     (case parse_line ul line of
        None \<Rightarrow> None
      | Some c \<Rightarrow>
          map_option (\<lambda>cs. case c of None \<Rightarrow> cs | Some cfg \<Rightarrow> cfg # cs) (parse_lines ul lines))"

definition ParseConfigs :: "(string \<Rightarrow> string) \<Rightarrow> string \<Rightarrow> ProxyConfig list option" where
  "ParseConfigs ul body0 =
     (let body = strings_TrimSpace body0
      in if body = [] then Some [] else parse_lines ul (decodeLines body))"

end
