(* ===== verification/Metrics.thy ===== *)
theory Metrics
  imports GoLib "HOL-Library.AList" "HOL-Library.List_Lexorder" "HOL-Library.Char_ord"
begin

text \<open>
  The hand-written Prometheus collector (metrics.go): metrics with labelled series,
  counters, gauges and cumulative histograms, the registry and the text rendering. The
  series of a metric are an association list with distinct keys, for Go's map. Float
  values are real numbers; their shortest decimal rendering (strconv.FormatFloat with
  verb g) is the argument \<open>fmt\<close>. A panic is None.
\<close>

section \<open>Metrics and series\<close>

definition histogramBuckets :: "real list" where
  "histogramBuckets = [0.05, 0.1, 0.25, 0.5, 1, 2, 4, 8, 16]"

datatype metricKind = kindGauge | kindCounter | kindHistogram

fun metricKind_String :: "metricKind \<Rightarrow> string" where
  "metricKind_String kindGauge = ''gauge''"
| "metricKind_String kindCounter = ''counter''"
| "metricKind_String kindHistogram = ''histogram''"

record seriesState =
  se_labels :: "string list"
  se_value :: real
  se_count :: nat
  se_sum :: real
  se_buckets :: "nat list"

record Metric =
  m_Name :: string
  m_Help :: string
  m_Kind :: metricKind
  m_Labels :: "string list"
  m_series :: "(string \<times> seriesState) list"

definition newMetric ::
    "metricKind \<Rightarrow> string \<Rightarrow> string \<Rightarrow> string list \<Rightarrow> Metric option" where
  "newMetric kind name help labels =
     (if name = [] then None
      else Some \<lparr>m_Name = name, m_Help = help, m_Kind = kind, m_Labels = labels, m_series = []\<rparr>)"

definition NewGauge :: "string \<Rightarrow> string \<Rightarrow> string list \<Rightarrow> Metric option" where
  "NewGauge name help labels = newMetric kindGauge name help labels"

definition NewCounter :: "string \<Rightarrow> string \<Rightarrow> string list \<Rightarrow> Metric option" where
  "NewCounter name help labels = newMetric kindCounter name help labels"

definition NewHistogram :: "string \<Rightarrow> string \<Rightarrow> string list \<Rightarrow> Metric option" where
  "NewHistogram name help labels = newMetric kindHistogram name help labels"

definition series_key :: "string list \<Rightarrow> string" where
  "series_key labelValues = strings_Join labelValues [CHR 0x00]"

definition new_series :: "string list \<Rightarrow> seriesState" where
  "new_series labelValues =
     \<lparr>se_labels = labelValues, se_value = 0, se_count = 0, se_sum = 0,
      se_buckets = replicate (length histogramBuckets) 0\<rparr>"

text \<open>stateFor returns the metric with the series created if it was missing, and the series.\<close>

definition stateFor :: "Metric \<Rightarrow> string list \<Rightarrow> (Metric \<times> seriesState) option" where
  "stateFor m labelValues =
     (if length labelValues \<noteq> length (m_Labels m) then None
      else let key = series_key labelValues
           in case map_of (m_series m) key of
                Some s \<Rightarrow> Some (m, s)
              | None \<Rightarrow>
                  Some (m\<lparr>m_series := AList.update key (new_series labelValues) (m_series m)\<rparr>,
                        new_series labelValues))"

definition put_series :: "Metric \<Rightarrow> string list \<Rightarrow> seriesState \<Rightarrow> Metric" where
  "put_series m labelValues s =
     m\<lparr>m_series := AList.update (series_key labelValues) s (m_series m)\<rparr>"

definition Metric_Set :: "real \<Rightarrow> string list \<Rightarrow> Metric \<Rightarrow> Metric option" where
  "Metric_Set v labelValues m =
     (case stateFor m labelValues of
        None \<Rightarrow> None
      | Some (m', s) \<Rightarrow> Some (put_series m' labelValues (s\<lparr>se_value := v\<rparr>)))"

definition Metric_Add :: "real \<Rightarrow> string list \<Rightarrow> Metric \<Rightarrow> Metric option" where
  "Metric_Add delta labelValues m =
     (case stateFor m labelValues of
        None \<Rightarrow> None
      | Some (m', s) \<Rightarrow> Some (put_series m' labelValues (s\<lparr>se_value := se_value s + delta\<rparr>)))"

definition Metric_Inc :: "string list \<Rightarrow> Metric \<Rightarrow> Metric option" where
  "Metric_Inc labelValues m = Metric_Add 1 labelValues m"

definition bump_buckets :: "real \<Rightarrow> nat list \<Rightarrow> nat list" where
  "bump_buckets v bs = map2 (\<lambda>b n. if v \<le> b then n + 1 else n) histogramBuckets bs"

definition observe_series :: "real \<Rightarrow> seriesState \<Rightarrow> seriesState" where
  "observe_series v s =
     s\<lparr>se_count := se_count s + 1, se_sum := se_sum s + v, se_buckets := bump_buckets v (se_buckets s)\<rparr>"

definition Metric_Observe :: "real \<Rightarrow> string list \<Rightarrow> Metric \<Rightarrow> Metric option" where
  "Metric_Observe v labelValues m =
     (case stateFor m labelValues of
        None \<Rightarrow> None
      | Some (m', s) \<Rightarrow> Some (put_series m' labelValues (observe_series v s)))"

definition Metric_Value :: "string list \<Rightarrow> Metric \<Rightarrow> real" where
  "Metric_Value labelValues m =
     (case map_of (m_series m) (series_key labelValues) of
        None \<Rightarrow> 0
      | Some s \<Rightarrow> if m_Kind m = kindHistogram then real (se_count s) else se_value s)"

section \<open>Rendering\<close>

definition escapeLabelValue :: "string \<Rightarrow> string" where
  "escapeLabelValue s =
     strings_ReplaceAll
       (strings_ReplaceAll
         (strings_ReplaceAll s [CHR 0x5C] [CHR 0x5C, CHR 0x5C])
         [CHR 0x22] [CHR 0x5C, CHR 0x22])
       [CHR 0x0A] [CHR 0x5C, CHR ''n'']"

definition label_pair :: "string \<Rightarrow> string \<Rightarrow> string" where
  "label_pair name v = name @ [CHR ''='', CHR 0x22] @ v @ [CHR 0x22]"

definition labelString :: "Metric \<Rightarrow> string list \<Rightarrow> string \<Rightarrow> string \<Rightarrow> string" where
  "labelString m labels extraName extraValue =
     (if labels = [] \<and> extraName = [] then []
      else [CHR 0x7B]
        @ strings_Join (map2 (\<lambda>name v. label_pair name (escapeLabelValue v)) (m_Labels m) labels) '',''
        @ (if extraName \<noteq> []
           then (if labels \<noteq> [] then '','' else []) @ label_pair extraName extraValue
           else [])
        @ [CHR 0x7D])"

definition series_lines :: "(real \<Rightarrow> string) \<Rightarrow> Metric \<Rightarrow> seriesState \<Rightarrow> string list" where
  "series_lines fmt m s =
     (if m_Kind m = kindHistogram then
        map2 (\<lambda>b n. m_Name m @ ''_bucket'' @ labelString m (se_labels s) ''le'' (fmt b) @ '' '' @ nat_digits n)
          histogramBuckets (se_buckets s)
        @ [m_Name m @ ''_bucket'' @ labelString m (se_labels s) ''le'' ''+Inf'' @ '' '' @ nat_digits (se_count s),
           m_Name m @ ''_sum'' @ labelString m (se_labels s) [] [] @ '' '' @ fmt (se_sum s),
           m_Name m @ ''_count'' @ labelString m (se_labels s) [] [] @ '' '' @ nat_digits (se_count s)]
      else [m_Name m @ labelString m (se_labels s) [] [] @ '' '' @ fmt (se_value s)])"

text \<open>writeTo sorts the series by their joined labels, which are the keys of the map.\<close>

definition writeTo :: "(real \<Rightarrow> string) \<Rightarrow> Metric \<Rightarrow> string list" where
  "writeTo fmt m =
     [''# HELP '' @ m_Name m @ '' '' @ m_Help m,
      ''# TYPE '' @ m_Name m @ '' '' @ metricKind_String (m_Kind m)]
     @ concat (map (series_lines fmt m)
                 (sort_key (\<lambda>s. series_key (se_labels s)) (map snd (m_series m))))"

definition Registry_Write :: "(real \<Rightarrow> string) \<Rightarrow> Metric list \<Rightarrow> string list" where
  "Registry_Write fmt ms = concat (map (writeTo fmt) ms)"

section \<open>Properties\<close>

definition escape_byte :: "char \<Rightarrow> string" where
  "escape_byte x =
     (if x = CHR 0x5C then [CHR 0x5C, CHR 0x5C]
      else if x = CHR 0x22 then [CHR 0x5C, CHR 0x22]
      else if x = CHR 0x0A then [CHR 0x5C, CHR ''n''] else [x])"

lemma escapeLabelValue_bytewise: "escapeLabelValue s = concat (map escape_byte s)"
  unfolding escapeLabelValue_def ReplaceAll_byte
  by (induction s) (simp_all add: escape_byte_def)

text \<open>Reading an escaped label value back, as the exposition format prescribes.\<close>

fun unescape :: "string \<Rightarrow> string" where
  "unescape [] = []"
| "unescape [x] = [x]"
| "unescape (x # y # r) =
     (if x = CHR 0x5C then (if y = CHR ''n'' then CHR 0x0A else y) # unescape r
      else x # unescape (y # r))"

lemma unescape_escape_byte: "unescape (escape_byte x @ r) = x # unescape r"
  by (cases r) (auto simp: escape_byte_def)

text \<open>Label values survive the exposition format: a reader that undoes the backslash
  escapes gets the original value back, for every value, and the escaped text never contains a
  raw newline that would break the line format.\<close>

theorem escapeLabelValue_roundtrip:
  "unescape (escapeLabelValue s) = s \<and> CHR 0x0A \<notin> set (escapeLabelValue s)"
proof
  show "unescape (escapeLabelValue s) = s"
    unfolding escapeLabelValue_bytewise
    by (induction s) (simp_all add: unescape_escape_byte)
  show "CHR 0x0A \<notin> set (escapeLabelValue s)"
    by (auto simp: escapeLabelValue_bytewise escape_byte_def)
qed

definition series_ok :: "seriesState \<Rightarrow> bool" where
  "series_ok s \<longleftrightarrow> length (se_buckets s) = length histogramBuckets \<and> sorted (se_buckets s) \<and>
     (\<forall>n \<in> set (se_buckets s). n \<le> se_count s)"

definition metric_ok :: "Metric \<Rightarrow> bool" where
  "metric_ok m \<longleftrightarrow> distinct (map fst (m_series m)) \<and>
     (\<forall>(k, s) \<in> set (m_series m). k = series_key (se_labels s) \<and>
        length (se_labels s) = length (m_Labels m) \<and> series_ok s)"

lemma buckets_nth:
  "length bs = length histogramBuckets \<Longrightarrow> i < length histogramBuckets \<Longrightarrow>
     bump_buckets v bs ! i = bs ! i + (if v \<le> histogramBuckets ! i then 1 else 0)"
  by (simp add: bump_buckets_def)

lemma length_bump_buckets [simp]:
  "length bs = length histogramBuckets \<Longrightarrow> length (bump_buckets v bs) = length histogramBuckets"
  by (simp add: bump_buckets_def)

lemma sorted_edges: "sorted histogramBuckets"
  by (simp add: histogramBuckets_def)

lemma series_ok_observe: "series_ok s \<Longrightarrow> series_ok (observe_series v s)"
proof -
  assume ok: "series_ok s"
  let ?bs = "se_buckets s" and ?cs = "bump_buckets v (se_buckets s)"
  from ok have len: "length ?bs = length histogramBuckets" by (simp add: series_ok_def)
  have "sorted ?cs"
  proof (rule sorted_iff_nth_mono [THEN iffD2], intro allI impI)
    fix i j assume "i \<le> j" "j < length ?cs"
    then have "i < length histogramBuckets" "j < length histogramBuckets" using len by simp_all
    moreover have "?bs ! i \<le> ?bs ! j"
      using ok \<open>i \<le> j\<close> calculation len by (simp add: series_ok_def sorted_nth_mono)
    moreover have "histogramBuckets ! i \<le> histogramBuckets ! j"
      using sorted_edges \<open>i \<le> j\<close> calculation by (simp add: sorted_nth_mono)
    ultimately show "?cs ! i \<le> ?cs ! j" using len by (auto simp: buckets_nth)
  qed
  moreover have "n \<le> se_count s + 1" if "n \<in> set ?cs" for n
  proof -
    from that obtain i where "i < length ?cs" "n = ?cs ! i" by (auto simp: in_set_conv_nth)
    moreover from this ok len have "?bs ! i \<le> se_count s" by (auto simp: series_ok_def)
    ultimately show ?thesis using len by (auto simp: buckets_nth)
  qed
  ultimately show ?thesis by (simp add: series_ok_def observe_series_def len)
qed

lemma series_ok_new: "series_ok (new_series ls)"
  by (auto simp: series_ok_def new_series_def sorted_replicate)

text \<open>C40. A histogram series is exactly the Prometheus cumulative histogram of what was
  observed: after any sequence of observations the count is their number, the sum their sum,
  and every bucket holds the number of observations not above its edge.\<close>

theorem histogram_counts:
  "fold observe_series vs (new_series ls) =
     \<lparr>se_labels = ls, se_value = 0, se_count = length vs, se_sum = sum_list vs,
      se_buckets = map (\<lambda>b. length (filter (\<lambda>v. v \<le> b) vs)) histogramBuckets\<rparr>"
proof (induction vs rule: rev_induct)
  case Nil
  show ?case by (simp add: new_series_def map_replicate_const)
next
  case (snoc v vs)
  have "bump_buckets v (map (\<lambda>b. length (filter (\<lambda>v. v \<le> b) vs)) histogramBuckets) =
        map (\<lambda>b. length (filter (\<lambda>v. v \<le> b) (vs @ [v]))) histogramBuckets"
    by (rule nth_equalityI) (simp_all add: buckets_nth)
  with snoc show ?case by (simp add: observe_series_def)
qed

lemma set_AList_update: "set (AList.update k v al) \<subseteq> insert (k, v) (set al)"
  by (induction al) auto

lemma metric_ok_update:
  assumes "metric_ok m" and "length (se_labels s) = length (m_Labels m)" and "series_ok s"
    and "k = series_key (se_labels s)"
  shows "metric_ok (m\<lparr>m_series := AList.update k s (m_series m)\<rparr>)"
  using assms set_AList_update [of k s "m_series m"]
  by (fastforce simp: metric_ok_def distinct_update)

lemma stateFor_ok:
  assumes "metric_ok m" and "stateFor m ls = Some (m', s)"
  shows "metric_ok m' \<and> length (se_labels s) = length (m_Labels m') \<and>
         series_ok s \<and> series_key ls = series_key (se_labels s)"
proof (cases "map_of (m_series m) (series_key ls)")
  case None
  with assms have "m' = m\<lparr>m_series := AList.update (series_key ls) (new_series ls) (m_series m)\<rparr>"
      "s = new_series ls" "length ls = length (m_Labels m)"
    by (auto simp: stateFor_def split: if_splits)
  moreover have "se_labels (new_series ls) = ls" by (simp add: new_series_def)
  moreover have "metric_ok m'"
    using assms(1) calculation by (auto intro: metric_ok_update simp: series_ok_new)
  ultimately show ?thesis by (simp add: series_ok_new)
next
  case (Some t)
  with assms(2) have "m' = m" "s = t" "length ls = length (m_Labels m)"
    by (auto simp: stateFor_def split: if_splits)
  moreover have "(series_key ls, t) \<in> set (m_series m)" using Some by (rule map_of_SomeD)
  ultimately show ?thesis using assms(1) by (auto simp: metric_ok_def)
qed

lemma metric_ok_new: "newMetric k n h ls = Some m \<Longrightarrow> metric_ok m"
  by (auto simp: newMetric_def metric_ok_def split: if_splits)

lemma stateFor_SomeD:
  assumes "stateFor m ls = Some (m', s)"
  shows "length ls = length (m_Labels m)" and "m_Labels m' = m_Labels m" and "m_Kind m' = m_Kind m"
    and "map_of (m_series m') (series_key ls) = Some s"
    and "k \<noteq> series_key ls \<Longrightarrow> map_of (m_series m') k = map_of (m_series m) k"
    and "map_of (m_series m) (series_key ls) = None \<Longrightarrow> s = new_series ls"
    and "map_of (m_series m) (series_key ls) = Some t \<Longrightarrow> s = t"
  using assms
  by (auto simp: stateFor_def Let_def update_conv' split: if_splits option.splits)

lemma metric_ok_put:
  assumes "metric_ok m" and "stateFor m ls = Some (m', s)" and "series_ok s'"
    and "se_labels s' = se_labels s"
  shows "metric_ok (put_series m' ls s')"
proof -
  from stateFor_ok [OF assms(1,2)] have
    "metric_ok m'" "length (se_labels s) = length (m_Labels m')" "series_key ls = series_key (se_labels s)"
    by blast+
  with assms(3,4) show ?thesis
    unfolding put_series_def by (intro metric_ok_update) simp_all
qed

lemma se_labels_observe [simp]: "se_labels (observe_series v s) = se_labels s"
  by (simp add: observe_series_def)

lemma series_ok_value: "series_ok s \<Longrightarrow> series_ok (s\<lparr>se_value := v\<rparr>)"
  by (simp add: series_ok_def)

lemma metric_ok_Set: "metric_ok m \<Longrightarrow> Metric_Set v ls m = Some m' \<Longrightarrow> metric_ok m'"
  by (auto simp: Metric_Set_def split: option.splits
      intro!: metric_ok_put series_ok_value dest: stateFor_ok)

lemma metric_ok_Add: "metric_ok m \<Longrightarrow> Metric_Add v ls m = Some m' \<Longrightarrow> metric_ok m'"
  by (auto simp: Metric_Add_def split: option.splits
      intro!: metric_ok_put series_ok_value dest: stateFor_ok)

lemma metric_ok_Observe: "metric_ok m \<Longrightarrow> Metric_Observe v ls m = Some m' \<Longrightarrow> metric_ok m'"
  by (auto simp: Metric_Observe_def split: option.splits
      intro!: metric_ok_put series_ok_observe dest: stateFor_ok)

datatype metric_op = OpSet real "string list" | OpAdd real "string list" | OpObserve real "string list"

fun apply_metric_op :: "metric_op \<Rightarrow> Metric \<Rightarrow> Metric option" where
  "apply_metric_op (OpSet v ls) m = Metric_Set v ls m"
| "apply_metric_op (OpAdd v ls) m = Metric_Add v ls m"
| "apply_metric_op (OpObserve v ls) m = Metric_Observe v ls m"

fun apply_metric_ops :: "metric_op list \<Rightarrow> Metric \<Rightarrow> Metric option" where
  "apply_metric_ops [] m = Some m"
| "apply_metric_ops (x # xs) m =
     (case apply_metric_op x m of None \<Rightarrow> None | Some m' \<Rightarrow> apply_metric_ops xs m')"

text \<open>Invariant of a metric under every sequence of Set, Add and Observe that does not
  panic: the series keys stay distinct and equal to the joined labels, every series has the
  metric's number of labels, and its buckets are cumulative (non-decreasing and never above
  the count).\<close>

theorem metric_ops_invariant:
  assumes "newMetric k n h ls = Some m" and "apply_metric_ops xs m = Some m'"
  shows "metric_ok m'"
proof -
  have "metric_ok m \<Longrightarrow> apply_metric_ops xs m = Some m' \<Longrightarrow> metric_ok m'" for m
  proof (induction xs arbitrary: m)
    case (Cons x xs)
    then obtain m1 where "apply_metric_op x m = Some m1" "apply_metric_ops xs m1 = Some m'"
      by (auto split: option.splits)
    moreover from this(1) Cons.prems(1) have "metric_ok m1"
      by (cases x) (auto intro: metric_ok_Set metric_ok_Add metric_ok_Observe)
    ultimately show ?case using Cons.IH by blast
  qed simp
  with metric_ok_new [OF assms(1)] assms(2) show ?thesis by blast
qed

lemma metric_ops_invariant_witness:
  "\<exists>m'. apply_metric_ops [OpObserve 0.3 [''a''], OpSet 2 [''b'']]
          \<lparr>m_Name = ''h'', m_Help = [], m_Kind = kindHistogram, m_Labels = [''x''], m_series = []\<rparr> = Some m' \<and>
        metric_ok m'"
proof -
  let ?m = "\<lparr>m_Name = ''h'', m_Help = [], m_Kind = kindHistogram, m_Labels = [''x''], m_series = []\<rparr>"
  have new: "newMetric kindHistogram ''h'' [] [''x''] = Some ?m" by (simp add: newMetric_def)
  obtain m' where m': "apply_metric_ops [OpObserve 0.3 [''a''], OpSet 2 [''b'']] ?m = Some m'"
    by (simp add: Metric_Observe_def Metric_Set_def stateFor_def put_series_def series_key_def Let_def)
  from metric_ops_invariant [OF new m'] m' show ?thesis by blast
qed

lemma Metric_Value_put:
  "Metric_Value ls' (put_series m ls s) =
     (if series_key ls' = series_key ls
      then if m_Kind m = kindHistogram then real (se_count s) else se_value s
      else Metric_Value ls' m)"
  by (auto simp: Metric_Value_def put_series_def update_conv' split: option.split)

lemma Metric_Value_stateFor:
  assumes "stateFor m ls = Some (m', s)"
  shows "Metric_Value ls' m' = Metric_Value ls' m"
proof (cases "series_key ls' = series_key ls")
  case True
  with stateFor_SomeD [OF assms] show ?thesis
    by (cases "map_of (m_series m) (series_key ls)")
      (simp_all add: Metric_Value_def new_series_def)
next
  case False
  with stateFor_SomeD(2,3) [OF assms] stateFor_SomeD(5) [OF assms False] show ?thesis
    by (simp add: Metric_Value_def split: option.split)
qed

lemma Metric_Value_Set:
  assumes "Metric_Set v ls m = Some m'" and "m_Kind m \<noteq> kindHistogram"
  shows "Metric_Value ls' m' = (if series_key ls' = series_key ls then v else Metric_Value ls' m)"
  using assms
  by (auto simp: Metric_Set_def Metric_Value_put Metric_Value_stateFor stateFor_SomeD(3)
      split: option.splits)

lemma Metric_Value_Add:
  assumes "Metric_Add v ls m = Some m'" and "m_Kind m \<noteq> kindHistogram"
  shows "Metric_Value ls' m' =
           (if series_key ls' = series_key ls then Metric_Value ls m + v else Metric_Value ls' m)"
proof -
  from assms(1) obtain m1 s where st: "stateFor m ls = Some (m1, s)"
    and m': "m' = put_series m1 ls (s\<lparr>se_value := se_value s + v\<rparr>)"
    by (auto simp: Metric_Add_def split: option.splits)
  have "Metric_Value ls m1 = se_value s"
    using stateFor_SomeD(3,4) [OF st] assms(2) by (simp add: Metric_Value_def)
  with Metric_Value_stateFor [OF st] st assms(2) show ?thesis
    by (simp add: m' Metric_Value_put stateFor_SomeD(3))
qed

lemma Metric_op_total:
  "length ls = length (m_Labels m) \<Longrightarrow> \<exists>m'. Metric_Set v ls m = Some m' \<and> m_Labels m' = m_Labels m \<and> m_Kind m' = m_Kind m"
  "length ls = length (m_Labels m) \<Longrightarrow> \<exists>m'. Metric_Add v ls m = Some m' \<and> m_Labels m' = m_Labels m \<and> m_Kind m' = m_Kind m"
  "length ls = length (m_Labels m) \<Longrightarrow> \<exists>m'. Metric_Observe v ls m = Some m' \<and> m_Labels m' = m_Labels m \<and> m_Kind m' = m_Kind m"
  by (auto simp: Metric_Set_def Metric_Add_def Metric_Observe_def stateFor_def put_series_def Let_def
      split: option.splits)

section \<open>The process-wide metrics\<close>

definition version :: string where
  "version = ''dev''"

record metrics =
  mx_WansActive :: Metric
  mx_WanSpeedMbps :: Metric
  mx_WanStability :: Metric
  mx_ProxyConnections :: Metric
  mx_ProxyBytes :: Metric
  mx_ProxyLatency :: Metric
  mx_TestDuration :: Metric
  mx_BuildInfo :: Metric

definition fresh_metric :: "metricKind \<Rightarrow> string \<Rightarrow> string \<Rightarrow> string list \<Rightarrow> Metric" where
  "fresh_metric kind name help labels =
     \<lparr>m_Name = name, m_Help = help, m_Kind = kind, m_Labels = labels, m_series = []\<rparr>"

lemma newMetric_fresh: "name \<noteq> [] \<Longrightarrow> newMetric k name h ls = Some (fresh_metric k name h ls)"
  by (simp add: newMetric_def fresh_metric_def)

definition init_metrics :: metrics where
  "init_metrics =
     \<lparr>mx_WansActive = fresh_metric kindGauge ''viberoxy_wans_active'' ''Number of active WAN slots.'' [],
      mx_WanSpeedMbps = fresh_metric kindGauge ''viberoxy_wan_speed_mbps''
        ''Last measured speed in Mbps per WAN slot.'' [''index''],
      mx_WanStability = fresh_metric kindGauge ''viberoxy_wan_stability''
        ''Stability score per WAN slot (distinct exit IPs minus 1; 0 = stable or unprobed).'' [''index''],
      mx_ProxyConnections = fresh_metric kindCounter ''viberoxy_proxy_connections_total''
        ''Total CONNECT attempts handled by the proxy.'' [''wan'', ''proto''],
      mx_ProxyBytes = fresh_metric kindCounter ''viberoxy_proxy_bytes_total''
        ''Bytes relayed through the proxy.'' [''wan'', ''direction''],
      mx_ProxyLatency = fresh_metric kindHistogram ''viberoxy_proxy_latency_seconds''
        ''Tunnel latency from CONNECT to close, in seconds.'' [],
      mx_TestDuration = fresh_metric kindHistogram ''viberoxy_test_duration_seconds''
        ''Duration of one speed test, in seconds.'' [],
      mx_BuildInfo =
        (case Metric_Set 1 [version]
                (fresh_metric kindGauge ''viberoxy_build_info'' ''Build information.'' [''version'']) of
           Some m \<Rightarrow> m
         | None \<Rightarrow> fresh_metric kindGauge ''viberoxy_build_info'' ''Build information.'' [''version''])\<rparr>"

definition metricsRegistry :: "metrics \<Rightarrow> Metric list" where
  "metricsRegistry x =
     [mx_WansActive x, mx_WanSpeedMbps x, mx_WanStability x, mx_ProxyConnections x,
      mx_ProxyBytes x, mx_ProxyLatency x, mx_TestDuration x, mx_BuildInfo x]"

text \<open>The label names never change, so no operation of the program on a global metric panics.\<close>

definition metrics_shape :: "metrics \<Rightarrow> bool" where
  "metrics_shape x \<longleftrightarrow>
     map (length \<circ> m_Labels) (metricsRegistry x) = [0, 1, 1, 2, 2, 0, 0, 1] \<and>
     map m_Kind (metricsRegistry x) =
       [kindGauge, kindGauge, kindGauge, kindCounter, kindCounter, kindHistogram, kindHistogram, kindGauge]"

lemma metrics_shape_init: "metrics_shape init_metrics"
  by (simp add: metrics_shape_def metricsRegistry_def init_metrics_def fresh_metric_def
      Metric_Set_def stateFor_def put_series_def)

end
