(* ===== verification/Xray.thy ===== *)
theory Xray
  imports Parser Metrics
begin

text \<open>
  The life cycle of xray processes (xray.go: StartXray, StopXray, HealthCheckXray) over an
  explicit operating-system state: the process table, the temporary files, the metrics and a
  counter of the questions put to the environment. The environment is a record of answer
  streams: its n-th answer is what the outside world does the n-th time it is asked.
\<close>

section \<open>The system state\<close>

text \<open>
  What an xray process is launched with: BuildXrayConfig renders exactly these three values
  into the configuration file, so the file's content is recorded as the triple.
\<close>

record launch =
  la_config :: ProxyConfig
  la_port :: int
  la_mux :: bool

text \<open>
  A child that has terminated stays in the process table (a zombie) until its parent waits
  for it; kill(2) with signal 0 still succeeds on it.
\<close>

datatype pstate = Running | Exited | Reaped

record proc =
  pr_launch :: launch
  pr_state :: pstate

datatype start_outcome =
    CreateFails goerror | WriteFails goerror | CloseFails goerror | SpawnFails goerror | Spawned

text \<open>
  Answers of the network to a download through a local SOCKS port: an error before the body, or
  a body of some number of bytes read in some number of seconds, possibly ending in an error.
\<close>

datatype download_outcome =
    DownloadRequestError goerror
  | DownloadGetError goerror
  | DownloadBody int "goerror option" real

datatype probe_outcome =
    ProbeRoundTripError goerror
  | ProbeResponse int string string "goerror option"

record env =
  e_start :: "nat \<Rightarrow> start_outcome"
  e_polls :: "nat \<Rightarrow> bool list"
  e_download :: "nat \<Rightarrow> download_outcome"
  e_probe :: "nat \<Rightarrow> probe_outcome"
  e_now :: "nat \<Rightarrow> int"
  e_fetch :: "nat \<Rightarrow> goerror + string"
  e_sorted :: "nat \<Rightarrow> bool"
  e_done :: "nat \<Rightarrow> bool"

record access_entry =
  ac_target :: string
  ac_wan :: int
  ac_up :: int
  ac_down :: int
  ac_status :: string
  ac_proto :: string
  ac_route :: string

record sys =
  procs :: "proc list"
  files :: "(string \<times> launch) list"
  file_seq :: nat
  mets :: metrics
  panicked :: bool
  tick :: nat
  access_log :: "access_entry list"

definition ticked :: "'z sys_scheme \<Rightarrow> 'z sys_scheme" where
  "ticked s = s\<lparr>tick := tick s + 1\<rparr>"

text \<open>An operation on one global metric; a panic of the collector is recorded in the state.\<close>

definition on_metric ::
    "(metrics \<Rightarrow> Metric) \<Rightarrow> ((Metric \<Rightarrow> Metric) \<Rightarrow> metrics \<Rightarrow> metrics) \<Rightarrow>
     (Metric \<Rightarrow> Metric option) \<Rightarrow> 'z sys_scheme \<Rightarrow> 'z sys_scheme" where
  "on_metric get upd f s =
     (case f (get (mets s)) of
        None \<Rightarrow> s\<lparr>panicked := True\<rparr>
      | Some m \<Rightarrow> s\<lparr>mets := upd (\<lambda>_. m) (mets s)\<rparr>)"

lemma on_metric_frame [simp]:
  "procs (on_metric get upd f s) = procs s" "files (on_metric get upd f s) = files s"
  "file_seq (on_metric get upd f s) = file_seq s" "tick (on_metric get upd f s) = tick s"
  "access_log (on_metric get upd f s) = access_log s" "sys.more (on_metric get upd f s) = sys.more s"
  by (simp_all add: on_metric_def split: option.split)

lemma ticked_frame [simp]:
  "procs (ticked s) = procs s" "files (ticked s) = files s" "file_seq (ticked s) = file_seq s"
  "mets (ticked s) = mets s" "panicked (ticked s) = panicked s" "access_log (ticked s) = access_log s"
  "sys.more (ticked s) = sys.more s" "tick (ticked s) = Suc (tick s)"
  by (simp_all add: ticked_def)

section \<open>Processes\<close>

text \<open>An \<open>exec.Cmd\<close> whose Process field is nil, or a process identifier.\<close>

datatype cmd = Cmd (cmd_process: "nat option")

definition temp_name :: "nat \<Rightarrow> string" where
  "temp_name n = ''/tmp/xray-config-'' @ nat_digits n @ ''.json''"

definition remove_file :: "string \<Rightarrow> 'z sys_scheme \<Rightarrow> 'z sys_scheme" where
  "remove_file path s = s\<lparr>files := filter (\<lambda>f. fst f \<noteq> path) (files s)\<rparr>"

definition mux_arg :: "bool list \<Rightarrow> bool" where
  "mux_arg muxEnabled = (case muxEnabled of [] \<Rightarrow> True | b # _ \<Rightarrow> b)"

definition StartXray ::
    "env \<Rightarrow> ProxyConfig \<Rightarrow> int \<Rightarrow> bool list \<Rightarrow> 'z sys_scheme \<Rightarrow>
     (cmd option \<times> string \<times> goerror option) \<times> 'z sys_scheme" where
  "StartXray E cfg inboundPort muxEnabled s0 =
     (let l = \<lparr>la_config = cfg, la_port = inboundPort, la_mux = mux_arg muxEnabled\<rparr>;
          out = e_start E (tick s0);
          s = ticked s0;
          path = temp_name (file_seq s);
          s1 = s\<lparr>files := (path, l) # files s, file_seq := file_seq s + 1\<rparr>
      in case out of
           CreateFails e \<Rightarrow> ((None, [], Some (ErrWrap ''create temp file: '' e [])), s)
         | WriteFails e \<Rightarrow> ((None, [], Some (ErrWrap ''write config: '' e [])), remove_file path s1)
         | CloseFails e \<Rightarrow> ((None, [], Some (ErrWrap ''close config: '' e [])), remove_file path s1)
         | SpawnFails e \<Rightarrow> ((None, [], Some (ErrWrap ''start xray: '' e [])), remove_file path s1)
         | Spawned \<Rightarrow>
             ((Some (Cmd (Some (length (procs s1)))), path, None),
              s1\<lparr>procs := procs s1 @ [\<lparr>pr_launch = l, pr_state = Running\<rparr>]\<rparr>))"

definition set_pstate :: "nat \<Rightarrow> pstate \<Rightarrow> 'z sys_scheme \<Rightarrow> 'z sys_scheme" where
  "set_pstate pid st s =
     (if pid < length (procs s)
      then s\<lparr>procs := (procs s)[pid := (procs s ! pid)\<lparr>pr_state := st\<rparr>]\<rparr> else s)"

text \<open>
  SIGTERM, then up to five seconds for the process to exit, then SIGKILL. Whichever of the two
  ends it, the wait goroutine has reaped the child before the configuration file is removed, so
  both branches of the select leave the same state.
\<close>

definition StopXray :: "cmd option \<Rightarrow> string \<Rightarrow> 'z sys_scheme \<Rightarrow> 'z sys_scheme" where
  "StopXray c configPath s =
     (let s' = (case c of
                  None \<Rightarrow> s
                | Some (Cmd None) \<Rightarrow> s
                | Some (Cmd (Some pid)) \<Rightarrow> set_pstate pid Reaped s)
      in if configPath \<noteq> [] then remove_file configPath s' else s')"

definition HealthCheckXray :: "cmd option \<Rightarrow> 'z sys_scheme \<Rightarrow> bool" where
  "HealthCheckXray c s =
     (case c of
        None \<Rightarrow> False
      | Some (Cmd None) \<Rightarrow> False
      | Some (Cmd (Some pid)) \<Rightarrow> pid < length (procs s) \<and> pr_state (procs s ! pid) \<noteq> Reaped)"

text \<open>The outside event of a child terminating on its own.\<close>

definition proc_exits :: "nat \<Rightarrow> 'z sys_scheme \<Rightarrow> 'z sys_scheme" where
  "proc_exits pid s =
     (if pid < length (procs s) \<and> pr_state (procs s ! pid) = Running
      then set_pstate pid Exited s else s)"

section \<open>Processes and files are balanced\<close>

lemma temp_name_inject [simp]: "temp_name m = temp_name n \<longleftrightarrow> m = n"
  by (simp add: temp_name_def)

lemma temp_name_ne [simp]: "temp_name n \<noteq> []"
  by (simp add: temp_name_def)

definition live :: "'z sys_scheme \<Rightarrow> nat set" where
  "live s = {pid. pid < length (procs s) \<and> pr_state (procs s ! pid) \<noteq> Reaped}"

definition fresh_files :: "'z sys_scheme \<Rightarrow> bool" where
  "fresh_files s \<longleftrightarrow> fst ` set (files s) \<subseteq> temp_name ` {..<file_seq s}"

lemma fresh_files_mono:
  assumes "fresh_files s" and "set (files s') \<subseteq> insert (temp_name k, l) (set (files s))"
    and "file_seq s \<le> file_seq s'" and "k < file_seq s'"
  shows "fresh_files s'"
proof -
  have "fst ` set (files s') \<subseteq> insert (temp_name k) (fst ` set (files s))"
    using assms(2) by force
  also have "\<dots> \<subseteq> insert (temp_name k) (temp_name ` {..<file_seq s})"
    using assms(1) unfolding fresh_files_def by blast
  also have "\<dots> \<subseteq> temp_name ` {..<file_seq s'}"
    using assms(3,4) by auto
  finally show ?thesis unfolding fresh_files_def .
qed

lemma fresh_files_sub:
  assumes "fresh_files s" and "set (files s') \<subseteq> set (files s)" and "file_seq s \<le> file_seq s'"
  shows "fresh_files s'"
proof -
  have "{..<file_seq s} \<subseteq> {..<file_seq s'}" using assms(3) by simp
  with assms(1,2) show ?thesis unfolding fresh_files_def by (meson image_mono order_trans)
qed

lemma fresh_next: "fresh_files s \<Longrightarrow> f \<in> set (files s) \<Longrightarrow> fst f \<noteq> temp_name (file_seq s)"
  unfolding fresh_files_def by fastforce

lemma remove_fresh:
  "fresh_files s \<Longrightarrow> filter (\<lambda>f. fst f \<noteq> temp_name (file_seq s)) (files s) = files s"
  by (rule filter_True) (auto dest: fresh_next)

lemma live_append:
  "procs s' = procs s @ [p] \<Longrightarrow>
     live s' = (if pr_state p = Reaped then live s else insert (length (procs s)) (live s))"
  by (auto simp: live_def nth_append less_Suc_eq)

lemma StartXray_fails:
  assumes "StartXray E cfg port mux s = ((c, path, Some e), s')" and "fresh_files s"
  shows "c = None \<and> path = [] \<and> procs s' = procs s \<and> files s' = files s \<and> mets s' = mets s \<and>
         panicked s' = panicked s \<and> access_log s' = access_log s \<and> sys.more s' = sys.more s \<and>
         file_seq s \<le> file_seq s'"
  using assms
  by (auto simp: StartXray_def Let_def ticked_def remove_file_def remove_fresh
      split: start_outcome.splits)

lemma StartXray_starts:
  assumes "StartXray E cfg port mux s = ((c, path, None), s')"
  shows "c = Some (Cmd (Some (length (procs s)))) \<and> path = temp_name (file_seq s) \<and>
         procs s' = procs s @ [\<lparr>pr_launch = \<lparr>la_config = cfg, la_port = port, la_mux = mux_arg mux\<rparr>,
                                 pr_state = Running\<rparr>] \<and>
         files s' = (path, \<lparr>la_config = cfg, la_port = port, la_mux = mux_arg mux\<rparr>) # files s \<and>
         file_seq s' = Suc (file_seq s) \<and> mets s' = mets s \<and>
         panicked s' = panicked s \<and> access_log s' = access_log s \<and> sys.more s' = sys.more s"
  using assms by (auto simp: StartXray_def Let_def ticked_def split: start_outcome.splits)

lemma StopXray_started:
  assumes "pid < length (procs s)" and "path \<noteq> []"
  shows "StopXray (Some (Cmd (Some pid))) path s =
     s\<lparr>procs := (procs s)[pid := (procs s ! pid)\<lparr>pr_state := Reaped\<rparr>],
       files := filter (\<lambda>f. fst f \<noteq> path) (files s)\<rparr>"
  using assms by (simp add: StopXray_def set_pstate_def remove_file_def)

text \<open>What a use of xray leaves of the system: no process that is not reaped, no file.\<close>

definition released :: "'z sys_scheme \<Rightarrow> 'z sys_scheme \<Rightarrow> bool" where
  "released s s' \<longleftrightarrow>
     (\<exists>ps. procs s' = procs s @ ps \<and> (\<forall>p \<in> set ps. pr_state p = Reaped)) \<and>
     files s' = files s \<and> file_seq s \<le> file_seq s' \<and> access_log s' = access_log s \<and>
     sys.more s' = sys.more s"

lemma released_refl [simp]: "released s s"
  by (simp add: released_def)

lemma released_trans: "released s t \<Longrightarrow> released t u \<Longrightarrow> released s u"
  by (auto simp: released_def)

lemma released_fresh: "released s s' \<Longrightarrow> fresh_files s \<Longrightarrow> fresh_files s'"
  unfolding released_def by (rule fresh_files_sub) auto

lemma released_live:
  assumes "released s s'"
  shows "live s' = live s"
proof -
  obtain ps where ps: "procs s' = procs s @ ps" "\<forall>p \<in> set ps. pr_state p = Reaped"
    using assms unfolding released_def by blast
  have new: "pid < length (procs s)" if "pid < length (procs s')" "pr_state (procs s' ! pid) \<noteq> Reaped" for pid
  proof (rule ccontr)
    assume "\<not> pid < length (procs s)"
    then have "procs s' ! pid = ps ! (pid - length (procs s))" "pid - length (procs s) < length ps"
      using that(1) ps(1) by (auto simp: nth_append)
    then have "procs s' ! pid \<in> set ps" by simp
    with ps(2) that(2) show False by blast
  qed
  show ?thesis
  proof (rule set_eqI)
    fix pid
    show "pid \<in> live s' \<longleftrightarrow> pid \<in> live s"
      using new [of pid] ps(1)
      by (cases "pid < length (procs s)") (simp_all add: live_def nth_append, blast)
  qed
qed

lemma released_tick [simp]: "released s (s\<lparr>tick := k\<rparr>)" "released s (ticked s)"
  by (simp_all add: released_def)

lemma released_metric: "released s s' \<Longrightarrow> released s (on_metric get upd f s')"
  by (simp add: released_def)

lemma released_failed_start:
  "StartXray E cfg port mux s = ((c, path, Some e), s') \<Longrightarrow> fresh_files s \<Longrightarrow> released s s'"
  by (drule (1) StartXray_fails) (simp add: released_def)

lemma released_start_stop:
  assumes start: "StartXray E cfg port mux s = ((c, path, None), s1)" and "fresh_files s"
  shows "released s (StopXray c path (s1\<lparr>tick := k\<rparr>))"
proof -
  note st = StartXray_starts [OF start]
  have "StopXray c path (s1\<lparr>tick := k\<rparr>) =
      s1\<lparr>tick := k, procs := (procs s1)[length (procs s) := (procs s1 ! length (procs s))\<lparr>pr_state := Reaped\<rparr>],
         files := filter (\<lambda>f. fst f \<noteq> path) (files s1)\<rparr>"
    using st by (simp add: StopXray_started)
  then show ?thesis
    using st remove_fresh [OF \<open>fresh_files s\<close>] by (simp add: released_def)
qed

text \<open>
  HealthCheckXray cannot see a child that died on its own: signal 0 is delivered to the zombie,
  and nothing but StopXray waits for the child.
\<close>

lemma HealthCheckXray_zombie:
  "HealthCheckXray c (proc_exits pid s) = HealthCheckXray c s"
  by (auto simp: HealthCheckXray_def proc_exits_def set_pstate_def nth_list_update
      split: option.split cmd.split)

end
