(* ===== verification/Tester.thy ===== *)
theory Tester
  imports Xray
begin

text \<open>
  Speed tests (tester.go): one test through a temporary xray, result ordering, exit-IP
  stability, keepalive probes and the choice of a replacement candidate. Speeds are real
  numbers (the float rounding of the epsilon comparisons is not modelled).
\<close>

section \<open>Results and their order\<close>

record TestResult =
  tr_Config :: ProxyConfig
  tr_Speed :: real
  tr_StabilityScore :: int
  tr_Error :: "goerror option"

text \<open>The less function given to sort.Slice, here and in candidate.go.\<close>

definition result_less :: "TestResult \<Rightarrow> TestResult \<Rightarrow> bool" where
  "result_less a b =
     (if tr_Error a \<noteq> None \<and> tr_Error b = None then False
      else if tr_Error a = None \<and> tr_Error b \<noteq> None then True
      else tr_Speed a > tr_Speed b)"

text \<open>
  sort.Slice permutes the slice so that no element is less than one before it, for every
  strict weak order; it is not stable. \<open>srt\<close> is the sorting algorithm, and its contract is
  the predicate below.
\<close>

definition strict_weak :: "('a \<Rightarrow> 'a \<Rightarrow> bool) \<Rightarrow> bool" where
  "strict_weak lt \<longleftrightarrow>
     (\<forall>a. \<not> lt a a) \<and> (\<forall>a b c. lt a b \<longrightarrow> lt b c \<longrightarrow> lt a c) \<and>
     (\<forall>a b c. \<not> lt a b \<longrightarrow> \<not> lt b c \<longrightarrow> \<not> lt a c)"

definition SortResults ::
    "((TestResult \<Rightarrow> TestResult \<Rightarrow> bool) \<Rightarrow> TestResult list \<Rightarrow> TestResult list) \<Rightarrow>
     TestResult list \<Rightarrow> TestResult list" where
  "SortResults srt results = srt result_less results"

text \<open>
  The instance used in the witnesses: insertion sort, which is what sort.Slice runs on
  slices of up to twelve elements.
\<close>

fun insert_less :: "('a \<Rightarrow> 'a \<Rightarrow> bool) \<Rightarrow> 'a \<Rightarrow> 'a list \<Rightarrow> 'a list" where
  "insert_less lt x [] = [x]"
| "insert_less lt x (y # ys) = (if lt y x then y # insert_less lt x ys else x # y # ys)"

definition insertion_sort :: "('a \<Rightarrow> 'a \<Rightarrow> bool) \<Rightarrow> 'a list \<Rightarrow> 'a list" where
  "insertion_sort lt xs = foldr (insert_less lt) xs []"

section \<open>The download measurement\<close>

definition DownloadMeasurer :: "download_outcome \<Rightarrow> int \<Rightarrow> goerror + real" where
  "DownloadMeasurer out downloadSize =
     (case out of
        DownloadRequestError e \<Rightarrow> Inl (ErrWrap ''create request: '' e [])
      | DownloadGetError e \<Rightarrow> Inl (ErrWrap ''http get: '' e [])
      | DownloadBody sz err elapsed \<Rightarrow>
          (case (if downloadSize > 0 \<and> downloadSize \<le> sz then None else err) of
             Some e \<Rightarrow> Inl (ErrWrap ''read body: '' e [])
           | None \<Rightarrow>
               let n = (if downloadSize > 0 then min sz downloadSize else sz);
                   t = (if elapsed \<le> 0 then 0.001 else elapsed)
               in Inr (real_of_int (wrap64 (n * 8)) / t / 1000000)))"

fun waitPortReady :: "bool list \<Rightarrow> string \<Rightarrow> goerror option" where
  "waitPortReady [] addr = Some (ErrText (''port '' @ addr @ '' not reachable within 5s''))"
| "waitPortReady (ok # polls) addr = (if ok then None else waitPortReady polls addr)"

definition local_addr :: "int \<Rightarrow> string" where
  "local_addr port = ''127.0.0.1:'' @ strconv_Itoa port"

section \<open>Probes\<close>

text \<open>One consultation of the environment: the answer stream at the current position.\<close>

definition ask :: "(env \<Rightarrow> nat \<Rightarrow> 'b) \<Rightarrow> env \<Rightarrow> 'z sys_scheme \<Rightarrow> 'b \<times> 'z sys_scheme" where
  "ask stream E s = (stream E (tick s), ticked s)"

definition status_error :: "string \<Rightarrow> goerror" where
  "status_error status = ErrText (''probe status: '' @ status)"

definition ProbeWAN :: "env \<Rightarrow> 'z sys_scheme \<Rightarrow> goerror option \<times> 'z sys_scheme" where
  "ProbeWAN E s0 =
     (case ask e_probe E s0 of (out, s) \<Rightarrow>
        (case out of
           ProbeRoundTripError e \<Rightarrow> (Some e, s)
         | ProbeResponse code status body err \<Rightarrow>
             if code < 200 \<or> code \<ge> 300 then (Some (status_error status), s)
             else (case (if 4096 \<le> length body then None else err) of
                     Some e \<Rightarrow> (Some (ErrWrap ''read probe body: '' e []), s)
                   | None \<Rightarrow> (None, s))))"

definition probeExitIP :: "env \<Rightarrow> 'z sys_scheme \<Rightarrow> (goerror + string) \<times> 'z sys_scheme" where
  "probeExitIP E s0 =
     (case ask e_probe E s0 of (out, s) \<Rightarrow>
        (case out of
           ProbeRoundTripError e \<Rightarrow> (Inl e, s)
         | ProbeResponse code status body err \<Rightarrow>
             if code < 200 \<or> code \<ge> 300 then (Inl (status_error status), s)
             else (case (if 4096 \<le> length body then None else err) of
                     Some e \<Rightarrow> (Inl (ErrWrap ''read probe body: '' e []), s)
                   | None \<Rightarrow>
                       let ip = strings_TrimSpace (take 4096 body)
                       in if ip = [] then (Inl (ErrText ''probe body empty''), s)
                          else (Inr ip, s))))"

definition stabilityScoreFromIPs :: "string list \<Rightarrow> int" where
  "stabilityScoreFromIPs ips =
     (let seen = remdups (filter (\<lambda>ip. ip \<noteq> []) ips)
      in if seen = [] then 0 else int (length seen) - 1)"

fun probe_loop :: "env \<Rightarrow> nat \<Rightarrow> 'z sys_scheme \<Rightarrow> string list \<times> 'z sys_scheme" where
  "probe_loop E 0 s = ([], s)"
| "probe_loop E (Suc n) s =
     (case probeExitIP E s of (r, s1) \<Rightarrow>
        (case probe_loop E n s1 of (ips, s2) \<Rightarrow>
           ((case r of Inl _ \<Rightarrow> ips | Inr ip \<Rightarrow> ip # ips), s2)))"

definition measureStability :: "env \<Rightarrow> int \<Rightarrow> 'z sys_scheme \<Rightarrow> int \<times> 'z sys_scheme" where
  "measureStability E probes s =
     (case probe_loop E (nat probes) s of (ips, s') \<Rightarrow> (stabilityScoreFromIPs ips, s'))"

section \<open>One speed test\<close>

definition failed_result :: "ProxyConfig \<Rightarrow> goerror \<Rightarrow> TestResult" where
  "failed_result cfg e = \<lparr>tr_Config = cfg, tr_Speed = 0, tr_StabilityScore = 0, tr_Error = Some e\<rparr>"

text \<open>
  The temporary xray is stopped when the function returns, after the stability probes; the
  duration histogram is updated last (deferred first).
\<close>

definition test_body ::
    "env \<Rightarrow> ProxyConfig \<Rightarrow> int \<Rightarrow> int \<Rightarrow> int \<Rightarrow> 'z sys_scheme \<Rightarrow> TestResult \<times> 'z sys_scheme" where
  "test_body E cfg testPort downloadSize stabilityProbes s0 =
     (case ask e_polls E s0 of (polls, s1) \<Rightarrow>
        (case waitPortReady polls (local_addr testPort) of
           Some e \<Rightarrow> (failed_result cfg (ErrWrap ''xray not ready: '' e []), s1)
         | None \<Rightarrow>
             (case ask e_download E s1 of (out, s2) \<Rightarrow>
                (case DownloadMeasurer out downloadSize of
                   Inl e \<Rightarrow> (failed_result cfg e, s2)
                 | Inr speed \<Rightarrow>
                     let r = \<lparr>tr_Config = cfg, tr_Speed = speed, tr_StabilityScore = 0, tr_Error = None\<rparr>
                     in if stabilityProbes > 0
                        then (case measureStability E stabilityProbes s2 of
                                (score, s3) \<Rightarrow> (r\<lparr>tr_StabilityScore := score\<rparr>, s3))
                        else (r, s2)))))"

definition observe_test :: "real \<Rightarrow> 'z sys_scheme \<Rightarrow> 'z sys_scheme" where
  "observe_test v = on_metric mx_TestDuration mx_TestDuration_update (Metric_Observe v [])"

definition TestSpeedWithStability ::
    "env \<Rightarrow> ProxyConfig \<Rightarrow> int \<Rightarrow> int \<Rightarrow> int \<Rightarrow> 'z sys_scheme \<Rightarrow> TestResult \<times> 'z sys_scheme" where
  "TestSpeedWithStability E cfg testPort downloadSize stabilityProbes s0 =
     (let start = e_now E (tick s0);
          finish = (\<lambda>s. observe_test (real_of_int (saturate64 (e_now E (tick s) - start)) / 1000000000) s)
      in case StartXray E cfg testPort [] s0 of
           ((c, path, Some e), s1) \<Rightarrow>
             (failed_result cfg (ErrWrap ''start xray: '' e []), finish s1)
         | ((c, path, None), s1) \<Rightarrow>
             (case test_body E cfg testPort downloadSize stabilityProbes s1 of
                (r, s2) \<Rightarrow> (r, finish (StopXray c path s2))))"

definition TestSpeed ::
    "env \<Rightarrow> ProxyConfig \<Rightarrow> int \<Rightarrow> int \<Rightarrow> 'z sys_scheme \<Rightarrow> TestResult \<times> 'z sys_scheme" where
  "TestSpeed E cfg testPort downloadSize s = TestSpeedWithStability E cfg testPort downloadSize 0 s"

fun test_all_loop ::
    "env \<Rightarrow> ProxyConfig list \<Rightarrow> int \<Rightarrow> int \<Rightarrow> 'z sys_scheme \<Rightarrow> TestResult list \<times> 'z sys_scheme" where
  "test_all_loop E [] port downloadSize s = ([], s)"
| "test_all_loop E (c # cs) port downloadSize s =
     (case TestSpeed E c port downloadSize s of (r, s1) \<Rightarrow>
        (case test_all_loop E cs (port + 1) downloadSize s1 of (rs, s2) \<Rightarrow> (r # rs, s2)))"

definition TestAll ::
    "((TestResult \<Rightarrow> TestResult \<Rightarrow> bool) \<Rightarrow> TestResult list \<Rightarrow> TestResult list) \<Rightarrow> env \<Rightarrow>
     ProxyConfig list \<Rightarrow> int \<Rightarrow> int \<Rightarrow> 'z sys_scheme \<Rightarrow> TestResult list \<times> 'z sys_scheme" where
  "TestAll srt E configs testPortBase downloadSize s =
     (case test_all_loop E configs testPortBase downloadSize s of (rs, s') \<Rightarrow> (SortResults srt rs, s'))"

section \<open>The replacement candidate\<close>

definition speed_epsilon :: real where
  "speed_epsilon = 0.001"

definition better_candidate :: "TestResult \<Rightarrow> TestResult \<Rightarrow> TestResult" where
  "better_candidate best r =
     (if tr_Speed r > tr_Speed best + speed_epsilon then r
      else if tr_Speed r > tr_Speed best - speed_epsilon \<and> tr_StabilityScore r < tr_StabilityScore best
      then r else best)"

fun best_loop ::
    "real \<Rightarrow> (ProxyConfig \<Rightarrow> bool) option \<Rightarrow> TestResult option \<Rightarrow> TestResult list \<Rightarrow> TestResult option" where
  "best_loop minimumSpeed alreadyActive best [] = best"
| "best_loop minimumSpeed alreadyActive best (r # rs) =
     best_loop minimumSpeed alreadyActive
       (if tr_Error r \<noteq> None \<or> tr_Speed r < minimumSpeed then best
        else if (case alreadyActive of None \<Rightarrow> False | Some f \<Rightarrow> f (tr_Config r)) then best
        else (case best of None \<Rightarrow> Some r | Some b \<Rightarrow> Some (better_candidate b r))) rs"

definition bestNewCandidate ::
    "TestResult list \<Rightarrow> real \<Rightarrow> (ProxyConfig \<Rightarrow> bool) option \<Rightarrow> TestResult option" where
  "bestNewCandidate results minimumSpeed alreadyActive =
     best_loop minimumSpeed alreadyActive None results"

text \<open>Three successes that nearly tie, for the examples.\<close>

definition sample_config :: ProxyConfig where
  "sample_config =
     \<lparr>pc_Protocol = ''vless'', pc_Server = ''a'', pc_Port = 443, pc_Name = [], pc_Raw = ''vless://a:443''\<rparr>"

definition drift_results :: "TestResult list" where
  "drift_results =
     [\<lparr>tr_Config = sample_config, tr_Speed = 10, tr_StabilityScore = 2, tr_Error = None\<rparr>,
      \<lparr>tr_Config = sample_config, tr_Speed = 9.9992, tr_StabilityScore = 1, tr_Error = None\<rparr>,
      \<lparr>tr_Config = sample_config, tr_Speed = 9.9984, tr_StabilityScore = 0, tr_Error = None\<rparr>]"

section \<open>Properties of the ordering and of the choice\<close>

locale slice_sorter =
  fixes srt :: "('a \<Rightarrow> 'a \<Rightarrow> bool) \<Rightarrow> 'a list \<Rightarrow> 'a list"
  assumes sort_perm: "strict_weak lt \<Longrightarrow> mset (srt lt xs) = mset xs"
    and sort_ordered: "strict_weak lt \<Longrightarrow> sorted_wrt (\<lambda>a b. \<not> lt b a) (srt lt xs)"
begin

lemma sort_set: "strict_weak lt \<Longrightarrow> set (srt lt xs) = set xs"
  by (rule mset_eq_setD) (rule sort_perm)

lemma sort_length: "strict_weak lt \<Longrightarrow> length (srt lt xs) = length xs"
  by (rule mset_eq_length) (rule sort_perm)

lemma sort_prefix_best:
  assumes "strict_weak lt" and "a \<in> set (take n (srt lt xs))" and "b \<in> set (drop n (srt lt xs))"
  shows "\<not> lt b a"
proof -
  have "sorted_wrt (\<lambda>a b. \<not> lt b a) (take n (srt lt xs) @ drop n (srt lt xs))"
    using sort_ordered [OF assms(1)] by simp
  with assms(2,3) show ?thesis
    unfolding sorted_wrt_append by blast
qed

end

lemma insert_less_mset: "mset (insert_less lt x xs) = add_mset x (mset xs)"
  by (induction xs) auto

lemma insert_less_ordered:
  assumes "strict_weak lt" and "sorted_wrt (\<lambda>a b. \<not> lt b a) xs"
  shows "sorted_wrt (\<lambda>a b. \<not> lt b a) (insert_less lt x xs)"
  using assms(2)
proof (induction xs)
  case (Cons y ys)
  have set: "set (insert_less lt x ys) = insert x (set ys)"
    using insert_less_mset [of lt x ys] by (metis set_mset_mset set_mset_add_mset_insert)
  show ?case
  proof (cases "lt y x")
    case True
    with assms(1) have "\<not> lt x y" by (metis strict_weak_def)
    with True Cons set show ?thesis by simp
  next
    case False
    with assms(1) have "\<not> lt z y \<Longrightarrow> \<not> lt z x" for z by (metis strict_weak_def)
    with False Cons.prems show ?thesis by simp
  qed
qed simp

interpretation ins: slice_sorter insertion_sort
proof
  fix lt :: "'a \<Rightarrow> 'a \<Rightarrow> bool" and xs
  assume "strict_weak lt"
  show "mset (insertion_sort lt xs) = mset xs"
    by (induction xs) (simp_all add: insertion_sort_def insert_less_mset)
  show "sorted_wrt (\<lambda>a b. \<not> lt b a) (insertion_sort lt xs)"
    using \<open>strict_weak lt\<close>
    by (induction xs) (simp_all add: insertion_sort_def insert_less_ordered)
qed

lemma strict_weak_result_less: "strict_weak result_less"
  by (auto simp: strict_weak_def result_less_def split: if_splits)

text \<open>The ranking that result_less induces: successes first, then faster first.\<close>

definition ranked :: "TestResult list \<Rightarrow> bool" where
  "ranked rs \<longleftrightarrow>
     (\<forall>i j. i < j \<longrightarrow> j < length rs \<longrightarrow>
        (tr_Error (rs ! j) = None \<longrightarrow> tr_Error (rs ! i) = None) \<and>
        ((tr_Error (rs ! i) = None) = (tr_Error (rs ! j) = None) \<longrightarrow>
           tr_Speed (rs ! j) \<le> tr_Speed (rs ! i)))"

lemma sorted_ranked: "sorted_wrt (\<lambda>a b. \<not> result_less b a) rs \<longleftrightarrow> ranked rs"
  unfolding sorted_wrt_iff_nth_less ranked_def result_less_def
  by (intro arg_cong [where f = All] ext) (auto split: if_splits)

text \<open>For every algorithm that keeps sort.Slice's contract, SortResults returns a
  permutation of its input with the successes before the failures and the faster before the slower.\<close>

theorem SortResults_correct:
  assumes "slice_sorter srt"
  shows "mset (SortResults srt rs) = mset rs \<and> ranked (SortResults srt rs)"
  using slice_sorter.sort_perm [OF assms strict_weak_result_less]
    slice_sorter.sort_ordered [OF assms strict_weak_result_less]
  by (simp add: SortResults_def sorted_ranked)

lemma SortResults_correct_witness:
  "mset (SortResults insertion_sort drift_results) = mset drift_results \<and>
   ranked (SortResults insertion_sort drift_results)"
  by (rule SortResults_correct) (rule ins.slice_sorter_axioms)

definition qualifies :: "real \<Rightarrow> (ProxyConfig \<Rightarrow> bool) option \<Rightarrow> TestResult \<Rightarrow> bool" where
  "qualifies minimumSpeed alreadyActive r \<longleftrightarrow>
     tr_Error r = None \<and> minimumSpeed \<le> tr_Speed r \<and>
     (case alreadyActive of None \<Rightarrow> True | Some f \<Rightarrow> \<not> f (tr_Config r))"

definition pick :: "TestResult option \<Rightarrow> TestResult \<Rightarrow> TestResult option" where
  "pick best r = (case best of None \<Rightarrow> Some r | Some b \<Rightarrow> Some (better_candidate b r))"

lemma pick_simps [simp]:
  "pick None r = Some r" "pick (Some b) r = Some (better_candidate b r)"
  by (simp_all add: pick_def)

lemma best_loop_fold:
  "best_loop m aa best rs = foldl pick best (filter (qualifies m aa) rs)"
  by (induction rs arbitrary: best)
    (auto simp: qualifies_def pick_def not_less split: option.splits)

lemma speed_epsilon_pos: "0 < speed_epsilon"
  by (simp add: speed_epsilon_def)

lemma better_candidate_cases: "better_candidate b r = b \<or> better_candidate b r = r"
  by (simp add: better_candidate_def)

lemma foldl_pick_Some:
  "\<exists>b'. foldl pick (Some b) qs = Some b' \<and> b' \<in> insert b (set qs) \<and>
      (\<forall>q \<in> insert b (set qs). tr_Speed q \<le> tr_Speed b' + speed_epsilon * real (length qs))"
proof (induction qs arbitrary: b)
  case (Cons r qs)
  let ?b = "better_candidate b r"
  have close: "tr_Speed b \<le> tr_Speed ?b + speed_epsilon" "tr_Speed r \<le> tr_Speed ?b + speed_epsilon"
    using speed_epsilon_pos by (auto simp: better_candidate_def)
  from Cons.IH [of ?b] obtain b' where b': "foldl pick (Some ?b) qs = Some b'"
      "b' \<in> insert ?b (set qs)"
    and near: "\<forall>q \<in> insert ?b (set qs). tr_Speed q \<le> tr_Speed b' + speed_epsilon * real (length qs)"
    by blast
  have "tr_Speed q \<le> tr_Speed b' + speed_epsilon * real (length (r # qs))" if "q \<in> insert b (set (r # qs))" for q
  proof -
    have step: "speed_epsilon * real (length (r # qs)) = speed_epsilon * real (length qs) + speed_epsilon"
      by (simp add: algebra_simps)
    from near have best: "tr_Speed ?b \<le> tr_Speed b' + speed_epsilon * real (length qs)" by simp
    from that consider "q = b" | "q = r" | "q \<in> set qs" by auto
    then show ?thesis unfolding step
    proof cases
      case 1
      then show "tr_Speed q \<le> tr_Speed b' + (speed_epsilon * real (length qs) + speed_epsilon)"
        using close best by simp
    next
      case 2
      then show "tr_Speed q \<le> tr_Speed b' + (speed_epsilon * real (length qs) + speed_epsilon)"
        using close best by simp
    next
      case 3
      with near have "tr_Speed q \<le> tr_Speed b' + speed_epsilon * real (length qs)" by simp
      then show "tr_Speed q \<le> tr_Speed b' + (speed_epsilon * real (length qs) + speed_epsilon)"
        using speed_epsilon_pos by linarith
    qed
  qed
  moreover have "b' \<in> insert b (set (r # qs))"
    using b'(2) better_candidate_cases [of b r] by auto
  ultimately show ?case using b'(1) by auto
qed simp

text \<open>C38. bestNewCandidate returns nothing exactly when no result qualifies (no error, at least
  the minimum speed, not already active); what it returns qualifies, and no qualifying result is
  faster by more than the tie epsilon for every further qualifying result.\<close>

theorem bestNewCandidate_correct:
  "(bestNewCandidate rs m aa = None \<longleftrightarrow> (\<forall>r \<in> set rs. \<not> qualifies m aa r)) \<and>
   (\<forall>b. bestNewCandidate rs m aa = Some b \<longrightarrow>
      b \<in> set rs \<and> qualifies m aa b \<and>
      (\<forall>r \<in> set rs. qualifies m aa r \<longrightarrow>
         tr_Speed r \<le> tr_Speed b + speed_epsilon * (real (length (filter (qualifies m aa) rs)) - 1)))"
proof (cases "filter (qualifies m aa) rs")
  case Nil
  then show ?thesis
    by (auto simp: bestNewCandidate_def best_loop_fold filter_empty_conv)
next
  case (Cons q qs)
  have eq: "bestNewCandidate rs m aa = foldl pick (Some q) qs"
    by (simp add: bestNewCandidate_def best_loop_fold Cons)
  have set: "{r \<in> set rs. qualifies m aa r} = insert q (set qs)"
    using arg_cong [OF Cons, of set] by simp
  from foldl_pick_Some [of q qs] obtain b where b: "foldl pick (Some q) qs = Some b"
      "b \<in> insert q (set qs)"
    and near: "\<forall>r \<in> insert q (set qs). tr_Speed r \<le> tr_Speed b + speed_epsilon * real (length qs)"
    by blast
  have "r \<in> insert q (set qs)" if "r \<in> set rs" "qualifies m aa r" for r
    using that set by blast
  moreover have "b \<in> set rs \<and> qualifies m aa b" using b(2) set by blast
  moreover have "q \<in> set rs \<and> qualifies m aa q" using set by blast
  ultimately show ?thesis
    unfolding eq Cons using b(1) near by auto
qed

definition separated :: "TestResult list \<Rightarrow> bool" where
  "separated qs \<longleftrightarrow>
     (\<forall>a \<in> set qs. \<forall>b \<in> set qs. tr_Speed a < tr_Speed b \<longrightarrow> tr_Speed a + speed_epsilon < tr_Speed b)"

definition outranks :: "TestResult \<Rightarrow> TestResult \<Rightarrow> bool" where
  "outranks b q \<longleftrightarrow> tr_Speed q < tr_Speed b \<or>
     (tr_Speed q = tr_Speed b \<and> tr_StabilityScore b \<le> tr_StabilityScore q)"

lemma better_candidate_outranks:
  assumes "tr_Speed b < tr_Speed r \<longrightarrow> tr_Speed b + speed_epsilon < tr_Speed r"
    and "tr_Speed r < tr_Speed b \<longrightarrow> tr_Speed r + speed_epsilon < tr_Speed b"
  shows "outranks (better_candidate b r) b \<and> outranks (better_candidate b r) r"
proof -
  consider "tr_Speed r < tr_Speed b" | "tr_Speed r = tr_Speed b" | "tr_Speed b < tr_Speed r" by linarith
  then show ?thesis
    using assms speed_epsilon_pos by cases (auto simp: outranks_def better_candidate_def)
qed

lemma outranks_trans: "outranks a b \<Longrightarrow> outranks b c \<Longrightarrow> outranks a c"
  by (auto simp: outranks_def)

lemma outranks_refl [simp]: "outranks a a"
  by (simp add: outranks_def)

lemma foldl_pick_separated:
  "separated (b # qs) \<Longrightarrow> foldl pick (Some b) qs = Some b' \<Longrightarrow> q \<in> insert b (set qs) \<Longrightarrow> outranks b' q"
proof (induction qs arbitrary: b q)
  case (Cons r qs)
  let ?b = "better_candidate b r"
  have "set (?b # qs) \<subseteq> set (b # r # qs)"
    using better_candidate_cases [of b r] by auto
  with Cons.prems(1) have sep: "separated (?b # qs)"
    unfolding separated_def by blast
  from Cons.prems(2) have eq: "foldl pick (Some ?b) qs = Some b'" by simp
  have rank: "outranks ?b b" "outranks ?b r"
    using better_candidate_outranks [of b r] Cons.prems(1) by (simp_all add: separated_def)
  from Cons.IH [OF sep eq, of ?b] have "outranks b' ?b" by simp
  with rank Cons.IH [OF sep eq, of q] Cons.prems(3) show ?case
    by (auto intro: outranks_trans)
qed simp

text \<open>When the speeds of the qualifying results are equal or more than the epsilon apart,
  bestNewCandidate is the documented choice: the fastest, and among the fastest one of the lowest
  stability score.\<close>

theorem bestNewCandidate_separated:
  assumes "bestNewCandidate rs m aa = Some b" and "separated (filter (qualifies m aa) rs)"
    and "r \<in> set rs" and "qualifies m aa r"
  shows "tr_Speed r < tr_Speed b \<or>
     (tr_Speed r = tr_Speed b \<and> tr_StabilityScore b \<le> tr_StabilityScore r)"
proof (cases "filter (qualifies m aa) rs")
  case Nil
  with assms(3,4) show ?thesis by (auto simp: filter_empty_conv)
next
  case (Cons q qs)
  have "foldl pick (Some q) qs = Some b"
    using assms(1) by (simp add: bestNewCandidate_def best_loop_fold Cons)
  moreover have "r \<in> insert q (set qs)"
    using arg_cong [OF Cons, of set] assms(3,4) by auto
  ultimately show ?thesis
    using foldl_pick_separated [of q qs b r] assms(2) Cons by (simp add: outranks_def)
qed

lemma stabilityScore_distinct:
  "stabilityScoreFromIPs ips = max 0 (int (card (set ips - {[]})) - 1)"
proof -
  let ?seen = "remdups (filter (\<lambda>ip. ip \<noteq> []) ips)"
  have set: "set (filter (\<lambda>ip. ip \<noteq> []) ips) = set ips - {[]}" by auto
  have len: "length ?seen = card (set ips - {[]})"
    unfolding length_remdups_card_conv set ..
  show ?thesis
  proof (cases "?seen = []")
    case True
    with len have "card (set ips - {[]}) = 0" by simp
    with True show ?thesis by (simp add: stabilityScoreFromIPs_def)
  next
    case False
    then have "0 < length ?seen" by blast
    with len False show ?thesis by (simp add: stabilityScoreFromIPs_def Let_def)
  qed
qed

text \<open>
  Ties are not transitive: through a chain of near ties the loop can end on a candidate that is
  slower than another by more than the epsilon, although the comment in the source says that a
  slower but more stable config is never preferred over a faster one.
\<close>

lemma bestNewCandidate_drift:
  "\<exists>slow. bestNewCandidate drift_results 5 None = Some slow \<and>
     (\<exists>fast \<in> set drift_results. tr_Speed slow + speed_epsilon < tr_Speed fast)"
  by (simp add: bestNewCandidate_def drift_results_def better_candidate_def speed_epsilon_def)

lemma bestNewCandidate_correct_witness:
  "\<exists>b. bestNewCandidate drift_results 5 None = Some b \<and> b \<in> set drift_results \<and>
       10 \<le> tr_Speed b + speed_epsilon * 2"
proof -
  obtain b where b: "bestNewCandidate drift_results 5 None = Some b"
    using bestNewCandidate_drift by blast
  have "length (filter (qualifies 5 None) drift_results) = 3"
    and "hd drift_results \<in> set drift_results" "qualifies 5 None (hd drift_results)"
      "tr_Speed (hd drift_results) = 10"
    by (simp_all add: drift_results_def qualifies_def)
  with bestNewCandidate_correct [of drift_results 5 None] b show ?thesis by fastforce
qed

lemma bestNewCandidate_separated_witness:
  "\<exists>a b. bestNewCandidate [a, b] 5 None = Some b \<and>
     (tr_Speed a < tr_Speed b \<or> (tr_Speed a = tr_Speed b \<and> tr_StabilityScore b \<le> tr_StabilityScore a))"
proof -
  let ?a = "\<lparr>tr_Config = sample_config, tr_Speed = 9, tr_StabilityScore = 0, tr_Error = None\<rparr>"
  let ?b = "\<lparr>tr_Config = sample_config, tr_Speed = 12, tr_StabilityScore = 3, tr_Error = None\<rparr>"
  have best: "bestNewCandidate [?a, ?b] 5 None = Some ?b"
    by (simp add: bestNewCandidate_def better_candidate_def speed_epsilon_def)
  have sep: "separated (filter (qualifies 5 None) [?a, ?b])"
    by (simp add: separated_def qualifies_def speed_epsilon_def)
  have "?a \<in> set [?a, ?b]" and "qualifies 5 None ?a" by (simp_all add: qualifies_def)
  from bestNewCandidate_separated [OF best sep this] best show ?thesis by blast
qed

section \<open>A speed test leaves nothing behind\<close>

lemma ask_eq: "ask stream E s = (stream E (tick s), ticked s)"
  by (simp add: ask_def)

lemma tick_eqI: "snd p = s\<lparr>tick := k\<rparr> \<Longrightarrow> \<exists>r. p = (r, s\<lparr>tick := k\<rparr>)"
  by (cases p) simp

lemma probeExitIP_tick: "\<exists>r. probeExitIP E s = (r, s\<lparr>tick := tick s + 1\<rparr>)"
  by (simp add: probeExitIP_def ask_eq ticked_def Let_def split: probe_outcome.split option.split)

lemma ProbeWAN_tick: "\<exists>r. ProbeWAN E s = (r, s\<lparr>tick := tick s + 1\<rparr>)"
  by (simp add: ProbeWAN_def ask_eq ticked_def Let_def split: probe_outcome.split option.split)

lemma probe_loop_tick: "\<exists>ips. probe_loop E n s = (ips, s\<lparr>tick := tick s + n\<rparr>)"
proof (induction n arbitrary: s)
  case (Suc n)
  obtain r where r: "probeExitIP E s = (r, s\<lparr>tick := tick s + 1\<rparr>)"
    using probeExitIP_tick by blast
  obtain ips where "probe_loop E n (s\<lparr>tick := tick s + 1\<rparr>) = (ips, s\<lparr>tick := tick s + 1 + n\<rparr>)"
    using Suc [of "s\<lparr>tick := tick s + 1\<rparr>"] by auto
  with r show ?case by simp
qed simp

lemma stabilityScore_nonneg: "0 \<le> stabilityScoreFromIPs ips"
  by (simp add: stabilityScore_distinct)

lemma measureStability_tick:
  "\<exists>v k. measureStability E n s = (v, s\<lparr>tick := k\<rparr>) \<and> 0 \<le> v"
  using probe_loop_tick [of E "nat n" s]
  by (auto simp: measureStability_def stabilityScore_nonneg)

lemma test_body_tick:
  "\<exists>r k. test_body E cfg port sz n s = (r, s\<lparr>tick := k\<rparr>) \<and> tr_Config r = cfg \<and>
     0 \<le> tr_StabilityScore r"
proof (cases "waitPortReady (e_polls E (tick s)) (local_addr port)")
  case None
  let ?s = "ticked (ticked s)"
  show ?thesis
  proof (cases "DownloadMeasurer (e_download E (Suc (tick s))) sz")
    case (Inl e)
    with None have "test_body E cfg port sz n s = (failed_result cfg e, s\<lparr>tick := Suc (Suc (tick s))\<rparr>)"
      by (simp add: test_body_def ask_eq ticked_def)
    then show ?thesis unfolding failed_result_def by (intro exI conjI) auto
  next
    case (Inr v)
    obtain w k where "measureStability E n (s\<lparr>tick := Suc (Suc (tick s))\<rparr>) = (w, s\<lparr>tick := k\<rparr>)" "0 \<le> w"
      using measureStability_tick [of E n "s\<lparr>tick := Suc (Suc (tick s))\<rparr>"] by auto
    with None Inr have "test_body E cfg port sz n s =
        (\<lparr>tr_Config = cfg, tr_Speed = v, tr_StabilityScore = (if 0 < n then w else 0), tr_Error = None\<rparr>,
         s\<lparr>tick := (if 0 < n then k else Suc (Suc (tick s)))\<rparr>)"
      by (simp add: test_body_def ask_eq ticked_def Let_def)
    with \<open>0 \<le> w\<close> show ?thesis by (intro exI conjI) auto
  qed
next
  case (Some e)
  then have "test_body E cfg port sz n s =
      (failed_result cfg (ErrWrap ''xray not ready: '' e []), s\<lparr>tick := Suc (tick s)\<rparr>)"
    by (simp add: test_body_def ask_eq ticked_def)
  then show ?thesis unfolding failed_result_def by (intro exI conjI) auto
qed

lemma TestSpeed_released:
  assumes "fresh_files s" and "TestSpeedWithStability E cfg port sz n s = (r, s')"
  shows "released s s' \<and> tr_Config r = cfg \<and> 0 \<le> tr_StabilityScore r"
proof -
  obtain c path err s1 where start: "StartXray E cfg port [] s = ((c, path, err), s1)"
    by (cases "StartXray E cfg port [] s" rule: prod.exhaust) (metis prod_cases3)
  obtain q k where body: "test_body E cfg port sz n s1 = (q, s1\<lparr>tick := k\<rparr>)" "tr_Config q = cfg"
      "0 \<le> tr_StabilityScore q"
    using test_body_tick by blast
  show ?thesis
  proof (cases err)
    case None
    with assms start body show ?thesis
      by (auto simp: TestSpeedWithStability_def Let_def observe_test_def
          intro!: released_metric released_start_stop)
  next
    case (Some e)
    with assms start show ?thesis
      by (auto simp: TestSpeedWithStability_def Let_def observe_test_def failed_result_def
          intro!: released_metric released_failed_start)
  qed
qed

text \<open>Whatever fails on the way, a speed test returns a result for the tested configuration
  and gives back everything it took: the processes it started are reaped, its files are removed,
  and no other process, file, log entry or part of the program state has changed.\<close>

theorem TestSpeed_releases:
  assumes "fresh_files s" and "TestSpeedWithStability E cfg port sz n s = (r, s')"
  shows "tr_Config r = cfg \<and> 0 \<le> tr_StabilityScore r \<and> files s' = files s \<and> live s' = live s \<and>
         take (length (procs s)) (procs s') = procs s \<and>
         access_log s' = access_log s \<and> sys.more s' = sys.more s"
  using TestSpeed_released [OF assms] released_live [of s s'] by (auto simp: released_def)

definition calm_env :: env where
  "calm_env =
     \<lparr>e_start = (\<lambda>_. Spawned), e_polls = (\<lambda>_. [True]),
      e_download = (\<lambda>_. DownloadBody 4000000 None 2),
      e_probe = (\<lambda>_. ProbeResponse 200 ''200 OK'' ''192.0.2.7'' None), e_now = (\<lambda>n. 1000000000 * int n),
      e_fetch = (\<lambda>_. Inr []), e_sorted = (\<lambda>_. True), e_done = (\<lambda>_. False)\<rparr>"

definition empty_sys :: sys where
  "empty_sys =
     \<lparr>procs = [], files = [], file_seq = 0, mets = init_metrics, panicked = False, tick = 0,
      access_log = []\<rparr>"

lemma calm_answers:
  "probeExitIP calm_env s = (Inr ''192.0.2.7'', ticked s)"
  "e_start calm_env n = Spawned" "e_polls calm_env n = [True]" "e_now calm_env n = 1000000000 * int n"
  "DownloadMeasurer (e_download calm_env n) 4000000 = Inr 16"
proof -
  have "strings_TrimSpace ''192.0.2.7'' = ''192.0.2.7''" by code_simp
  then show "probeExitIP calm_env s = (Inr ''192.0.2.7'', ticked s)"
    by (simp add: probeExitIP_def ask_eq calm_env_def Let_def)
qed (simp_all add: calm_env_def DownloadMeasurer_def Let_def wrap64_def)

lemma TestSpeed_releases_witness:
  "\<exists>r s'. TestSpeedWithStability calm_env sample_config 40000 4000000 3 empty_sys = (r, s') \<and>
     tr_Speed r = 16 \<and> tr_StabilityScore r = 0 \<and> length (procs s') = 1 \<and>
     files s' = [] \<and> live s' = {}"
proof -
  obtain r s' where run: "TestSpeedWithStability calm_env sample_config 40000 4000000 3 empty_sys = (r, s')"
    by (metis surj_pair)
  have "fresh_files empty_sys" by (simp add: fresh_files_def empty_sys_def)
  note clean = TestSpeed_releases [OF this run]
  have "tr_Speed r = 16 \<and> tr_StabilityScore r = 0 \<and> length (procs s') = 1"
    using run
    by (auto simp: TestSpeedWithStability_def StartXray_def calm_answers Let_def observe_test_def
        test_body_def ask_eq measureStability_def numeral_3_eq_3 stabilityScoreFromIPs_def
        StopXray_def set_pstate_def remove_file_def empty_sys_def)
  moreover have "live empty_sys = {}" "files empty_sys = []" by (simp_all add: live_def empty_sys_def)
  ultimately show ?thesis using run clean by auto
qed

end
