(* ===== verification/Candidate.thy ===== *)
theory Candidate
  imports Tester
begin

text \<open>
  The pool of tested replacement candidates (candidate.go). The excluded map holds only true
  values, so it is the set of its keys. A TestResult is never mutated after it has been built,
  so List's copies are the values themselves.
\<close>

record CandidatePool =
  cp_candidates :: "TestResult list"
  cp_excluded :: "string set"
  cp_maxLen :: int

text \<open>make with a negative capacity panics: None.\<close>

definition NewCandidatePool :: "int \<Rightarrow> CandidatePool option" where
  "NewCandidatePool maxLen =
     (if maxLen < 0 then None
      else Some \<lparr>cp_candidates = [], cp_excluded = {}, cp_maxLen = maxLen\<rparr>)"

definition Update ::
    "((TestResult \<Rightarrow> TestResult \<Rightarrow> bool) \<Rightarrow> TestResult list \<Rightarrow> TestResult list) \<Rightarrow>
     TestResult list \<Rightarrow> CandidatePool \<Rightarrow> CandidatePool" where
  "Update srt results p =
     (let merged = srt result_less (cp_candidates p @ results)
      in p\<lparr>cp_candidates :=
             (if int (length merged) > cp_maxLen p then take (nat (cp_maxLen p)) merged else merged)\<rparr>)"

definition Exclude :: "string \<Rightarrow> CandidatePool \<Rightarrow> CandidatePool" where
  "Exclude rawURI p = p\<lparr>cp_excluded := insert rawURI (cp_excluded p)\<rparr>"

fun best_of :: "string set \<Rightarrow> TestResult list \<Rightarrow> TestResult option" where
  "best_of excluded [] = None"
| "best_of excluded (c # cs) =
     (if tr_Error c \<noteq> None then best_of excluded cs
      else if pc_Raw (tr_Config c) \<in> excluded then best_of excluded cs
      else Some c)"

definition Best :: "CandidatePool \<Rightarrow> TestResult option" where
  "Best p = best_of (cp_excluded p) (cp_candidates p)"

definition CandidatePool_List :: "CandidatePool \<Rightarrow> TestResult list" where
  "CandidatePool_List p = cp_candidates p"

definition CandidatePool_Len :: "CandidatePool \<Rightarrow> int" where
  "CandidatePool_Len p = int (length (cp_candidates p))"

section \<open>Properties\<close>

definition pool_ok :: "CandidatePool \<Rightarrow> bool" where
  "pool_ok p \<longleftrightarrow> 0 \<le> cp_maxLen p \<and> int (length (cp_candidates p)) \<le> cp_maxLen p \<and>
     ranked (cp_candidates p)"

lemma pool_ok_new: "NewCandidatePool n = Some p \<Longrightarrow> pool_ok p"
  by (auto simp: NewCandidatePool_def pool_ok_def ranked_def split: if_splits)

lemma pool_ok_Exclude: "pool_ok p \<Longrightarrow> pool_ok (Exclude r p)"
  by (simp add: pool_ok_def Exclude_def)

lemma ranked_take: "ranked rs \<Longrightarrow> ranked (take n rs)"
  by (simp add: ranked_def)

text \<open>C37. Update keeps the pool bounded and ranked, keeps the exclusions, and loses nothing it
  should keep: kept and dropped entries together are the old and new ones, entries are dropped only
  when the pool is full, and no dropped entry ranks above a kept one.\<close>

theorem Update_correct:
  assumes "slice_sorter srt" and "0 \<le> cp_maxLen p"
  shows "pool_ok (Update srt results p) \<and>
         cp_excluded (Update srt results p) = cp_excluded p \<and>
         (\<exists>dropped. mset (cp_candidates (Update srt results p)) + mset dropped =
                      mset (cp_candidates p) + mset results \<and>
            (dropped \<noteq> [] \<longrightarrow> int (length (cp_candidates (Update srt results p))) = cp_maxLen p) \<and>
            (\<forall>k \<in> set (cp_candidates (Update srt results p)). \<forall>d \<in> set dropped. \<not> result_less d k))"
proof -
  let ?m = "srt result_less (cp_candidates p @ results)"
  let ?n = "nat (cp_maxLen p)"
  have eq: "cp_candidates (Update srt results p) = take ?n ?m"
    using assms(2) by (auto simp: Update_def Let_def)
  have "ranked ?m"
    using slice_sorter.sort_ordered [OF assms(1) strict_weak_result_less] by (simp add: sorted_ranked)
  then have "ranked (take ?n ?m)" by (rule ranked_take)
  moreover have "mset (take ?n ?m) + mset (drop ?n ?m) = mset (cp_candidates p) + mset results"
    using slice_sorter.sort_perm [OF assms(1) strict_weak_result_less, of "cp_candidates p @ results"]
    by (metis append_take_drop_id mset_append)
  moreover have "\<forall>k \<in> set (take ?n ?m). \<forall>d \<in> set (drop ?n ?m). \<not> result_less d k"
    using slice_sorter.sort_prefix_best [OF assms(1) strict_weak_result_less] by blast
  moreover have "drop ?n ?m \<noteq> [] \<longrightarrow> int (length (take ?n ?m)) = cp_maxLen p"
    using assms(2) by auto
  moreover have "cp_maxLen (Update srt results p) = cp_maxLen p"
      "cp_excluded (Update srt results p) = cp_excluded p"
    by (simp_all add: Update_def Let_def)
  ultimately show ?thesis
    unfolding pool_ok_def eq using assms(2) by (intro conjI exI [of _ "drop ?n ?m"]) auto
qed

lemma best_of_Some:
  assumes "best_of ex cs = Some c"
  shows "\<exists>i < length cs. c = cs ! i \<and> tr_Error c = None \<and> pc_Raw (tr_Config c) \<notin> ex \<and>
           (\<forall>j < i. tr_Error (cs ! j) \<noteq> None \<or> pc_Raw (tr_Config (cs ! j)) \<in> ex)"
  using assms
proof (induction cs)
  case (Cons d ds)
  show ?case
  proof (cases "tr_Error d \<noteq> None \<or> pc_Raw (tr_Config d) \<in> ex")
    case True
    with Cons.prems have "best_of ex ds = Some c" by (auto split: if_splits)
    from Cons.IH [OF this] obtain i where "i < length ds" "c = ds ! i" "tr_Error c = None"
      "pc_Raw (tr_Config c) \<notin> ex" and
      "\<forall>j < i. tr_Error (ds ! j) \<noteq> None \<or> pc_Raw (tr_Config (ds ! j)) \<in> ex"
      by blast
    with True show ?thesis
      by (intro exI [of _ "Suc i"]) (auto simp: less_Suc_eq_0_disj)
  next
    case False
    with Cons.prems show ?thesis by (intro exI [of _ 0]) auto
  qed
qed simp

lemma best_of_None:
  "best_of ex cs = None \<longleftrightarrow> (\<forall>c \<in> set cs. tr_Error c \<noteq> None \<or> pc_Raw (tr_Config c) \<in> ex)"
  by (induction cs) auto

text \<open>Best returns nothing exactly when every candidate failed or is excluded, and otherwise a
  successful, non-excluded candidate that is at least as fast as every other such candidate.\<close>

theorem Best_correct:
  assumes "pool_ok p"
  shows "(Best p = None \<longleftrightarrow>
            (\<forall>c \<in> set (cp_candidates p). tr_Error c \<noteq> None \<or> pc_Raw (tr_Config c) \<in> cp_excluded p)) \<and>
         (\<forall>c. Best p = Some c \<longrightarrow>
            c \<in> set (cp_candidates p) \<and> tr_Error c = None \<and> pc_Raw (tr_Config c) \<notin> cp_excluded p \<and>
            (\<forall>d \<in> set (cp_candidates p). tr_Error d = None \<longrightarrow> pc_Raw (tr_Config d) \<notin> cp_excluded p \<longrightarrow>
               tr_Speed d \<le> tr_Speed c))"
proof (rule conjI)
  show "Best p = None \<longleftrightarrow>
      (\<forall>c \<in> set (cp_candidates p). tr_Error c \<noteq> None \<or> pc_Raw (tr_Config c) \<in> cp_excluded p)"
    by (simp add: Best_def best_of_None)
  show "\<forall>c. Best p = Some c \<longrightarrow>
      c \<in> set (cp_candidates p) \<and> tr_Error c = None \<and> pc_Raw (tr_Config c) \<notin> cp_excluded p \<and>
      (\<forall>d \<in> set (cp_candidates p). tr_Error d = None \<longrightarrow> pc_Raw (tr_Config d) \<notin> cp_excluded p \<longrightarrow>
         tr_Speed d \<le> tr_Speed c)"
  proof (intro allI impI)
    fix c assume "Best p = Some c"
    then obtain i where i: "i < length (cp_candidates p)" "c = cp_candidates p ! i" "tr_Error c = None"
        "pc_Raw (tr_Config c) \<notin> cp_excluded p"
      and before: "\<forall>j < i. tr_Error (cp_candidates p ! j) \<noteq> None \<or>
                          pc_Raw (tr_Config (cp_candidates p ! j)) \<in> cp_excluded p"
      unfolding Best_def by (blast dest: best_of_Some)
    have "tr_Speed d \<le> tr_Speed c"
      if "d \<in> set (cp_candidates p)" "tr_Error d = None" "pc_Raw (tr_Config d) \<notin> cp_excluded p" for d
    proof -
      from that(1) obtain j where j: "j < length (cp_candidates p)" "d = cp_candidates p ! j"
        by (auto simp: in_set_conv_nth)
      with that before have "\<not> j < i" by auto
      then consider "j = i" | "i < j" by arith
      then show ?thesis
        using assms i j that(2) by cases (auto simp: pool_ok_def ranked_def)
    qed
    with i show "c \<in> set (cp_candidates p) \<and> tr_Error c = None \<and>
      pc_Raw (tr_Config c) \<notin> cp_excluded p \<and>
      (\<forall>d \<in> set (cp_candidates p). tr_Error d = None \<longrightarrow> pc_Raw (tr_Config d) \<notin> cp_excluded p \<longrightarrow>
         tr_Speed d \<le> tr_Speed c)" by auto
  qed
qed

lemma Update_correct_witness:
  "\<exists>p. NewCandidatePool 50 = Some p \<and> pool_ok (Update insertion_sort drift_results p)"
proof -
  obtain p where p: "NewCandidatePool 50 = Some p" "cp_maxLen p = 50"
    by (simp add: NewCandidatePool_def)
  then have "0 \<le> cp_maxLen p" by simp
  from Update_correct [OF ins.slice_sorter_axioms this, of drift_results] p show ?thesis by blast
qed

lemma Best_correct_witness:
  "\<exists>c. Best \<lparr>cp_candidates = drift_results, cp_excluded = {''x''}, cp_maxLen = 50\<rparr> = Some c \<and>
       (\<forall>d \<in> set drift_results. tr_Speed d \<le> tr_Speed c)"
proof -
  let ?p = "\<lparr>cp_candidates = drift_results, cp_excluded = {''x''}, cp_maxLen = 50\<rparr>"
  have "pool_ok ?p"
    by (auto simp: pool_ok_def drift_results_def ranked_def nth_Cons')
  moreover obtain c where "Best ?p = Some c"
    by (simp add: Best_def drift_results_def sample_config_def)
  moreover have "\<forall>d \<in> set drift_results. tr_Error d = None \<and> pc_Raw (tr_Config d) \<notin> {''x''}"
    by (simp add: drift_results_def sample_config_def)
  ultimately show ?thesis using Best_correct [of ?p] by fastforce
qed

end
