(* ===== verification/Wan.thy ===== *)
theory Wan
  imports Candidate
begin

text \<open>
  The pool of WAN slots (wan.go) and the state of the whole program. The pool, the candidate
  pool, the cycle times of api.go and the trigger channel extend the system state, so every
  operation is a function on one record. Operations run one after the other here; where the code
  releases the slot's mutex between two critical sections, the sections are definitions of
  their own, so that interleavings can be stated.
\<close>

section \<open>Slots\<close>

datatype WANState = StateEmpty | StateTesting | StateActive | StateDraining

text \<open>The default branch is unreachable: WANState values are the four constants.\<close>

fun WANState_String :: "WANState \<Rightarrow> string" where
  "WANState_String StateEmpty = ''empty''"
| "WANState_String StateTesting = ''testing''"
| "WANState_String StateActive = ''active''"
| "WANState_String StateDraining = ''draining''"

text \<open>Times are nanoseconds; 0 is the zero Time.\<close>

record WANSlot =
  sIndex :: int
  sState :: WANState
  sConfig :: "ProxyConfig option"
  sCmd :: "cmd option"
  sConfigPath :: string
  sServicePort :: int
  sConnCount :: int
  sConsecutiveFails :: int
  sSpeedMbps :: real
  sStabilityScore :: int
  sDrainAt :: int
  sExitIP :: string
  sLastProbe :: int

record WANPool =
  Slots :: "WANSlot list"
  BasePort :: int

record world = sys +
  pool :: WANPool
  candidates :: "CandidatePool option"
  lastCycle :: int
  nextCycle :: int
  trigger :: bool
  sorted_txt :: "string list"

definition new_slot :: "int \<Rightarrow> int \<Rightarrow> WANSlot" where
  "new_slot i port =
     \<lparr>sIndex = i, sState = StateEmpty, sConfig = None, sCmd = None, sConfigPath = [],
      sServicePort = port, sConnCount = 0, sConsecutiveFails = 0, sSpeedMbps = 0,
      sStabilityScore = 0, sDrainAt = 0, sExitIP = [], sLastProbe = 0\<rparr>"

definition NewWANPool :: "int \<Rightarrow> int \<Rightarrow> WANPool option" where
  "NewWANPool n basePort =
     (if n < 0 then None
      else Some \<lparr>Slots = map (\<lambda>i. new_slot (int i) (basePort + int i)) [0..<nat n], BasePort = basePort\<rparr>)"

text \<open>Access to the slots of the pool by Go index.\<close>

definition slot_count :: "world \<Rightarrow> int" where
  "slot_count w = int (length (Slots (pool w)))"

definition in_range :: "int \<Rightarrow> world \<Rightarrow> bool" where
  "in_range index w \<longleftrightarrow> \<not> (index < 0 \<or> index \<ge> slot_count w)"

definition slot_at :: "int \<Rightarrow> world \<Rightarrow> WANSlot" where
  "slot_at index w = Slots (pool w) ! nat index"

definition set_slot :: "int \<Rightarrow> WANSlot \<Rightarrow> world \<Rightarrow> world" where
  "set_slot index x w = w\<lparr>pool := (pool w)\<lparr>Slots := (Slots (pool w))[nat index := x]\<rparr>\<rparr>"

definition out_of_range :: goerror where
  "out_of_range = ErrText ''slot index out of range''"

section \<open>Transitions\<close>

definition StartTesting :: "int \<Rightarrow> ProxyConfig \<Rightarrow> world \<Rightarrow> goerror option \<times> world" where
  "StartTesting index cfg w =
     (if \<not> in_range index w then (Some out_of_range, w)
      else let slot = slot_at index w
           in if sState slot \<noteq> StateEmpty then (Some (ErrText ''slot is not empty''), w)
              else (None, set_slot index (slot\<lparr>sState := StateTesting, sConfig := Some cfg\<rparr>) w))"

definition SetActive :: "int \<Rightarrow> cmd option \<Rightarrow> string \<Rightarrow> world \<Rightarrow> goerror option \<times> world" where
  "SetActive index c configPath w =
     (if \<not> in_range index w then (Some out_of_range, w)
      else let slot = slot_at index w
           in if sState slot \<noteq> StateTesting then (Some (ErrText ''slot is not in testing state''), w)
              else (None, set_slot index
                      (slot\<lparr>sState := StateActive, sCmd := c, sConfigPath := configPath\<rparr>) w))"

definition MarkDraining :: "env \<Rightarrow> int \<Rightarrow> world \<Rightarrow> goerror option \<times> world" where
  "MarkDraining E index w =
     (if \<not> in_range index w then (Some out_of_range, w)
      else let slot = slot_at index w
           in if sState slot \<noteq> StateActive then (Some (ErrText ''slot is not active''), w)
              else (None, set_slot index
                      (slot\<lparr>sState := StateDraining, sDrainAt := e_now E (tick w)\<rparr>) w))"

text \<open>
  ResetEmpty reads the process under the lock, stops it without the lock, and clears the slot
  in a second critical section.
\<close>

definition reset_read :: "int \<Rightarrow> world \<Rightarrow> cmd option \<times> string" where
  "reset_read index w = (sCmd (slot_at index w), sConfigPath (slot_at index w))"

definition reset_stop :: "cmd option \<times> string \<Rightarrow> world \<Rightarrow> world" where
  "reset_stop h w = (case fst h of None \<Rightarrow> w | Some c \<Rightarrow> StopXray (fst h) (snd h) w)"

definition cleared :: "WANSlot \<Rightarrow> WANSlot" where
  "cleared slot =
     slot\<lparr>sState := StateEmpty, sConfig := None, sCmd := None, sConfigPath := [], sConnCount := 0,
          sConsecutiveFails := 0, sSpeedMbps := 0, sStabilityScore := 0, sDrainAt := 0,
          sExitIP := [], sLastProbe := 0\<rparr>"

definition reset_clear :: "int \<Rightarrow> world \<Rightarrow> world" where
  "reset_clear index w = set_slot index (cleared (slot_at index w)) w"

definition ResetEmpty :: "int \<Rightarrow> world \<Rightarrow> goerror option \<times> world" where
  "ResetEmpty index w =
     (if \<not> in_range index w then (Some out_of_range, w)
      else (None, reset_clear index (reset_stop (reset_read index w) w)))"

section \<open>Queries\<close>

definition GetState :: "int \<Rightarrow> world \<Rightarrow> WANState" where
  "GetState index w = (if \<not> in_range index w then StateEmpty else sState (slot_at index w))"

definition slots_where :: "(WANSlot \<Rightarrow> bool) \<Rightarrow> world \<Rightarrow> int list" where
  "slots_where P w = map int (filter (\<lambda>i. P (Slots (pool w) ! i)) [0..<length (Slots (pool w))])"

definition count_where :: "(WANSlot \<Rightarrow> bool) \<Rightarrow> world \<Rightarrow> int" where
  "count_where P w = int (length (filter P (Slots (pool w))))"

definition GetSlotsByState :: "WANState list \<Rightarrow> world \<Rightarrow> int list" where
  "GetSlotsByState states = slots_where (\<lambda>slot. sState slot \<in> set states)"

definition serving :: "WANSlot \<Rightarrow> bool" where
  "serving slot \<longleftrightarrow> sState slot = StateActive \<or> sState slot = StateDraining"

definition ActiveCount :: "world \<Rightarrow> int" where
  "ActiveCount = count_where serving"

definition HasServerPort :: "string \<Rightarrow> int \<Rightarrow> world \<Rightarrow> bool" where
  "HasServerPort server port w =
     list_ex (\<lambda>slot. serving slot \<and>
        (case sConfig slot of None \<Rightarrow> False | Some cfg \<Rightarrow> pc_Server cfg = server \<and> pc_Port cfg = port))
       (Slots (pool w))"

definition HealthyActiveCount :: "int list \<Rightarrow> world \<Rightarrow> int" where
  "HealthyActiveCount thresholds w =
     (case thresholds of
        t # _ \<Rightarrow> count_where (\<lambda>slot. serving slot \<and> sConsecutiveFails slot < t) w
      | [] \<Rightarrow> count_where (\<lambda>slot. serving slot \<and> HealthCheckXray (sCmd slot) w) w)"

definition DefaultFailThreshold :: int where
  "DefaultFailThreshold = 2"

definition routable :: "int \<Rightarrow> WANSlot \<Rightarrow> bool" where
  "routable threshold slot \<longleftrightarrow>
     serving slot \<and> sConsecutiveFails slot < threshold \<and> sCmd slot \<noteq> None"

definition RoutableCount :: "int \<Rightarrow> world \<Rightarrow> int" where
  "RoutableCount threshold = count_where (routable threshold)"

text \<open>One pass of GetLeastLoaded over the slots, from index i on.\<close>

fun least_pass :: "(WANSlot \<Rightarrow> bool) \<Rightarrow> int \<Rightarrow> WANSlot list \<Rightarrow> int \<times> int \<Rightarrow> int \<times> int" where
  "least_pass P i [] acc = acc"
| "least_pass P i (slot # slots) (best, bestCount) =
     least_pass P (i + 1) slots
       (if P slot \<and> (best = -1 \<or> sConnCount slot < bestCount) then (i, sConnCount slot)
        else (best, bestCount))"

definition GetLeastLoaded :: "int list \<Rightarrow> world \<Rightarrow> int" where
  "GetLeastLoaded thresholds w =
     (let threshold = (case thresholds of [] \<Rightarrow> DefaultFailThreshold | t # _ \<Rightarrow> t);
          first = least_pass (routable threshold) 0 (Slots (pool w)) (-1, -1)
      in if fst first \<noteq> -1 then fst first
         else fst (least_pass serving 0 (Slots (pool w)) first))"

definition SlotConsecutiveFails :: "int \<Rightarrow> world \<Rightarrow> int" where
  "SlotConsecutiveFails index w =
     (if \<not> in_range index w then 0 else sConsecutiveFails (slot_at index w))"

definition SlotSpeedMbps :: "int \<Rightarrow> world \<Rightarrow> real" where
  "SlotSpeedMbps index w = (if \<not> in_range index w then 0 else sSpeedMbps (slot_at index w))"

definition SlotStabilityScore :: "int \<Rightarrow> world \<Rightarrow> int" where
  "SlotStabilityScore index w = (if \<not> in_range index w then 0 else sStabilityScore (slot_at index w))"

definition PickReplacementSlot :: "int list \<Rightarrow> world \<Rightarrow> int" where
  "PickReplacementSlot activeSlots w =
     (case activeSlots of
        [] \<Rightarrow> -1
      | s # ss \<Rightarrow>
          foldl (\<lambda>best idx. if SlotStabilityScore idx w > SlotStabilityScore best w then idx else best)
            s ss)"

definition DrainExpired :: "env \<Rightarrow> int \<Rightarrow> world \<Rightarrow> int list" where
  "DrainExpired E graceDuration w =
     (let now = e_now E (tick w)
      in slots_where (\<lambda>slot. sState slot = StateDraining \<and> sDrainAt slot \<noteq> 0 \<and>
           saturate64 (now - sDrainAt slot) \<ge> graceDuration) w)"

section \<open>Updates of one field\<close>

definition RecordFailure :: "int \<Rightarrow> world \<Rightarrow> world" where
  "RecordFailure index w =
     (if \<not> in_range index w then w
      else let slot = slot_at index w
           in set_slot index (slot\<lparr>sConsecutiveFails := wrap64 (sConsecutiveFails slot + 1)\<rparr>) w)"

definition RecordSuccess :: "int \<Rightarrow> world \<Rightarrow> world" where
  "RecordSuccess index w =
     (if \<not> in_range index w then w else set_slot index ((slot_at index w)\<lparr>sConsecutiveFails := 0\<rparr>) w)"

definition SetSlotSpeedMbps :: "int \<Rightarrow> real \<Rightarrow> world \<Rightarrow> world" where
  "SetSlotSpeedMbps index speed w =
     (if \<not> in_range index w then w else set_slot index ((slot_at index w)\<lparr>sSpeedMbps := speed\<rparr>) w)"

definition SetSlotStability :: "int \<Rightarrow> int \<Rightarrow> world \<Rightarrow> world" where
  "SetSlotStability index score w =
     (if \<not> in_range index w then w
      else on_metric mx_WanStability mx_WanStability_update
             (Metric_Set (real_of_int score) [strconv_Itoa index])
             (set_slot index ((slot_at index w)\<lparr>sStabilityScore := score\<rparr>) w))"

definition IncConnCount :: "int \<Rightarrow> world \<Rightarrow> world" where
  "IncConnCount index w =
     (if \<not> in_range index w then w
      else let slot = slot_at index w
           in set_slot index (slot\<lparr>sConnCount := wrap64 (sConnCount slot + 1)\<rparr>) w)"

definition DecConnCount :: "int \<Rightarrow> world \<Rightarrow> world" where
  "DecConnCount index w =
     (if \<not> in_range index w then w
      else let slot = slot_at index w
           in set_slot index (slot\<lparr>sConnCount := wrap64 (sConnCount slot - 1)\<rparr>) w)"

section \<open>Operations on the whole pool\<close>

text \<open>The health check reads each slot when its turn comes and resets it at once when it fails.\<close>

fun health_loop :: "nat list \<Rightarrow> world \<Rightarrow> int list \<times> world" where
  "health_loop [] w = ([], w)"
| "health_loop (i # is) w =
     (let slot = Slots (pool w) ! i
      in if serving slot \<and> \<not> HealthCheckXray (sCmd slot) w
         then (case health_loop is (snd (ResetEmpty (int i) w)) of (res, w') \<Rightarrow> (int i # res, w'))
         else health_loop is w)"

definition HealthCheckAll :: "world \<Rightarrow> int list \<times> world" where
  "HealthCheckAll w = health_loop [0..<length (Slots (pool w))] w"

definition drain_slot :: "env \<Rightarrow> world \<Rightarrow> nat \<Rightarrow> world" where
  "drain_slot E w i =
     (let slot = Slots (pool w) ! i
      in if sState slot = StateActive
         then set_slot (int i) (slot\<lparr>sState := StateDraining, sDrainAt := e_now E (tick w)\<rparr>) w
         else w)"

definition reset_all :: "int list \<Rightarrow> world \<Rightarrow> world" where
  "reset_all is w = foldl (\<lambda>w i. snd (ResetEmpty i w)) w is"

definition ShutdownAll :: "env \<Rightarrow> world \<Rightarrow> world" where
  "ShutdownAll E w =
     (let is = [0..<length (Slots (pool w))]
      in reset_all (map int is) (foldl (drain_slot E) w is))"

section \<open>Drop and replace\<close>

type_synonym tester = "ProxyConfig \<Rightarrow> int \<Rightarrow> int \<Rightarrow> int \<Rightarrow> world \<Rightarrow> TestResult option \<times> world"
type_synonym starter =
  "ProxyConfig \<Rightarrow> int \<Rightarrow> bool list \<Rightarrow> world \<Rightarrow> (cmd option \<times> string \<times> goerror option) \<times> world"

text \<open>
  The timeout and the download URL are arguments of network code that the answer streams stand
  for; the candidate source is the program's candidate pool, which may be nil.
\<close>

record DropAndReplaceOptions =
  do_TestPort :: int
  do_DownloadSize :: int
  do_StabilityProbes :: int
  do_XrayMux :: bool
  do_TestCandidate :: "tester option"
  do_StartCandidate :: "starter option"

definition default_tester :: "env \<Rightarrow> tester" where
  "default_tester E cfg port sz probes w =
     (case TestSpeedWithStability E cfg port sz probes w of (r, w') \<Rightarrow> (Some r, w'))"

definition test_candidate :: "env \<Rightarrow> DropAndReplaceOptions \<Rightarrow> tester" where
  "test_candidate E opts = (case do_TestCandidate opts of None \<Rightarrow> default_tester E | Some f \<Rightarrow> f)"

definition start_candidate :: "env \<Rightarrow> DropAndReplaceOptions \<Rightarrow> starter" where
  "start_candidate E opts = (case do_StartCandidate opts of None \<Rightarrow> StartXray E | Some f \<Rightarrow> f)"

definition exclude_current :: "int \<Rightarrow> world \<Rightarrow> world" where
  "exclude_current index w =
     (case (candidates w, sConfig (slot_at index w)) of
        (Some cp, Some cfg) \<Rightarrow> if pc_Raw cfg \<noteq> [] then w\<lparr>candidates := Some (Exclude (pc_Raw cfg) cp)\<rparr> else w
      | _ \<Rightarrow> w)"

text \<open>The promotion of a tested candidate, from StartTesting to the end of DropAndReplace.\<close>

definition promote_candidate ::
    "env \<Rightarrow> DropAndReplaceOptions \<Rightarrow> int \<Rightarrow> int \<Rightarrow> ProxyConfig \<Rightarrow> TestResult \<Rightarrow> world \<Rightarrow>
     (goerror + TestResult) \<times> world" where
  "promote_candidate E opts index servicePort cfg result w3 =
     (case StartTesting index cfg w3 of
        (Some e, w4) \<Rightarrow> (Inl (ErrWrap ''prepare replacement slot: '' e []), w4)
      | (None, w4) \<Rightarrow>
          (case start_candidate E opts cfg servicePort [do_XrayMux opts] w4 of
             ((c, path, Some e), w5) \<Rightarrow>
               (Inl (ErrWrap ''start replacement xray: '' e []), snd (ResetEmpty index w5))
           | ((c, path, None), w5) \<Rightarrow>
               (case SetActive index c path w5 of
                  (Some e, w6) \<Rightarrow>
                    (Inl (ErrWrap ''activate replacement slot: '' e []),
                     snd (ResetEmpty index (StopXray c path w6)))
                | (None, w6) \<Rightarrow>
                    (Inr result,
                     SetSlotStability index (tr_StabilityScore result)
                       (SetSlotSpeedMbps index (tr_Speed result) w6)))))"

definition DropAndReplace ::
    "env \<Rightarrow> DropAndReplaceOptions \<Rightarrow> int \<Rightarrow> world \<Rightarrow> (goerror + TestResult) \<times> world" where
  "DropAndReplace E opts index w =
     (if \<not> in_range index w then (Inl out_of_range, w)
      else
        let servicePort = sServicePort (slot_at index w);
            w1 = exclude_current index w
        in case ResetEmpty index w1 of
             (Some e, w2) \<Rightarrow> (Inl (ErrWrap ''drop WAN: '' e []), w2)
           | (None, w2) \<Rightarrow>
               (case candidates w2 of
                  None \<Rightarrow> (Inl ErrNoReplacementCandidate, w2)
                | Some cp \<Rightarrow>
                    (case Best cp of
                       None \<Rightarrow> (Inl ErrNoReplacementCandidate, w2)
                     | Some cand \<Rightarrow>
                         (case test_candidate E opts (tr_Config cand) (do_TestPort opts)
                                 (do_DownloadSize opts) (do_StabilityProbes opts) w2 of
                            (None, w3) \<Rightarrow> (Inl ErrReplacementTestFailed, w3)
                          | (Some result, w3) \<Rightarrow>
                              (case tr_Error result of
                                 Some e \<Rightarrow>
                                   (Inl (ErrWrap [] ErrReplacementTestFailed ('': '' @ error_text e)), w3)
                               | None \<Rightarrow>
                                   promote_candidate E opts index servicePort (tr_Config cand) result w3)))))"

section \<open>Frames\<close>

lemma set_slot_frame [simp, slot_frame]:
  "procs (set_slot i x w) = procs w" "files (set_slot i x w) = files w"
  "file_seq (set_slot i x w) = file_seq w" "tick (set_slot i x w) = tick w"
  "mets (set_slot i x w) = mets w" "access_log (set_slot i x w) = access_log w"
  "candidates (set_slot i x w) = candidates w" "slot_count (set_slot i x w) = slot_count w"
  "in_range j (set_slot i x w) = in_range j w" "BasePort (pool (set_slot i x w)) = BasePort (pool w)"
  "lastCycle (set_slot i x w) = lastCycle w" "nextCycle (set_slot i x w) = nextCycle w"
  "trigger (set_slot i x w) = trigger w"
  by (simp_all add: set_slot_def slot_count_def in_range_def)

lemma Slots_set_slot [slot_frame]: "Slots (pool (set_slot i x w)) = (Slots (pool w))[nat i := x]"
  by (simp add: set_slot_def)

lemma in_range_nat [simp]: "in_range (int k) w \<longleftrightarrow> k < length (Slots (pool w))"
  by (simp add: in_range_def slot_count_def not_le)

lemma slot_at_nat [simp]: "slot_at (int k) w = Slots (pool w) ! k"
  by (simp add: slot_at_def)

lemma in_rangeE:
  assumes "in_range i w"
  obtains k where "i = int k" and "k < length (Slots (pool w))"
  using assms unfolding in_range_def slot_count_def by (metis nat_0_le nat_less_iff not_less)

lemma ex_in_range: "(\<exists>i. in_range i w \<and> Q i) \<longleftrightarrow> (\<exists>k < length (Slots (pool w)). Q (int k))"
  by (metis in_rangeE in_range_nat)

lemma all_in_range: "(\<forall>i. in_range i w \<longrightarrow> Q i) \<longleftrightarrow> (\<forall>k < length (Slots (pool w)). Q (int k))"
  by (metis in_rangeE in_range_nat)

lemma slot_at_set_slot:
  "in_range i w \<Longrightarrow> in_range j w \<Longrightarrow> slot_at j (set_slot i x w) = (if j = i then x else slot_at j w)"
  by (elim in_rangeE) (simp add: Slots_set_slot)

lemma Slots_ResetEmpty:
  "Slots (pool (snd (ResetEmpty i w))) =
     (if in_range i w then (Slots (pool w))[nat i := cleared (slot_at i w)] else Slots (pool w))"
  by (simp add: ResetEmpty_def reset_clear_def reset_stop_def StopXray_def set_slot_def slot_at_def
      remove_file_def set_pstate_def Let_def split: option.split cmd.split)

lemma in_range_ResetEmpty [simp]: "in_range j (snd (ResetEmpty i w)) = in_range j w"
  by (simp add: in_range_def slot_count_def Slots_ResetEmpty)

lemma slot_at_ResetEmpty:
  "in_range i w \<Longrightarrow> in_range j w \<Longrightarrow>
     slot_at j (snd (ResetEmpty i w)) = (if j = i then cleared (slot_at j w) else slot_at j w)"
  by (elim in_rangeE) (simp add: Slots_ResetEmpty)

section \<open>Selection\<close>

text \<open>What one pass has found after n slots.\<close>

definition least_ok :: "(WANSlot \<Rightarrow> bool) \<Rightarrow> WANSlot list \<Rightarrow> nat \<Rightarrow> int \<times> int \<Rightarrow> bool" where
  "least_ok P xs n acc \<longleftrightarrow>
     (fst acc = -1 \<and> (\<forall>j < n. \<not> P (xs ! j))) \<or>
     (\<exists>k < n. fst acc = int k \<and> P (xs ! k) \<and> snd acc = sConnCount (xs ! k) \<and>
        (\<forall>j < n. P (xs ! j) \<longrightarrow>
           snd acc < sConnCount (xs ! j) \<or> (snd acc = sConnCount (xs ! j) \<and> k \<le> j)))"

lemma least_ok_step:
  assumes "least_ok P xs n (b, c)"
  shows "least_ok P xs (Suc n)
           (if P (xs ! n) \<and> (b = -1 \<or> sConnCount (xs ! n) < c) then (int n, sConnCount (xs ! n)) else (b, c))"
proof (cases "b = -1 \<and> (\<forall>j < n. \<not> P (xs ! j))")
  case True
  then show ?thesis by (auto simp: least_ok_def less_Suc_eq)
next
  case False
  then obtain k where "k < n" "b = int k" "P (xs ! k)" "c = sConnCount (xs ! k)"
      and "\<forall>j < n. P (xs ! j) \<longrightarrow> c < sConnCount (xs ! j) \<or> (c = sConnCount (xs ! j) \<and> k \<le> j)"
    using assms by (auto simp: least_ok_def)
  then show ?thesis by (auto simp: least_ok_def less_Suc_eq)
qed

lemma least_pass_ok:
  "least_ok P (us @ vs) (length us) acc \<Longrightarrow>
     least_ok P (us @ vs) (length (us @ vs)) (least_pass P (int (length us)) vs acc)"
proof (induction vs arbitrary: us acc)
  case (Cons v vs)
  obtain b c where acc: "acc = (b, c)" by fastforce
  have "least_ok P ((us @ [v]) @ vs) (length (us @ [v]))
      (if P v \<and> (b = -1 \<or> sConnCount v < c) then (int (length us), sConnCount v) else (b, c))"
    using least_ok_step [OF Cons.prems [unfolded acc], unfolded nth_append_length]
    unfolding append_assoc append_Cons append_Nil length_append_singleton .
  from Cons.IH [OF this] show ?case by (simp add: acc add.commute)
qed simp

lemma least_pass_full:
  "fst acc = -1 \<Longrightarrow> least_ok P xs (length xs) (least_pass P 0 xs acc)"
  using least_pass_ok [of P "[]" xs acc] by (simp add: least_ok_def)

lemma least_pass_none: "\<forall>x \<in> set xs. \<not> P x \<Longrightarrow> least_pass P i xs acc = acc"
  by (induction xs arbitrary: i acc) auto

text \<open>The least loaded of the slots with P, the lowest index among equals.\<close>

definition least_loaded_of :: "(WANSlot \<Rightarrow> bool) \<Rightarrow> world \<Rightarrow> int \<Rightarrow> bool" where
  "least_loaded_of P w i \<longleftrightarrow>
     in_range i w \<and> P (slot_at i w) \<and>
     (\<forall>j. in_range j w \<and> P (slot_at j w) \<longrightarrow>
        sConnCount (slot_at i w) < sConnCount (slot_at j w) \<or>
        (sConnCount (slot_at i w) = sConnCount (slot_at j w) \<and> i \<le> j))"

lemma least_ok_loaded:
  assumes "least_ok P (Slots (pool w)) (length (Slots (pool w))) acc"
  shows "if \<exists>j. in_range j w \<and> P (slot_at j w) then least_loaded_of P w (fst acc) else fst acc = -1"
proof (cases "fst acc = -1")
  case True
  with assms have "\<not> (\<exists>j. in_range j w \<and> P (slot_at j w))"
    by (auto simp: least_ok_def ex_in_range)
  with True show ?thesis by argo
next
  case False
  with assms obtain k where k: "k < length (Slots (pool w))" "fst acc = int k" "P (Slots (pool w) ! k)"
      and least: "\<forall>j < length (Slots (pool w)). P (Slots (pool w) ! j) \<longrightarrow>
           sConnCount (Slots (pool w) ! k) < sConnCount (Slots (pool w) ! j) \<or>
           (sConnCount (Slots (pool w) ! k) = sConnCount (Slots (pool w) ! j) \<and> k \<le> j)"
    by (auto simp: least_ok_def)
  then have "least_loaded_of P w (int k)"
    by (auto simp: least_loaded_of_def elim!: in_rangeE)
  with k show ?thesis by (auto simp: ex_in_range)
qed

lemma GetLeastLoaded_spec:
  "let t = (case ths of [] \<Rightarrow> DefaultFailThreshold | t # _ \<Rightarrow> t) in
   if \<exists>j. in_range j w \<and> routable t (slot_at j w)
   then least_loaded_of (routable t) w (GetLeastLoaded ths w)
   else if \<exists>j. in_range j w \<and> serving (slot_at j w)
   then least_loaded_of serving w (GetLeastLoaded ths w)
   else GetLeastLoaded ths w = -1"
proof -
  define t where "t = (case ths of [] \<Rightarrow> DefaultFailThreshold | t # _ \<Rightarrow> t)"
  define p where "p = least_pass (routable t) 0 (Slots (pool w)) (-1, -1)"
  have eq: "GetLeastLoaded ths w =
      (if fst p \<noteq> -1 then fst p else fst (least_pass serving 0 (Slots (pool w)) p))"
    by (simp add: GetLeastLoaded_def t_def p_def Let_def)
  have one: "if \<exists>j. in_range j w \<and> routable t (slot_at j w) then least_loaded_of (routable t) w (fst p)
      else fst p = -1"
    unfolding p_def by (intro least_ok_loaded least_pass_full) simp
  have ne: "least_loaded_of Q w i \<Longrightarrow> i \<noteq> -1" for Q i
    by (auto simp: least_loaded_of_def in_range_def)
  have two: "fst p = -1 \<Longrightarrow> if \<exists>j. in_range j w \<and> serving (slot_at j w)
      then least_loaded_of serving w (fst (least_pass serving 0 (Slots (pool w)) p))
      else fst (least_pass serving 0 (Slots (pool w)) p) = -1"
    by (intro least_ok_loaded least_pass_full)
  show ?thesis
    unfolding Let_def t_def [symmetric] eq using one two ne by (auto split: if_splits)
qed

lemma GetLeastLoaded_range:
  "0 \<le> GetLeastLoaded ths w \<Longrightarrow>
     in_range (GetLeastLoaded ths w) w \<and> serving (slot_at (GetLeastLoaded ths w) w)"
  using GetLeastLoaded_spec [of ths w]
  by (auto simp: Let_def least_loaded_of_def routable_def split: if_splits)

text \<open>C18. GetLeastLoaded returns the routable slot with the fewest connections (the lowest
  index among equals); when no slot is routable it falls back to the least loaded active or
  draining slot, whatever its failures; it returns -1 exactly when there is none.\<close>

theorem GetLeastLoaded_correct:
  "let t = (case ths of [] \<Rightarrow> DefaultFailThreshold | t # _ \<Rightarrow> t) in
   if \<exists>j. in_range j w \<and> routable t (slot_at j w)
   then least_loaded_of (routable t) w (GetLeastLoaded ths w)
   else if \<exists>j. in_range j w \<and> serving (slot_at j w)
   then least_loaded_of serving w (GetLeastLoaded ths w)
   else GetLeastLoaded ths w = -1"
  by (rule GetLeastLoaded_spec)

definition later_if_more :: "('a \<Rightarrow> int) \<Rightarrow> 'a \<Rightarrow> 'a \<Rightarrow> 'a" where
  "later_if_more f best x = (if f x > f best then x else best)"

lemma foldl_max_first:
  "\<exists>us vs. s # ss = us @ foldl (later_if_more f) s ss # vs \<and>
     (\<forall>x \<in> set us. f x < f (foldl (later_if_more f) s ss)) \<and>
     (\<forall>x \<in> set vs. f x \<le> f (foldl (later_if_more f) s ss))"
proof (induction ss arbitrary: s)
  case (Cons x xs)
  show ?case
  proof (cases "f s < f x")
    case True
    let ?b = "foldl (later_if_more f) x xs"
    obtain us vs where
      uv: "x # xs = us @ ?b # vs" "\<forall>y \<in> set us. f y < f ?b" "\<forall>y \<in> set vs. f y \<le> f ?b"
      using Cons.IH by blast
    have "foldl (later_if_more f) s (x # xs) = ?b" using True by (simp add: later_if_more_def)
    moreover have "f s < f ?b" using uv True by (cases us) auto
    ultimately show ?thesis
      using uv by (intro exI [of _ "s # us"] exI [of _ vs]) simp
  next
    case False
    let ?b = "foldl (later_if_more f) s xs"
    obtain us vs where
      uv: "s # xs = us @ ?b # vs" "\<forall>y \<in> set us. f y < f ?b" "\<forall>y \<in> set vs. f y \<le> f ?b"
      using Cons.IH by blast
    have b: "foldl (later_if_more f) s (x # xs) = ?b" using False by (simp add: later_if_more_def)
    show ?thesis
    proof (cases us)
      case Nil
      then have "?b = s" and "vs = xs" using uv(1) by auto
      with False uv(3) show ?thesis
        unfolding b by (intro exI [of _ "[]"] exI [of _ "x # xs"]) simp
    next
      case us: (Cons u us')
      then have "u = s" and xs: "xs = us' @ ?b # vs" using uv(1) by auto
      then have "f x < f ?b" using us False uv(2) by auto
      with us \<open>u = s\<close> xs uv(2,3) show ?thesis
        unfolding b by (intro exI [of _ "s # x # us'"] exI [of _ vs]) simp
    qed
  qed
qed (auto intro!: exI [of _ "[]"])

text \<open>PickReplacementSlot returns the first slot of the list that has the highest stability
  score, and -1 for the empty list.\<close>

theorem PickReplacementSlot_correct:
  "(activeSlots = [] \<and> PickReplacementSlot activeSlots w = -1) \<or>
   (\<exists>us vs. activeSlots = us @ PickReplacementSlot activeSlots w # vs \<and>
      list_all (\<lambda>i. SlotStabilityScore i w < SlotStabilityScore (PickReplacementSlot activeSlots w) w) us \<and>
      list_all (\<lambda>i. SlotStabilityScore i w \<le> SlotStabilityScore (PickReplacementSlot activeSlots w) w) vs)"
proof (cases activeSlots)
  case (Cons s ss)
  then have "PickReplacementSlot activeSlots w = foldl (later_if_more (\<lambda>i. SlotStabilityScore i w)) s ss"
    by (simp add: PickReplacementSlot_def later_if_more_def [abs_def])
  with foldl_max_first [of s ss "\<lambda>i. SlotStabilityScore i w"] Cons show ?thesis
    unfolding list_all_iff by metis
qed (simp add: PickReplacementSlot_def)

section \<open>The state machine of a slot\<close>

inductive slot_step :: "WANState \<Rightarrow> WANState \<Rightarrow> bool" where
  slot_test: "slot_step StateEmpty StateTesting"
| slot_activate: "slot_step StateTesting StateActive"
| slot_drain: "slot_step StateActive StateDraining"
| slot_reset: "slot_step st StateEmpty"

inductive_simps slot_step_from [simp]:
  "slot_step st StateTesting" "slot_step st StateActive" "slot_step st StateDraining"
  "slot_step st StateEmpty"

datatype pool_op =
    OpStartTesting int ProxyConfig
  | OpSetActive int "cmd option" string
  | OpMarkDraining int
  | OpResetEmpty int
  | OpFailure int
  | OpSuccess int
  | OpSpeed int real
  | OpStability int int
  | OpInc int
  | OpDec int

fun run_op :: "env \<Rightarrow> pool_op \<Rightarrow> world \<Rightarrow> goerror option \<times> world" where
  "run_op E (OpStartTesting i cfg) w = StartTesting i cfg w"
| "run_op E (OpSetActive i c path) w = SetActive i c path w"
| "run_op E (OpMarkDraining i) w = MarkDraining E i w"
| "run_op E (OpResetEmpty i) w = ResetEmpty i w"
| "run_op E (OpFailure i) w = (None, RecordFailure i w)"
| "run_op E (OpSuccess i) w = (None, RecordSuccess i w)"
| "run_op E (OpSpeed i v) w = (None, SetSlotSpeedMbps i v w)"
| "run_op E (OpStability i v) w = (None, SetSlotStability i v w)"
| "run_op E (OpInc i) w = (None, IncConnCount i w)"
| "run_op E (OpDec i) w = (None, DecConnCount i w)"

text \<open>What an operation requires, and the state it leads its slot to.\<close>

fun op_enabled :: "pool_op \<Rightarrow> world \<Rightarrow> bool" where
  "op_enabled (OpStartTesting i _) w \<longleftrightarrow> in_range i w \<and> GetState i w = StateEmpty"
| "op_enabled (OpSetActive i _ _) w \<longleftrightarrow> in_range i w \<and> GetState i w = StateTesting"
| "op_enabled (OpMarkDraining i) w \<longleftrightarrow> in_range i w \<and> GetState i w = StateActive"
| "op_enabled (OpResetEmpty i) w \<longleftrightarrow> in_range i w"
| "op_enabled _ w \<longleftrightarrow> True"

fun op_target :: "pool_op \<Rightarrow> (int \<times> WANState) option" where
  "op_target (OpStartTesting i _) = Some (i, StateTesting)"
| "op_target (OpSetActive i _ _) = Some (i, StateActive)"
| "op_target (OpMarkDraining i) = Some (i, StateDraining)"
| "op_target (OpResetEmpty i) = Some (i, StateEmpty)"
| "op_target _ = None"

lemma on_metric_pool [simp, slot_frame]:
  "pool (on_metric get upd f w) = pool w" "candidates (on_metric get upd f w) = candidates w"
  "slot_count (on_metric get upd f w) = slot_count w" "in_range i (on_metric get upd f w) = in_range i w"
  "slot_at i (on_metric get upd f w) = slot_at i w"
  by (simp_all add: on_metric_def slot_count_def in_range_def slot_at_def split: option.split)

lemma run_op_rejected: "\<not> op_enabled a w \<Longrightarrow> \<exists>e. run_op E a w = (Some e, w)"
  by (cases a) (auto simp: StartTesting_def SetActive_def MarkDraining_def ResetEmpty_def GetState_def
      Let_def)

lemma run_op_accepted: "op_enabled a w \<Longrightarrow> fst (run_op E a w) = None"
  by (cases a) (auto simp: StartTesting_def SetActive_def MarkDraining_def ResetEmpty_def GetState_def
      Let_def)

lemma GetState_set_slot:
  "in_range i w \<Longrightarrow> GetState j (set_slot i x w) = (if j = i then sState x else GetState j w)"
  by (auto simp: GetState_def slot_at_set_slot)

lemma GetState_ResetEmpty:
  "in_range i w \<Longrightarrow> GetState j (snd (ResetEmpty i w)) = (if j = i then StateEmpty else GetState j w)"
  by (auto simp: GetState_def slot_at_ResetEmpty cleared_def)

lemma GetState_on_metric [simp]: "GetState j (on_metric get upd f w) = GetState j w"
  by (simp add: GetState_def)

lemma GetState_field:
  "in_range i w \<Longrightarrow> sState x = sState (slot_at i w) \<Longrightarrow> GetState j (set_slot i x w) = GetState j w"
  by (simp add: GetState_def slot_at_set_slot)

lemma GetState_run_op:
  assumes "op_enabled a w"
  shows "GetState j (snd (run_op E a w)) =
     (case op_target a of None \<Rightarrow> GetState j w | Some (i, st) \<Rightarrow> if j = i then st else GetState j w)"
proof (cases a)
  case (OpResetEmpty i)
  with assms show ?thesis by (simp add: GetState_ResetEmpty)
qed (use assms in \<open>auto simp: StartTesting_def SetActive_def MarkDraining_def RecordFailure_def
    RecordSuccess_def SetSlotSpeedMbps_def SetSlotStability_def IncConnCount_def DecConnCount_def
    GetState_def slot_at_set_slot Let_def\<close>)

text \<open>C14. The slot state machine: an operation of the pool either is refused, with an error and
  the program state untouched, exactly when its slot is not where it must be; or it moves its own
  slot along one edge of empty, testing, active, draining, empty (reset leads to empty from
  anywhere) and leaves the state of every other slot alone.\<close>

theorem slot_state_machine:
  "case run_op E a w of (err, w') \<Rightarrow>
     (if op_enabled a w
      then err = None \<and>
           (\<forall>j. GetState j w' = (case op_target a of
                   Some (i, st) \<Rightarrow> if j = i then st else GetState j w
                 | None \<Rightarrow> GetState j w)) \<and>
           (case op_target a of None \<Rightarrow> True | Some (i, st) \<Rightarrow> slot_step (GetState i w) st)
      else err \<noteq> None \<and> w' = w)"
proof (cases "op_enabled a w")
  case True
  obtain err w' where run: "run_op E a w = (err, w')" by fastforce
  have "err = None" using run_op_accepted [OF True, of E] run by simp
  moreover have "GetState j w' = (case op_target a of
      Some (i, st) \<Rightarrow> if j = i then st else GetState j w | None \<Rightarrow> GetState j w)" for j
    using GetState_run_op [OF True, of j E] run by (simp split: option.splits)
  moreover have "case op_target a of None \<Rightarrow> True | Some (i, st) \<Rightarrow> slot_step (GetState i w) st"
    using True by (cases a) simp_all
  ultimately show ?thesis using run True by simp
next
  case False
  with run_op_rejected [OF False, of E] show ?thesis by auto
qed

section \<open>Connection counting\<close>

datatype conn_event = ConnBegin int | ConnEnd int | ConnReset int

text \<open>
  The interface between the relays and the pool: a counter per slot that goes up and down by one
  and is reset with the slot. Its client is the load balancer, which compares the counters.
\<close>

locale conn_counter =
  fixes begin_conn end_conn reset_conn :: "int \<Rightarrow> 'w \<Rightarrow> 'w"
    and load :: "int \<Rightarrow> 'w \<Rightarrow> int" and known :: "int \<Rightarrow> 'w \<Rightarrow> bool"
  assumes load_begin: "known j w \<Longrightarrow> load j (begin_conn i w) = (if i = j then wrap64 (load j w + 1) else load j w)"
    and load_end: "known j w \<Longrightarrow> load j (end_conn i w) = (if i = j then wrap64 (load j w - 1) else load j w)"
    and load_reset: "known j w \<Longrightarrow> load j (reset_conn i w) = (if i = j then 0 else load j w)"
    and known_begin: "known j (begin_conn i w) = known j w"
    and known_end: "known j (end_conn i w) = known j w"
    and known_reset: "known j (reset_conn i w) = known j w"
begin

primrec apply_event :: "conn_event \<Rightarrow> 'w \<Rightarrow> 'w" where
  "apply_event (ConnBegin i) w = begin_conn i w"
| "apply_event (ConnEnd i) w = end_conn i w"
| "apply_event (ConnReset i) w = reset_conn i w"

lemma known_fold: "known j (fold apply_event es w) = known j w"
proof (induction es arbitrary: w)
  case (Cons e es)
  then show ?case by (cases e) (simp_all add: known_begin known_end known_reset)
qed simp

lemma load_fold:
  "known j w \<Longrightarrow> ConnReset j \<notin> set es \<Longrightarrow>
     wrap64 (load j (fold apply_event es w)) =
       wrap64 (load j w + int (count_list es (ConnBegin j)) - int (count_list es (ConnEnd j)))"
proof (induction es arbitrary: w)
  case (Cons e es)
  have step: "known j (apply_event e w)"
    using Cons.prems(1) by (cases e) (simp_all add: known_begin known_end known_reset)
  have load: "wrap64 (load j (apply_event e w) + d) =
      wrap64 (load j w + d + (if e = ConnBegin j then 1 else 0) - (if e = ConnEnd j then 1 else 0))" for d
    using Cons.prems by (cases e) (auto simp: load_begin load_end load_reset algebra_simps)
  let ?d = "int (count_list es (ConnBegin j)) - int (count_list es (ConnEnd j))"
  have "wrap64 (load j (fold apply_event (e # es) w)) = wrap64 (load j (apply_event e w) + ?d)"
    using Cons.IH [OF step] Cons.prems(2) by (simp add: add_diff_eq)
  then show ?case unfolding load by (auto simp: algebra_simps)
qed simp

lemma load_since_reset:
  assumes "known j w" and "ConnReset j \<notin> set vs"
  shows "wrap64 (load j (fold apply_event (us @ ConnReset j # vs) w)) =
           wrap64 (int (count_list vs (ConnBegin j)) - int (count_list vs (ConnEnd j)))"
proof -
  have "known j (fold apply_event (us @ [ConnReset j]) w)"
    using assms(1) known_fold by blast
  from load_fold [OF this assms(2)]
  show ?thesis using assms(1) by (simp add: load_reset known_fold)
qed

end

definition load_of :: "int \<Rightarrow> world \<Rightarrow> int" where
  "load_of i w = sConnCount (slot_at i w)"

definition reset_slot :: "int \<Rightarrow> world \<Rightarrow> world" where
  "reset_slot i w = snd (ResetEmpty i w)"

interpretation wan: conn_counter IncConnCount DecConnCount reset_slot load_of in_range
proof
  fix i j :: int and w :: world
  assume j: "in_range j w"
  show "load_of j (IncConnCount i w) = (if i = j then wrap64 (load_of j w + 1) else load_of j w)"
    using j by (auto simp: load_of_def IncConnCount_def slot_at_set_slot Let_def)
  show "load_of j (DecConnCount i w) = (if i = j then wrap64 (load_of j w - 1) else load_of j w)"
    using j by (auto simp: load_of_def DecConnCount_def slot_at_set_slot Let_def)
  show "load_of j (reset_slot i w) = (if i = j then 0 else load_of j w)"
  proof (cases "in_range i w")
    case True
    with j show ?thesis by (auto simp: load_of_def reset_slot_def slot_at_ResetEmpty cleared_def)
  next
    case False
    with j show ?thesis by (auto simp: load_of_def reset_slot_def ResetEmpty_def)
  qed
next
  fix i j :: int and w :: world
  show "in_range j (IncConnCount i w) = in_range j w" "in_range j (DecConnCount i w) = in_range j w"
    "in_range j (reset_slot i w) = in_range j w"
    by (simp_all add: IncConnCount_def DecConnCount_def reset_slot_def Let_def)
qed

definition run_conn_events :: "conn_event list \<Rightarrow> world \<Rightarrow> world" where
  "run_conn_events = fold (\<lambda>e. case e of ConnBegin i \<Rightarrow> IncConnCount i | ConnEnd i \<Rightarrow> DecConnCount i
     | ConnReset i \<Rightarrow> reset_slot i)"

lemma run_conn_events_eq: "run_conn_events es w = fold wan.apply_event es w"
proof -
  have "(case e of ConnBegin i \<Rightarrow> IncConnCount i | ConnEnd i \<Rightarrow> DecConnCount i
      | ConnReset i \<Rightarrow> reset_slot i) = wan.apply_event e" for e
    by (cases e) (simp_all add: fun_eq_iff)
  then show ?thesis by (simp add: run_conn_events_def)
qed

text \<open>C34. Under every interleaving of connections beginning and ending on any slots and of slots
  being reset, a slot's counter is the number of connections begun less the number ended since the
  slot was last reset (modulo 2 to the 64). The counter can therefore go below zero: connections
  that were open at the reset still end.\<close>

theorem conn_accounting:
  assumes "in_range j w" and "ConnReset j \<notin> set vs"
  shows "wrap64 (load_of j (run_conn_events vs w)) =
           wrap64 (load_of j w + int (count_list vs (ConnBegin j)) - int (count_list vs (ConnEnd j))) \<and>
         wrap64 (load_of j (run_conn_events (us @ ConnReset j # vs) w)) =
           wrap64 (int (count_list vs (ConnBegin j)) - int (count_list vs (ConnEnd j)))"
  using wan.load_fold [OF assms] wan.load_since_reset [OF assms]
  by (simp_all add: run_conn_events_eq)

definition small_world :: world where
  "small_world =
     \<lparr>procs = [], files = [], file_seq = 0, mets = init_metrics, panicked = False, tick = 0,
      access_log = [], pool = \<lparr>Slots = [new_slot 0 2081, new_slot 1 2082], BasePort = 2081\<rparr>,
      candidates = None, lastCycle = 0, nextCycle = 0, trigger = False, sorted_txt = []\<rparr>"

text \<open>The counter of a slot that is reset while a connection is open ends at -1, and the load
  balancer then prefers the slot to an idle one.\<close>

lemma conn_accounting_witness:
  "load_of 1 (run_conn_events [ConnBegin 1, ConnReset 1, ConnEnd 1] small_world) = -1"
proof -
  have w: "in_range 1 small_world" by (simp add: in_range_def slot_count_def small_world_def)
  have "wrap64 (load_of 1 (run_conn_events [ConnBegin 1, ConnReset 1, ConnEnd 1] small_world)) = wrap64 (-1)"
    using conn_accounting [of 1 small_world "[ConnEnd 1]" "[ConnBegin 1]"] w by simp
  moreover have "load_of 1 (run_conn_events [ConnBegin 1, ConnReset 1, ConnEnd 1] small_world) =
      wrap64 (load_of 1 (run_conn_events [ConnBegin 1, ConnReset 1] small_world) - 1)"
    using w by (simp add: run_conn_events_eq wan.load_end wan.known_begin wan.known_reset)
  ultimately show ?thesis by (simp add: wrap64_def)
qed

end
