(* ===== verification/Ownership.thy ===== *)
theory Ownership
  imports Wan
begin

text \<open>
  Ownership of xray processes: the invariant that every process that has not been reaped and
  every configuration file on disk belongs to exactly one slot of the pool, that the process of a
  slot serves the slot's configuration on the slot's port, and that slots outside active and
  draining hold nothing. The operations of wan.go keep it.
\<close>

section \<open>The invariant\<close>

definition slot_pids :: "WANSlot \<Rightarrow> nat set" where
  "slot_pids slot = (case sCmd slot of Some (Cmd (Some pid)) \<Rightarrow> {pid} | _ \<Rightarrow> {})"

definition slot_paths :: "WANSlot \<Rightarrow> string set" where
  "slot_paths slot = (if sConfigPath slot = [] then {} else {sConfigPath slot})"

definition slot_ok :: "world \<Rightarrow> WANSlot \<Rightarrow> bool" where
  "slot_ok w slot \<longleftrightarrow>
     (case sState slot of
        StateEmpty \<Rightarrow> sConfig slot = None \<and> sCmd slot = None \<and> sConfigPath slot = []
      | StateTesting \<Rightarrow> sConfig slot \<noteq> None \<and> sCmd slot = None \<and> sConfigPath slot = []
      | _ \<Rightarrow> (\<exists>pid. sCmd slot = Some (Cmd (Some pid)) \<and> sConfigPath slot \<noteq> [] \<and>
               sConfig slot = Some (la_config (pr_launch (procs w ! pid))) \<and>
               sServicePort slot = la_port (pr_launch (procs w ! pid))))"

definition owned :: "world \<Rightarrow> bool" where
  "owned w \<longleftrightarrow>
     (\<forall>k < length (Slots (pool w)). slot_ok w (Slots (pool w) ! k) \<and>
        sIndex (Slots (pool w) ! k) = int k \<and> sServicePort (Slots (pool w) ! k) = BasePort (pool w) + int k) \<and>
     disjoint_family_on (\<lambda>k. slot_pids (Slots (pool w) ! k)) {..<length (Slots (pool w))} \<and>
     disjoint_family_on (\<lambda>k. slot_paths (Slots (pool w) ! k)) {..<length (Slots (pool w))} \<and>
     live w = (\<Union>k < length (Slots (pool w)). slot_pids (Slots (pool w) ! k)) \<and>
     fst ` set (files w) = (\<Union>k < length (Slots (pool w)). slot_paths (Slots (pool w) ! k)) \<and>
     fresh_files w"

lemma slot_ok_cong:
  assumes "slot_ok w slot" and "\<And>pid. pid \<in> slot_pids slot \<Longrightarrow> pr_launch (procs w' ! pid) = pr_launch (procs w ! pid)"
  shows "slot_ok w' slot"
  using assms unfolding slot_ok_def slot_pids_def by (cases "sState slot") auto

lemma slot_ok_idle:
  "slot_ok w slot \<Longrightarrow> sState slot = StateEmpty \<or> sState slot = StateTesting \<Longrightarrow>
     sCmd slot = None \<and> sConfigPath slot = [] \<and> slot_pids slot = {} \<and> slot_paths slot = {}"
  by (auto simp: slot_ok_def slot_pids_def slot_paths_def)

text \<open>The one lemma about an update of slot k; the operations below are instances of it.\<close>

lemma owned_update:
  assumes own: "owned w" and k: "k < length (Slots (pool w))"
    and slots: "Slots (pool w') = (Slots (pool w))[k := x]" and base: "BasePort (pool w') = BasePort (pool w)"
    and id: "sIndex x = sIndex (Slots (pool w) ! k)" "sServicePort x = sServicePort (Slots (pool w) ! k)"
    and live: "live w' = (live w - slot_pids (Slots (pool w) ! k)) \<union> slot_pids x"
    and files: "fst ` set (files w') = (fst ` set (files w) - slot_paths (Slots (pool w) ! k)) \<union> slot_paths x"
    and pids: "slot_pids x \<inter> live w \<subseteq> slot_pids (Slots (pool w) ! k)"
    and paths: "slot_paths x \<inter> fst ` set (files w) \<subseteq> slot_paths (Slots (pool w) ! k)"
    and ok: "slot_ok w' x" and fresh: "fresh_files w'"
    and launches: "\<And>pid. pid \<in> live w \<Longrightarrow> pid \<notin> slot_pids (Slots (pool w) ! k) \<Longrightarrow>
      pr_launch (procs w' ! pid) = pr_launch (procs w ! pid)"
  shows "owned w'"
proof -
  let ?S = "Slots (pool w)" and ?n = "length (Slots (pool w))"
  note own' = own [unfolded owned_def]
  have pids': "slot_pids (?S[k := x] ! j) = (if j = k then slot_pids x else slot_pids (?S ! j))"
    and paths': "slot_paths (?S[k := x] ! j) = (if j = k then slot_paths x else slot_paths (?S ! j))"
    if "j < ?n" for j
    using that k by simp_all
  have dpids: "disjoint_family_on (\<lambda>j. slot_pids (?S ! j)) {..<?n}"
    and dpaths: "disjoint_family_on (\<lambda>j. slot_paths (?S ! j)) {..<?n}"
    and eq: "live w = (\<Union>j < ?n. slot_pids (?S ! j))" "fst ` set (files w) = (\<Union>j < ?n. slot_paths (?S ! j))"
    using own' by blast+
  have "disjoint_family_on (\<lambda>j. slot_pids (?S[k := x] ! j)) {..<?n}"
    using disjoint_update [OF dpids, of "slot_pids x" k] k pids
    unfolding eq by (subst disjoint_family_cong [where B = "\<lambda>j. if j = k then slot_pids x else slot_pids (?S ! j)"])
      (auto simp: pids')
  moreover have "disjoint_family_on (\<lambda>j. slot_paths (?S[k := x] ! j)) {..<?n}"
    using disjoint_update [OF dpaths, of "slot_paths x" k] k paths
    unfolding eq by (subst disjoint_family_cong [where B = "\<lambda>j. if j = k then slot_paths x else slot_paths (?S ! j)"])
      (auto simp: paths')
  moreover have "live w' = (\<Union>j < ?n. slot_pids (?S[k := x] ! j))"
    using UN_update [OF dpids, of k "slot_pids x"] k by (simp add: live eq pids' cong: SUP_cong_simp)
  moreover have "fst ` set (files w') = (\<Union>j < ?n. slot_paths (?S[k := x] ! j))"
    using UN_update [OF dpaths, of k "slot_paths x"] k by (simp add: files eq paths' cong: SUP_cong_simp)
  moreover have "slot_ok w' (?S[k := x] ! j)" if j: "j < ?n" for j
  proof (cases "j = k")
    case False
    have "pid \<in> live w \<and> pid \<notin> slot_pids (?S ! k)" if "pid \<in> slot_pids (?S ! j)" for pid
      using dpids eq that j k False unfolding disjoint_family_on_def by blast
    with own' j launches False show ?thesis by (auto intro: slot_ok_cong [of w])
  qed (use ok k in simp)
  ultimately show ?thesis
    using own' fresh k id unfolding owned_def slots base by (auto simp: nth_list_update)
qed

section \<open>The operations of the pool keep it\<close>

lemma owned_fresh: "owned w \<Longrightarrow> fresh_files w"
  by (simp add: owned_def)

lemma slot_ok_procs: "procs w' = procs w \<Longrightarrow> slot_ok w' x = slot_ok w x"
  by (simp only: slot_ok_def)

lemma slot_ok_move:
  "slot_ok w x \<Longrightarrow> sState x = StateEmpty \<Longrightarrow> slot_ok w (x\<lparr>sState := StateTesting, sConfig := Some cfg\<rparr>)"
  "slot_ok w x \<Longrightarrow> sState x = StateActive \<Longrightarrow> slot_ok w (x\<lparr>sState := StateDraining, sDrainAt := t\<rparr>)"
  by (simp_all add: slot_ok_def)

lemma slot_ok_field:
  "slot_ok w y \<Longrightarrow> sState x = sState y \<Longrightarrow> sConfig x = sConfig y \<Longrightarrow> sCmd x = sCmd y \<Longrightarrow>
     sConfigPath x = sConfigPath y \<Longrightarrow> sServicePort x = sServicePort y \<Longrightarrow> slot_ok w x"
  by (simp only: slot_ok_def)

lemma more_world:
  assumes "sys.more w' = sys.more w"
  shows "pool w' = pool w" "candidates w' = candidates w" "lastCycle w' = lastCycle w"
    "nextCycle w' = nextCycle w" "trigger w' = trigger w" "sorted_txt w' = sorted_txt w"
  using assms by (cases w, cases w', simp)+

text \<open>Changes of the system around the pool.\<close>

lemma owned_outside:
  assumes own: "owned w" and pool: "pool w' = pool w" and live: "live w' = live w"
    and files: "fst ` set (files w') = fst ` set (files w)" and fresh: "fresh_files w'"
    and launches: "\<And>pid. pid \<in> live w \<Longrightarrow> pr_launch (procs w' ! pid) = pr_launch (procs w ! pid)"
  shows "owned w'"
proof -
  have "slot_ok w' (Slots (pool w) ! k)" if "k < length (Slots (pool w))" for k
  proof (rule slot_ok_cong [of w])
    show "slot_ok w (Slots (pool w) ! k)" using own that by (simp add: owned_def)
    fix pid assume "pid \<in> slot_pids (Slots (pool w) ! k)"
    then have "pid \<in> live w" using own that unfolding owned_def by blast
    then show "pr_launch (procs w' ! pid) = pr_launch (procs w ! pid)" by (rule launches)
  qed
  then show ?thesis
    using own unfolding owned_def pool live files by (simp add: fresh)
qed

lemma live_bound: "pid \<in> live w \<Longrightarrow> pid < length (procs w)"
  by (simp add: live_def)

lemma owned_released:
  assumes "owned w" and "released w w'"
  shows "owned w'"
proof (rule owned_outside [OF assms(1)])
  have rel: "\<exists>ps. procs w' = procs w @ ps" "files w' = files w" "sys.more w' = sys.more w"
    using assms(2) by (auto simp: released_def)
  show "pool w' = pool w" using more_world [OF rel(3)] by simp
  show "live w' = live w" using assms(2) by (rule released_live)
  show "fst ` set (files w') = fst ` set (files w)" using rel by simp
  show "fresh_files w'" using assms unfolding owned_def by (blast intro: released_fresh)
  fix pid assume "pid \<in> live w"
  then have "pid < length (procs w)" by (rule live_bound)
  with rel(1) show "pr_launch (procs w' ! pid) = pr_launch (procs w ! pid)"
    by (auto simp: nth_append)
qed

lemma owned_same:
  "owned w \<Longrightarrow> pool w' = pool w \<Longrightarrow> procs w' = procs w \<Longrightarrow> files w' = files w \<Longrightarrow>
     file_seq w' = file_seq w \<Longrightarrow> owned w'"
  using owned_fresh [of w] by (intro owned_outside [of w w']) (simp_all add: live_def fresh_files_def)

lemma owned_on_metric [intro]: "owned w \<Longrightarrow> owned (on_metric get upd f w)"
  by (rule owned_same) simp_all

lemma owned_ticked [intro]: "owned w \<Longrightarrow> owned (ticked w)"
  by (rule owned_same) (simp_all add: ticked_def)

text \<open>A child that dies on its own is still the slot's, until it is reaped.\<close>

lemma owned_proc_exits:
  assumes "owned w"
  shows "owned (proc_exits pid w)"
proof (rule owned_outside [OF assms])
  show "live (proc_exits pid w) = live w"
    by (auto simp: live_def proc_exits_def set_pstate_def nth_list_update)
  show "fresh_files (proc_exits pid w)"
    using owned_fresh [OF assms] by (simp add: fresh_files_def proc_exits_def set_pstate_def)
qed (simp_all add: proc_exits_def set_pstate_def nth_list_update live_def)

text \<open>Updates of a slot's fields other than its process and its file.\<close>

lemma owned_set_slot:
  assumes own: "owned w" and i: "in_range i w" and ok: "slot_ok w x"
    and same: "sCmd x = sCmd (slot_at i w)" "sConfigPath x = sConfigPath (slot_at i w)"
      "sIndex x = sIndex (slot_at i w)" "sServicePort x = sServicePort (slot_at i w)"
  shows "owned (set_slot i x w)"
proof -
  obtain k where k: "i = int k" "k < length (Slots (pool w))" using i by (rule in_rangeE)
  have hold: "slot_pids x = slot_pids (Slots (pool w) ! k)" "slot_paths x = slot_paths (Slots (pool w) ! k)"
    using same k by (simp_all add: slot_pids_def slot_paths_def)
  have sub: "slot_pids (Slots (pool w) ! k) \<subseteq> live w" "slot_paths (Slots (pool w) ! k) \<subseteq> fst ` set (files w)"
    using own k unfolding owned_def by blast+
  show ?thesis
    by (rule owned_update [OF own k(2), where x = x])
      (use same k hold sub slot_ok_procs [of "set_slot i x w" w] ok owned_fresh [OF own] in
        \<open>auto simp: Slots_set_slot live_def fresh_files_def\<close>)
qed

lemma owned_slot_ok: "owned w \<Longrightarrow> in_range i w \<Longrightarrow> slot_ok w (slot_at i w)"
  by (erule in_rangeE) (simp add: owned_def)

lemma owned_field:
  assumes "owned w" and "in_range i w" and "sState x = sState (slot_at i w)"
    "sConfig x = sConfig (slot_at i w)" "sCmd x = sCmd (slot_at i w)"
    "sConfigPath x = sConfigPath (slot_at i w)" "sIndex x = sIndex (slot_at i w)"
    "sServicePort x = sServicePort (slot_at i w)"
  shows "owned (set_slot i x w)"
  using assms slot_ok_field [OF owned_slot_ok [OF assms(1,2)] assms(3-6,8)] by (intro owned_set_slot)

lemma owned_fields [intro]:
  assumes "owned w"
  shows "owned (RecordFailure i w)" "owned (RecordSuccess i w)" "owned (SetSlotSpeedMbps i v w)"
    "owned (SetSlotStability i n w)" "owned (IncConnCount i w)" "owned (DecConnCount i w)"
  using assms
  by (auto simp: RecordFailure_def RecordSuccess_def SetSlotSpeedMbps_def SetSlotStability_def
      IncConnCount_def DecConnCount_def Let_def intro!: owned_field)

lemma owned_StartTesting:
  assumes "owned w"
  shows "owned (snd (StartTesting i cfg w))"
proof (cases "in_range i w \<and> sState (slot_at i w) = StateEmpty")
  case True
  with slot_ok_move(1) [OF owned_slot_ok [OF assms]] assms show ?thesis
    by (simp add: StartTesting_def Let_def owned_set_slot)
qed (use assms in \<open>auto simp: StartTesting_def Let_def\<close>)

lemma owned_MarkDraining:
  assumes "owned w"
  shows "owned (snd (MarkDraining E i w))"
proof (cases "in_range i w \<and> sState (slot_at i w) = StateActive")
  case True
  with slot_ok_move(2) [OF owned_slot_ok [OF assms]] assms show ?thesis
    by (simp add: MarkDraining_def Let_def owned_set_slot)
qed (use assms in \<open>auto simp: MarkDraining_def Let_def\<close>)

lemma live_Reaped: "live (set_pstate pid Reaped w) = live w - {pid}"
  by (auto simp: live_def set_pstate_def nth_list_update)

lemma slot_ok_cases:
  assumes "slot_ok w slot"
  obtains (idle) "sState slot = StateEmpty \<or> sState slot = StateTesting" "sCmd slot = None"
      "sConfigPath slot = []" "slot_pids slot = {}" "slot_paths slot = {}"
  | (serving) pid where "serving slot" "sCmd slot = Some (Cmd (Some pid))" "sConfigPath slot \<noteq> []"
      "slot_pids slot = {pid}" "slot_paths slot = {sConfigPath slot}"
      "sConfig slot = Some (la_config (pr_launch (procs w ! pid)))"
      "sServicePort slot = la_port (pr_launch (procs w ! pid))"
  using assms unfolding slot_ok_def slot_pids_def slot_paths_def serving_def
  by (cases "sState slot") auto

lemma launch_set_pstate [simp]: "pr_launch (procs (set_pstate pid st w) ! q) = pr_launch (procs w ! q)"
  by (cases "pid < length (procs w)"; cases "q = pid") (simp_all add: set_pstate_def)

lemma set_pstate_frame [simp]:
  "files (set_pstate pid st w) = files w" "file_seq (set_pstate pid st w) = file_seq w"
  "tick (set_pstate pid st w) = tick w" "access_log (set_pstate pid st w) = access_log w"
  "sys.more (set_pstate pid st w) = sys.more w" "mets (set_pstate pid st w) = mets w"
  "length (procs (set_pstate pid st w)) = length (procs w)"
  by (simp_all add: set_pstate_def)

lemma set_pstate_world [simp]:
  "pool (set_pstate pid st w) = pool w" "candidates (set_pstate pid st w) = candidates w"
  by (simp_all add: set_pstate_def)

lemma live_files_irrelevant [simp]: "live (w\<lparr>files := fs\<rparr>) = live w"
  by (simp add: live_def)

lemma ResetEmpty_parts:
  assumes "owned w" and "in_range i w"
  defines "w1 \<equiv> reset_stop (reset_read i w) w"
  shows "live w1 = live w - slot_pids (slot_at i w)"
    and "files w1 = filter (\<lambda>f. fst f \<notin> slot_paths (slot_at i w)) (files w)"
    and "pr_launch (procs w1 ! q) = pr_launch (procs w ! q)"
    and "file_seq w1 = file_seq w" and "pool w1 = pool w" and "candidates w1 = candidates w"
    and "tick w1 = tick w" and "access_log w1 = access_log w"
proof -
  have "slot_ok w (slot_at i w)" using assms(1,2) by (rule owned_slot_ok)
  then have "live w1 = live w - slot_pids (slot_at i w) \<and>
    files w1 = filter (\<lambda>f. fst f \<notin> slot_paths (slot_at i w)) (files w) \<and>
    pr_launch (procs w1 ! q) = pr_launch (procs w ! q) \<and>
    file_seq w1 = file_seq w \<and> pool w1 = pool w \<and> candidates w1 = candidates w \<and>
    tick w1 = tick w \<and> access_log w1 = access_log w"
  proof (cases rule: slot_ok_cases)
    case idle
    then have "w1 = w" by (simp add: w1_def reset_stop_def reset_read_def)
    with idle show ?thesis by simp
  next
    case (serving pid)
    then have w1: "w1 = (set_pstate pid Reaped w)\<lparr>files := filter (\<lambda>f. fst f \<noteq> sConfigPath (slot_at i w)) (files w)\<rparr>"
      by (simp add: w1_def reset_stop_def reset_read_def StopXray_def remove_file_def)
    show ?thesis
      unfolding w1 serving(4,5) by (simp add: live_Reaped)
  qed
  then show "live w1 = live w - slot_pids (slot_at i w)"
    "files w1 = filter (\<lambda>f. fst f \<notin> slot_paths (slot_at i w)) (files w)"
    "pr_launch (procs w1 ! q) = pr_launch (procs w ! q)"
    "file_seq w1 = file_seq w" "pool w1 = pool w" "candidates w1 = candidates w"
    "tick w1 = tick w" "access_log w1 = access_log w"
    by blast+
qed

lemma live_set_slot [simp]: "live (set_slot i x w) = live w"
  by (simp add: live_def)

lemma cleared_holds [simp]:
  "slot_pids (cleared x) = {}" "slot_paths (cleared x) = {}" "sState (cleared x) = StateEmpty"
  "sIndex (cleared x) = sIndex x" "sServicePort (cleared x) = sServicePort x"
  by (simp_all add: cleared_def slot_pids_def slot_paths_def)

lemma ResetEmpty_effect:
  assumes "owned w" and "in_range i w"
  shows "live (snd (ResetEmpty i w)) = live w - slot_pids (slot_at i w)"
    and "files (snd (ResetEmpty i w)) = filter (\<lambda>f. fst f \<notin> slot_paths (slot_at i w)) (files w)"
    and "pr_launch (procs (snd (ResetEmpty i w)) ! q) = pr_launch (procs w ! q)"
    and "file_seq (snd (ResetEmpty i w)) = file_seq w"
    and "BasePort (pool (snd (ResetEmpty i w))) = BasePort (pool w)"
    and "candidates (snd (ResetEmpty i w)) = candidates w"
    and "tick (snd (ResetEmpty i w)) = tick w" and "access_log (snd (ResetEmpty i w)) = access_log w"
  using ResetEmpty_parts [OF assms] assms(2) by (simp_all add: ResetEmpty_def reset_clear_def)

lemma owned_ResetEmpty:
  assumes own: "owned w"
  shows "owned (snd (ResetEmpty i w))"
proof (cases "in_range i w")
  case True
  then obtain k where k: "i = int k" "k < length (Slots (pool w))" by (rule in_rangeE)
  note eff = ResetEmpty_effect [OF own True]
  show ?thesis
  proof (rule owned_update [OF own k(2), where x = "cleared (Slots (pool w) ! k)"])
    show "Slots (pool (snd (ResetEmpty i w))) = (Slots (pool w))[k := cleared (Slots (pool w) ! k)]"
      using k by (simp add: Slots_ResetEmpty)
    show "slot_ok (snd (ResetEmpty i w)) (cleared (Slots (pool w) ! k))"
      by (simp add: slot_ok_def cleared_def)
    show "fresh_files (snd (ResetEmpty i w))"
      using owned_fresh [OF own] by (rule fresh_files_sub) (auto simp: eff)
  qed (use k eff in auto)
qed (use own in \<open>simp add: ResetEmpty_def\<close>)

lemma owned_reset_all: "owned w \<Longrightarrow> owned (reset_all is w)"
  by (induction "is" arbitrary: w) (simp_all add: reset_all_def owned_ResetEmpty)

lemma owned_health_loop: "owned w \<Longrightarrow> owned (snd (health_loop is w))"
proof (induction "is" arbitrary: w)
  case (Cons i "is")
  show ?case
    using Cons.IH [OF Cons.prems] Cons.IH [OF owned_ResetEmpty [OF Cons.prems]]
    by (simp add: Let_def case_prod_beta)
qed simp

lemma owned_HealthCheckAll: "owned w \<Longrightarrow> owned (snd (HealthCheckAll w))"
  by (simp add: HealthCheckAll_def owned_health_loop)

text \<open>
  In the sequential runs of the program the health check resets nothing: a serving slot always
  has a process that has not been reaped, and that is all that signal 0 tests.
\<close>

lemma HealthCheckAll_idle:
  assumes "owned w"
  shows "HealthCheckAll w = ([], w)"
proof -
  have "health_loop is w = ([], w)" if "set is \<subseteq> {..<length (Slots (pool w))}" for "is"
    using that
  proof (induction "is")
    case (Cons i "is")
    then have i: "i < length (Slots (pool w))" by simp
    then have "slot_ok w (Slots (pool w) ! i)" and sub: "slot_pids (Slots (pool w) ! i) \<subseteq> live w"
      using assms unfolding owned_def by auto
    then have "\<not> (serving (Slots (pool w) ! i) \<and> \<not> HealthCheckXray (sCmd (Slots (pool w) ! i)) w)"
    proof (cases rule: slot_ok_cases)
      case (serving pid)
      with sub show ?thesis by (simp add: HealthCheckXray_def live_def)
    qed (auto simp: serving_def)
    with Cons show ?case by (auto simp: Let_def)
  qed simp
  then show ?thesis unfolding HealthCheckAll_def by (simp add: lessThan_atLeast0)
qed

lemma drain_slot_owned: "owned w \<Longrightarrow> i < length (Slots (pool w)) \<Longrightarrow> owned (drain_slot E w i)"
  using owned_MarkDraining [of w E "int i"]
  by (simp add: drain_slot_def MarkDraining_def Let_def split: if_splits)

lemma drain_slot_length [simp]: "length (Slots (pool (drain_slot E w i))) = length (Slots (pool w))"
  by (simp add: drain_slot_def Slots_set_slot Let_def)

lemma drain_fold:
  "set is \<subseteq> {..<length (Slots (pool w))} \<Longrightarrow> owned w \<Longrightarrow>
     owned (foldl (drain_slot E) w is) \<and>
     length (Slots (pool (foldl (drain_slot E) w is))) = length (Slots (pool w))"
  by (induction "is" arbitrary: w) (simp_all add: drain_slot_owned)

lemma reset_all_state:
  "sState (Slots (pool w) ! k) = StateEmpty \<or> int k \<in> set is \<Longrightarrow> k < length (Slots (pool w)) \<Longrightarrow>
     sState (Slots (pool (reset_all is w)) ! k) = StateEmpty"
proof (induction "is" arbitrary: w)
  case (Cons i "is")
  have "sState (Slots (pool (snd (ResetEmpty i w))) ! k) = StateEmpty \<or> int k \<in> set is"
    using Cons.prems by (auto simp: Slots_ResetEmpty nth_list_update elim!: in_rangeE)
  moreover have "k < length (Slots (pool (snd (ResetEmpty i w))))"
    using Cons.prems(2) by (simp add: Slots_ResetEmpty)
  ultimately show ?case using Cons.IH unfolding reset_all_def by simp
qed (simp add: reset_all_def)

lemma reset_all_length [simp]: "length (Slots (pool (reset_all is w))) = length (Slots (pool w))"
  by (induction "is" arbitrary: w) (simp_all add: reset_all_def Slots_ResetEmpty)

lemma owned_all_empty:
  assumes own: "owned w" and empty: "\<forall>k < length (Slots (pool w)). sState (Slots (pool w) ! k) = StateEmpty"
  shows "live w = {} \<and> files w = []"
proof -
  have "slot_pids (Slots (pool w) ! k) = {} \<and> slot_paths (Slots (pool w) ! k) = {}"
    if "k < length (Slots (pool w))" for k
    using own empty that slot_ok_idle [of w "Slots (pool w) ! k"] unfolding owned_def by simp
  then have "live w = {}" "fst ` set (files w) = {}"
    using own unfolding owned_def by auto
  then show ?thesis by simp
qed

text \<open>After ShutdownAll every slot is empty, every xray process the program started has been
  reaped and no configuration file is left on disk.\<close>

theorem ShutdownAll_releases:
  assumes "owned w"
  shows "live (ShutdownAll E w) = {} \<and> files (ShutdownAll E w) = [] \<and>
         slot_count (ShutdownAll E w) = slot_count w \<and>
         ActiveCount (ShutdownAll E w) = 0 \<and>
         (\<forall>i. GetState i (ShutdownAll E w) = StateEmpty)"
proof -
  let ?n = "length (Slots (pool w))"
  let ?d = "foldl (drain_slot E) w [0..<?n]"
  have d: "owned ?d" "length (Slots (pool ?d)) = ?n"
    using drain_fold [of "[0..<?n]" w E] assms by (simp_all add: lessThan_atLeast0)
  define v where "v = ShutdownAll E w"
  have v: "v = reset_all (map int [0..<?n]) ?d" by (simp add: v_def ShutdownAll_def Let_def)
  have own: "owned v" unfolding v using d(1) by (rule owned_reset_all)
  have len: "length (Slots (pool v)) = ?n" by (simp add: v d)
  have empty: "\<forall>k < ?n. sState (Slots (pool v) ! k) = StateEmpty"
    unfolding v using d(2) by (intro allI impI reset_all_state) auto
  have "GetState i v = StateEmpty" for i
    using empty by (auto simp: GetState_def len elim!: in_rangeE)
  moreover have "ActiveCount v = 0"
    using empty len by (auto simp: ActiveCount_def count_where_def serving_def filter_empty_conv in_set_conv_nth)
  ultimately show ?thesis
    using owned_all_empty [OF own] empty len by (simp add: v_def [symmetric] slot_count_def)
qed

section \<open>Promotion\<close>

text \<open>What a successful start leaves: one new running process and one new file.\<close>

definition started :: "ProxyConfig \<Rightarrow> int \<Rightarrow> cmd option \<Rightarrow> string \<Rightarrow> world \<Rightarrow> world \<Rightarrow> bool" where
  "started cfg port c path w w' \<longleftrightarrow>
     c = Some (Cmd (Some (length (procs w)))) \<and> path = temp_name (file_seq w) \<and>
     (\<exists>mux. procs w' = procs w @ [\<lparr>pr_launch = \<lparr>la_config = cfg, la_port = port, la_mux = mux\<rparr>, pr_state = Running\<rparr>] \<and>
            files w' = (path, \<lparr>la_config = cfg, la_port = port, la_mux = mux\<rparr>) # files w) \<and>
     file_seq w' = Suc (file_seq w) \<and> access_log w' = access_log w \<and> sys.more w' = sys.more w"

text \<open>
  The interface between the pool and the process layer, which DropAndReplace takes as two function
  parameters: a test leaves nothing behind, and a start either leaves nothing behind or leaves
  exactly one process with its file.
\<close>

locale process_layer =
  fixes test :: tester and start :: starter
  assumes test_released: "fresh_files w \<Longrightarrow> test cfg port sz n w = (r, w') \<Longrightarrow> released w w'"
    and start_failed: "fresh_files w \<Longrightarrow> start cfg port mux w = ((c, path, Some e), w') \<Longrightarrow> released w w'"
    and start_started: "start cfg port mux w = ((c, path, None), w') \<Longrightarrow> started cfg port c path w w'"
begin

lemma test_owned: "owned w \<Longrightarrow> test cfg port sz n w = (r, w') \<Longrightarrow> owned w' \<and> sys.more w' = sys.more w"
  using test_released [of w cfg port sz n r w'] owned_released [of w w'] owned_fresh [of w]
  by (simp add: released_def)

lemma start_failed_owned:
  "owned w \<Longrightarrow> start cfg port mux w = ((c, path, Some e), w') \<Longrightarrow> owned w' \<and> sys.more w' = sys.more w"
  using start_failed [of w cfg port mux c path e w'] owned_released [of w w'] owned_fresh [of w]
  by (simp add: released_def)

end

interpretation xray: process_layer "default_tester E" "StartXray E"
proof
  fix w :: world and cfg port sz n r w'
  assume "fresh_files w" "default_tester E cfg port sz n w = (r, w')"
  then obtain q where "TestSpeedWithStability E cfg port sz n w = (q, w')"
    by (cases "TestSpeedWithStability E cfg port sz n w") (simp add: default_tester_def)
  with \<open>fresh_files w\<close> show "released w w'" using TestSpeed_released by blast
next
  fix w :: world and cfg port mux c path e w'
  assume "fresh_files w" "StartXray E cfg port mux w = ((c, path, Some e), w')"
  then show "released w w'" by (rule released_failed_start [rotated])
next
  fix w :: world and cfg port mux c path w'
  assume "StartXray E cfg port mux w = ((c, path, None), w')"
  then show "started cfg port c path w w'"
    using StartXray_starts [of E cfg port mux w c path w'] by (simp add: started_def)
qed

lemma started_live:
  assumes "started cfg port c path w w'"
  shows "live w' = insert (length (procs w)) (live w)" and "length (procs w) \<notin> live w"
  using assms by (auto simp: started_def live_def nth_append less_Suc_eq)

lemma owned_activate:
  assumes own: "owned w" and i: "in_range i w" and st: "sState (slot_at i w) = StateTesting"
    and cfg: "sConfig (slot_at i w) = Some cfg"
    and start: "started cfg (sServicePort (slot_at i w)) c path w w1"
  shows "owned (set_slot i ((slot_at i w)\<lparr>sState := StateActive, sCmd := c, sConfigPath := path\<rparr>) w1)"
proof -
  obtain k where k: "i = int k" "k < length (Slots (pool w))" using i by (rule in_rangeE)
  let ?x = "(slot_at i w)\<lparr>sState := StateActive, sCmd := c, sConfigPath := path\<rparr>"
  let ?w' = "set_slot i ?x w1"
  have pool: "pool w1 = pool w" using start more_world(1) by (auto simp: started_def)
  have idle: "slot_pids (Slots (pool w) ! k) = {}" "slot_paths (Slots (pool w) ! k) = {}"
    using slot_ok_idle [OF owned_slot_ok [OF own i]] st k by simp_all
  have new: "slot_pids ?x = {length (procs w)}" "slot_paths ?x = {temp_name (file_seq w)}"
    using start by (simp_all add: started_def slot_pids_def slot_paths_def)
  have nofile: "temp_name (file_seq w) \<notin> fst ` set (files w)"
    using owned_fresh [OF own] fresh_next by force
  obtain mux where mux: "procs w1 = procs w @ [\<lparr>pr_launch = \<lparr>la_config = cfg, la_port = sServicePort (slot_at i w),
      la_mux = mux\<rparr>, pr_state = Running\<rparr>]" "fst ` set (files w1) = insert path (fst ` set (files w))"
    using start by (auto simp: started_def)
  show ?thesis
  proof (rule owned_update [OF own k(2), where x = ?x])
    show "Slots (pool ?w') = (Slots (pool w))[k := ?x]" using k pool by (simp add: Slots_set_slot)
    show "live ?w' = live w - slot_pids (Slots (pool w) ! k) \<union> slot_pids ?x"
      using started_live [OF start] new idle by simp
    show "fst ` set (files ?w') = fst ` set (files w) - slot_paths (Slots (pool w) ! k) \<union> slot_paths ?x"
      using new idle start mux by (simp add: started_def)
    show "slot_pids ?x \<inter> live w \<subseteq> slot_pids (Slots (pool w) ! k)"
      using started_live [OF start] new by simp
    show "slot_paths ?x \<inter> fst ` set (files w) \<subseteq> slot_paths (Slots (pool w) ! k)"
      using nofile new by simp
    show "slot_ok ?w' ?x" using start cfg mux by (simp add: slot_ok_def started_def)
    show "fresh_files ?w'"
      using owned_fresh [OF own] start mux(2) unfolding started_def fresh_files_def by (auto simp: lessThan_Suc)
    fix pid assume "pid \<in> live w"
    then show "pr_launch (procs ?w' ! pid) = pr_launch (procs w ! pid)"
      using live_bound [of pid w] mux(1) by (simp add: nth_append)
  qed (use k pool in simp_all)
qed

context process_layer
begin

text \<open>Filling an empty slot, the sequence that DropAndReplace and the cycle share.\<close>

lemma promote_owned:
  assumes own: "owned w" and i: "in_range i w" and st: "sState (slot_at i w) = StateEmpty"
    and t: "StartTesting i cfg w = (err, w4)"
    and s: "start cfg (sServicePort (slot_at i w)) mux w4 = ((c, path, e), w5)"
  shows "err = None \<and> Slots (pool w5) = (Slots (pool w))[nat i := (slot_at i w)\<lparr>sState := StateTesting, sConfig := Some cfg\<rparr>] \<and>
    BasePort (pool w5) = BasePort (pool w) \<and> candidates w5 = candidates w \<and>
    (case e of
       Some _ \<Rightarrow> owned w5
     | None \<Rightarrow> fst (SetActive i c path w5) = None \<and> owned (snd (SetActive i c path w5)) \<and>
         candidates (snd (SetActive i c path w5)) = candidates w \<and>
         Slots (pool (snd (SetActive i c path w5))) = (Slots (pool w))[nat i :=
           (slot_at i w)\<lparr>sConfig := Some cfg, sState := StateActive, sCmd := c, sConfigPath := path\<rparr>])"
proof -
  let ?y = "(slot_at i w)\<lparr>sState := StateTesting, sConfig := Some cfg\<rparr>"
  have w4: "err = None" "w4 = set_slot i ?y w" using t st i by (simp_all add: StartTesting_def Let_def)
  have own4: "owned w4" using owned_StartTesting [OF own, of i cfg] t by simp
  have at4: "slot_at i w4 = ?y" using w4 i by (simp add: slot_at_set_slot)
  have more: "sys.more w5 = sys.more w4"
    using s start_failed_owned [OF own4] start_started by (cases e) (auto simp: started_def)
  note pool5 = more_world [OF more]
  have i5: "in_range i w5" using i w4 pool5 by (simp add: in_range_def slot_count_def Slots_set_slot)
  have at5: "slot_at i w5 = ?y" using at4 pool5 by (simp add: slot_at_def)
  show ?thesis
  proof (cases e)
    case (Some x)
    with s have "owned w5" using start_failed_owned [OF own4] by blast
    with Some w4 pool5 show ?thesis by (simp add: Slots_set_slot)
  next
    case None
    with s have st: "started cfg (sServicePort (slot_at i w4)) c path w4 w5"
      using start_started at4 by simp
    have i4: "in_range i w4" using i w4 by simp
    have act: "SetActive i c path w5 = (None, set_slot i (?y\<lparr>sState := StateActive, sCmd := c, sConfigPath := path\<rparr>) w5)"
      using i5 at5 by (simp add: SetActive_def)
    have "owned (snd (SetActive i c path w5))"
      using owned_activate [OF own4 i4 _ _ st] at4 act by simp
    with None w4 pool5 act i5 show ?thesis by (simp add: Slots_set_slot slot_at_set_slot)
  qed
qed

end

section \<open>Drop and replace\<close>

text \<open>The contract of a drop: the other slots are untouched, the dropped configuration is excluded,
  and the slot is cleared or serves the best candidate that is left.\<close>

definition replaced :: "int \<Rightarrow> world \<Rightarrow> world \<Rightarrow> goerror + TestResult \<Rightarrow> bool" where
  "replaced i w w' res \<longleftrightarrow>
     length (Slots (pool w')) = length (Slots (pool w)) \<and>
     (\<forall>k < length (Slots (pool w)). int k \<noteq> i \<longrightarrow> Slots (pool w') ! k = Slots (pool w) ! k) \<and>
     candidates w' = candidates (exclude_current i w) \<and>
     (case res of
        Inl e \<Rightarrow> slot_at i w' = cleared (slot_at i w)
      | Inr r \<Rightarrow> tr_Error r = None \<and>
          (\<exists>cp cand c path. candidates w' = Some cp \<and> Best cp = Some cand \<and>
             slot_at i w' = (cleared (slot_at i w))
               \<lparr>sConfig := Some (tr_Config cand), sState := StateActive, sCmd := c, sConfigPath := path,
                sSpeedMbps := tr_Speed r, sStabilityScore := tr_StabilityScore r\<rparr>))"

lemma cleared_cleared [simp]:
  "cleared (cleared x) = cleared x"
  "cleared (x\<lparr>sState := st, sConfig := c\<rparr>) = cleared x"
  by (simp_all add: cleared_def)

lemma exclude_current_frame [simp]:
  "procs (exclude_current i w) = procs w" "files (exclude_current i w) = files w"
  "file_seq (exclude_current i w) = file_seq w" "pool (exclude_current i w) = pool w"
  "access_log (exclude_current i w) = access_log w" "tick (exclude_current i w) = tick w"
  by (simp_all add: exclude_current_def split: option.split)

lemma exclude_current_pool [simp]:
  "slot_at j (exclude_current i w) = slot_at j w" "in_range j (exclude_current i w) = in_range j w"
  by (simp_all add: slot_at_def in_range_def slot_count_def)

lemma owned_exclude_current: "owned w \<Longrightarrow> owned (exclude_current i w)"
  by (rule owned_same) simp_all

context process_layer
begin

lemma promote_candidate_spec:
  assumes own: "owned w" and i: "in_range i w" and st: "sState (slot_at i w) = StateEmpty"
    and opts: "start_candidate E opts = start" and ok: "tr_Error r = None"
    and run: "promote_candidate E opts i (sServicePort (slot_at i w)) cfg r w = (res, w')"
  shows "owned w' \<and> candidates w' = candidates w \<and>
    (case res of
       Inl e \<Rightarrow> Slots (pool w') = (Slots (pool w))[nat i := cleared (slot_at i w)]
     | Inr q \<Rightarrow> q = r \<and> (\<exists>c path. Slots (pool w') = (Slots (pool w))[nat i := (slot_at i w)
         \<lparr>sConfig := Some cfg, sState := StateActive, sCmd := c, sConfigPath := path,
          sSpeedMbps := tr_Speed r, sStabilityScore := tr_StabilityScore r\<rparr>]))"
proof -
  obtain k where k: "i = int k" "k < length (Slots (pool w))" using i by (rule in_rangeE)
  obtain err w4 where test: "StartTesting i cfg w = (err, w4)" by fastforce
  obtain c path e w5 where s: "start cfg (sServicePort (slot_at i w)) [do_XrayMux opts] w4 = ((c, path, e), w5)"
    by (metis prod_cases3 surj_pair)
  note pr = promote_owned [OF own i st test s]
  show ?thesis
  proof (cases e)
    case (Some x)
    let ?y = "(slot_at i w)\<lparr>sState := StateTesting, sConfig := Some cfg\<rparr>"
    have w5: "owned w5" "Slots (pool w5) = (Slots (pool w))[k := ?y]" "candidates w5 = candidates w"
      using pr Some k by simp_all
    have i5: "in_range i w5" using k w5 by simp
    have at5: "slot_at i w5 = ?y" using k w5 by simp
    have res: "res = Inl (ErrWrap ''start replacement xray: '' x [])" "w' = snd (ResetEmpty i w5)"
      using run test s pr Some by (simp_all add: promote_candidate_def opts)
    show ?thesis
      using owned_ResetEmpty [OF w5(1)] ResetEmpty_effect(6) [OF w5(1) i5] w5 at5 i5 k
      by (simp add: res Slots_ResetEmpty)
  next
    case None
    let ?w6 = "snd (SetActive i c path w5)"
    let ?x = "(slot_at i w)\<lparr>sConfig := Some cfg, sState := StateActive, sCmd := c, sConfigPath := path\<rparr>"
    have w6: "owned ?w6" "Slots (pool ?w6) = (Slots (pool w))[k := ?x]" "candidates ?w6 = candidates w"
      and none: "fst (SetActive i c path w5) = None"
      using pr None k by simp_all
    have i6: "in_range i ?w6" using k w6 by simp
    have at6: "slot_at i ?w6 = ?x" using k w6 by simp
    have res: "res = Inr r" "w' = SetSlotStability i (tr_StabilityScore r) (SetSlotSpeedMbps i (tr_Speed r) ?w6)"
      using run test s pr None none
      by (simp_all add: promote_candidate_def opts prod_eq_iff case_prod_beta split: option.splits)
    have "owned w'" unfolding res using w6(1) by (intro owned_fields)
    moreover have "candidates w' = candidates w"
      unfolding res using w6(3) i6 by (simp add: SetSlotStability_def SetSlotSpeedMbps_def)
    moreover have "Slots (pool w') = (Slots (pool w))[k := ?x
        \<lparr>sSpeedMbps := tr_Speed r, sStabilityScore := tr_StabilityScore r\<rparr>]"
      unfolding res using i6 at6 w6(2) k
      by (simp add: SetSlotStability_def SetSlotSpeedMbps_def Slots_set_slot slot_at_set_slot)
    ultimately show ?thesis using k by (auto simp: res(1))
  qed
qed

lemma DropAndReplace_spec:
  assumes own: "owned w" and i: "in_range i w"
    and opts: "test_candidate E opts = test" "start_candidate E opts = start"
    and run: "DropAndReplace E opts i w = (res, w')"
  shows "owned w' \<and> replaced i w w' res"
proof -
  obtain k where k: "i = int k" "k < length (Slots (pool w))" using i by (rule in_rangeE)
  define w2 where "w2 = snd (ResetEmpty i (exclude_current i w))"
  have own1: "owned (exclude_current i w)" using own by (rule owned_exclude_current)
  have own2: "owned w2" unfolding w2_def using own1 by (rule owned_ResetEmpty)
  have slots2: "Slots (pool w2) = (Slots (pool w))[k := cleared (Slots (pool w) ! k)]"
    and cand2: "candidates w2 = candidates (exclude_current i w)"
    using i k ResetEmpty_effect(6) [OF own1, of i] by (simp_all add: w2_def Slots_ResetEmpty)
  have reset: "ResetEmpty i (exclude_current i w) = (None, w2)"
    using i by (simp add: w2_def ResetEmpty_def)
  have unchanged: "replaced i w v (Inl e)" if "Slots (pool v) = Slots (pool w2)" "candidates v = candidates w2" for v e
    using that k slots2 cand2 by (auto simp: replaced_def slot_at_def nth_list_update)
  consider (none) e where "res = Inl e" "w' = w2"
    | (best) cp cand r w3 where "candidates w2 = Some cp" "Best cp = Some cand"
        "test (tr_Config cand) (do_TestPort opts) (do_DownloadSize opts) (do_StabilityProbes opts) w2 = (r, w3)"
    using run i reset by (fastforce simp: DropAndReplace_def Let_def opts split: option.splits)
  then show ?thesis
  proof cases
    case none
    with own2 unchanged show ?thesis by simp
  next
    case best
    have own3: "owned w3" and pool3: "pool w3 = pool w2" "candidates w3 = candidates w2"
      using test_owned [OF own2 best(3)] more_world by auto
    have fail: "owned w3 \<and> replaced i w w3 (Inl e)" for e
      using own3 unchanged pool3 by simp
    consider (bad) e where "res = Inl e" "w' = w3"
      | (good) q where "r = Some q" "tr_Error q = None"
          "promote_candidate E opts i (sServicePort (slot_at i w)) (tr_Config cand) q w3 = (res, w')"
      using run i reset best
      by (fastforce simp: DropAndReplace_def Let_def opts split: option.splits)
    then show ?thesis
    proof cases
      case bad
      with fail show ?thesis by simp
    next
      case good
      have at3: "slot_at i w3 = cleared (slot_at i w)" using k slots2 pool3 by simp
      have i3: "in_range i w3" using k slots2 pool3 by simp
      have spec: "owned w' \<and> candidates w' = candidates w3 \<and>
          (case res of
             Inl e \<Rightarrow> Slots (pool w') = (Slots (pool w3))[nat i := cleared (slot_at i w3)]
           | Inr q' \<Rightarrow> q' = q \<and> (\<exists>c path. Slots (pool w') = (Slots (pool w3))[nat i := (slot_at i w3)
               \<lparr>sConfig := Some (tr_Config cand), sState := StateActive, sCmd := c, sConfigPath := path,
                sSpeedMbps := tr_Speed q, sStabilityScore := tr_StabilityScore q\<rparr>]))"
        by (rule promote_candidate_spec [OF own3 i3 _ opts(2) good(2)])
          (use good(3) at3 in simp_all)
      show ?thesis
      proof (cases res)
        case (Inl e)
        with spec at3 slots2 pool3 k have "Slots (pool w') = Slots (pool w2)" "candidates w' = candidates w2"
          by simp_all
        with unchanged Inl spec show ?thesis by simp
      next
        case (Inr q')
        then obtain c path where w': "q' = q" "Slots (pool w') = (Slots (pool w2))[k := (cleared (slot_at i w))
               \<lparr>sConfig := Some (tr_Config cand), sState := StateActive, sCmd := c, sConfigPath := path,
                sSpeedMbps := tr_Speed q, sStabilityScore := tr_StabilityScore q\<rparr>]"
          using spec at3 pool3 k by auto
        have "candidates w' = Some cp" using spec pool3 best(1) by simp
        moreover have "slot_at i w' = (cleared (slot_at i w))
               \<lparr>sConfig := Some (tr_Config cand), sState := StateActive, sCmd := c, sConfigPath := path,
                sSpeedMbps := tr_Speed q, sStabilityScore := tr_StabilityScore q\<rparr>"
          using w'(2) slots2 k by simp
        ultimately show ?thesis
          using spec Inr w' slots2 k cand2 pool3 best(2) good(2)
          unfolding replaced_def by (auto simp: nth_list_update)
      qed
    qed
  qed
qed

end

text \<open>C6. A drop with the program's own tester and starter keeps the ownership invariant and the
  contract \<open>replaced\<close>: other slots are untouched, the dropped configuration is excluded, the slot is
  cleared on every error, and on success it serves the best candidate left, which is never the
  dropped configuration.\<close>

theorem DropAndReplace_correct:
  assumes "owned w" and "in_range i w"
    and "do_TestCandidate opts = None" and "do_StartCandidate opts = None"
    and "DropAndReplace E opts i w = (res, w')"
  shows "owned w' \<and> replaced i w w' res \<and>
    (case res of
       Inl e \<Rightarrow> GetState i w' = StateEmpty
     | Inr r \<Rightarrow> GetState i w' = StateActive \<and>
         (\<forall>old. sConfig (slot_at i w) = Some old \<and> pc_Raw old \<noteq> [] \<longrightarrow>
            (\<exists>new. sConfig (slot_at i w') = Some new \<and> pc_Raw new \<noteq> pc_Raw old)))"
proof -
  have spec: "owned w' \<and> replaced i w w' res"
    by (rule xray.DropAndReplace_spec [OF assms(1,2) _ _ assms(5)])
      (simp_all add: test_candidate_def start_candidate_def assms(3,4))
  have i': "in_range i w'" using spec assms(2) by (simp add: replaced_def in_range_def slot_count_def)
  show ?thesis
  proof (cases res)
    case (Inl e)
    with spec i' show ?thesis by (simp add: replaced_def GetState_def)
  next
    case (Inr r)
    obtain cp cand c path where best: "candidates w' = Some cp" "Best cp = Some cand"
        and at: "slot_at i w' = (cleared (slot_at i w))
          \<lparr>sConfig := Some (tr_Config cand), sState := StateActive, sCmd := c, sConfigPath := path,
           sSpeedMbps := tr_Speed r, sStabilityScore := tr_StabilityScore r\<rparr>"
      using spec [unfolded replaced_def Inr sum.case] by blast
    have "pc_Raw (tr_Config cand) \<noteq> pc_Raw old"
      if "sConfig (slot_at i w) = Some old" "pc_Raw old \<noteq> []" for old
    proof -
      have "candidates w' = candidates (exclude_current i w)" using spec by (simp add: replaced_def)
      with best(1) that have "pc_Raw old \<in> cp_excluded cp"
        by (auto simp: exclude_current_def Exclude_def split: option.splits)
      with best_of_Some [of "cp_excluded cp" "cp_candidates cp" cand] best(2) show ?thesis
        by (auto simp: Best_def)
    qed
    with spec i' Inr at show ?thesis by (simp add: GetState_def)
  qed
qed

text \<open>The pool that startup creates owns nothing.\<close>

lemma owned_NewWANPool:
  assumes "NewWANPool n base = Some (pool w)" and "live w = {}" and "files w = []"
  shows "owned w"
proof -
  have slots: "Slots (pool w) = map (\<lambda>i. new_slot (int i) (base + int i)) [0..<nat n]" "BasePort (pool w) = base"
    using assms(1) by (auto simp: NewWANPool_def split: if_splits) (metis WANPool.select_convs)+
  have new: "slot_pids (new_slot i p) = {}" "slot_paths (new_slot i p) = {}" "slot_ok w (new_slot i p)"
      "sIndex (new_slot i p) = i" "sServicePort (new_slot i p) = p" for i p
    by (simp_all add: new_slot_def slot_pids_def slot_paths_def slot_ok_def)
  show ?thesis
    using assms(2,3) by (simp add: owned_def slots new fresh_files_def disjoint_family_on_def)
qed

lemma owned_small_world: "owned small_world"
proof (rule owned_NewWANPool)
  show "NewWANPool 2 2081 = Some (pool small_world)"
    by (simp add: NewWANPool_def small_world_def numeral_2_eq_2)
qed (simp_all add: small_world_def live_def)

lemma calm_test:
  "\<exists>w'. TestSpeedWithStability calm_env cfg p 4000000 0 w =
     (\<lparr>tr_Config = cfg, tr_Speed = 16, tr_StabilityScore = 0, tr_Error = None\<rparr>, w')"
  by (simp add: TestSpeedWithStability_def StartXray_def calm_answers Let_def test_body_def ask_eq)

definition drop_options :: DropAndReplaceOptions where
  "drop_options =
     \<lparr>do_TestPort = 40000, do_DownloadSize = 4000000, do_StabilityProbes = 0, do_XrayMux = True,
      do_TestCandidate = None, do_StartCandidate = None\<rparr>"

lemma calm_promote:
  assumes own: "owned w" and i: "in_range i w" and st: "sState (slot_at i w) = StateEmpty"
  shows "\<exists>w'. promote_candidate calm_env drop_options i (sServicePort (slot_at i w)) cfg q w = (Inr q, w')"
proof -
  obtain err w4 where test: "StartTesting i cfg w = (err, w4)" by fastforce
  obtain c path w5 where s: "StartXray calm_env cfg (sServicePort (slot_at i w)) [True] w4 = ((c, path, None), w5)"
    by (simp add: StartXray_def calm_answers Let_def)
  obtain err6 w6 where act: "SetActive i c path w5 = (err6, w6)" by fastforce
  show ?thesis
    using xray.promote_owned [OF own i st test s] test s act
    by (simp add: promote_candidate_def start_candidate_def drop_options_def)
qed

definition one_candidate :: CandidatePool where
  "one_candidate =
     \<lparr>cp_candidates = [\<lparr>tr_Config = sample_config, tr_Speed = 16, tr_StabilityScore = 0, tr_Error = None\<rparr>],
      cp_excluded = {}, cp_maxLen = 50\<rparr>"

lemma drop_options_fields:
  "do_TestPort drop_options = 40000" "do_DownloadSize drop_options = 4000000"
  "do_StabilityProbes drop_options = 0" "do_TestCandidate drop_options = None"
  "do_StartCandidate drop_options = None" "test_candidate E drop_options = default_tester E"
  by (simp_all add: drop_options_def test_candidate_def)

lemma one_candidate_best: "Best one_candidate =
    Some \<lparr>tr_Config = sample_config, tr_Speed = 16, tr_StabilityScore = 0, tr_Error = None\<rparr>"
  by (simp add: Best_def one_candidate_def)

definition stocked_world :: world where
  "stocked_world = small_world\<lparr>candidates := Some one_candidate\<rparr>"

lemma owned_stocked_world: "owned stocked_world"
  by (rule owned_same [OF owned_small_world]) (simp_all add: stocked_world_def)

text \<open>On the calm network a drop succeeds whenever the one candidate is still eligible.\<close>

lemma drop_succeeds:
  assumes own: "owned w" and i: "in_range i w" and cand: "candidates (exclude_current i w) = Some one_candidate"
  shows "\<exists>r w'. DropAndReplace calm_env drop_options i w = (Inr r, w')"
proof -
  let ?w1 = "exclude_current i w"
  obtain r w' where run: "DropAndReplace calm_env drop_options i w = (r, w')" by fastforce
  have own1: "owned ?w1" using own by (rule owned_exclude_current)
  have w2: "ResetEmpty i ?w1 = (None, snd (ResetEmpty i ?w1))"
      "candidates (snd (ResetEmpty i ?w1)) = Some one_candidate" "owned (snd (ResetEmpty i ?w1))"
      "in_range i (snd (ResetEmpty i ?w1))" "sState (slot_at i (snd (ResetEmpty i ?w1))) = StateEmpty"
    using i cand owned_ResetEmpty [OF own1] ResetEmpty_effect(6) [OF own1, of i]
    by (simp_all add: slot_at_ResetEmpty) (simp add: ResetEmpty_def)
  define w2' where "w2' = snd (ResetEmpty i ?w1)"
  note w2 = w2 [folded w2'_def]
  define q where "q = \<lparr>tr_Config = sample_config, tr_Speed = 16, tr_StabilityScore = 0, tr_Error = None\<rparr>"
  obtain w3 where test: "default_tester calm_env sample_config 40000 4000000 0 w2' = (Some q, w3)"
    using calm_test [of sample_config 40000 w2'] by (auto simp: default_tester_def q_def)
  have w3: "owned w3" "pool w3 = pool w2'"
    using xray.test_owned [OF w2(3) test] more_world by auto
  then have at3: "slot_at i w3 = slot_at i w2'" "in_range i w3"
    using w2(4) by (simp_all add: slot_at_def in_range_def slot_count_def)
  have "\<exists>w'. promote_candidate calm_env drop_options i (sServicePort (slot_at i w3)) sample_config q w3 = (Inr q, w')"
    by (rule calm_promote [OF w3(1) at3(2)]) (simp add: at3 w2)
  then obtain w4 where pr: "promote_candidate calm_env drop_options i (sServicePort (slot_at i w))
      sample_config q w3 = (Inr q, w4)"
    using i by (auto simp: at3 w2'_def slot_at_ResetEmpty)
  have "r = Inr q"
    using run i w2(1) test pr w2(2)
    by (simp add: DropAndReplace_def Let_def drop_options_fields q_def one_candidate_best)
  with run show ?thesis by blast
qed

lemma drop_example:
  "\<exists>r w'. DropAndReplace calm_env drop_options 1 stocked_world = (Inr r, w') \<and> in_range 1 stocked_world"
proof -
  have i: "in_range 1 stocked_world"
    by (simp add: in_range_def slot_count_def stocked_world_def small_world_def)
  have "candidates (exclude_current 1 stocked_world) = Some one_candidate"
    by (simp add: exclude_current_def stocked_world_def small_world_def slot_at_def new_slot_def)
  from drop_succeeds [OF owned_stocked_world i this] i show ?thesis by blast
qed

lemma DropAndReplace_correct_witness:
  "\<exists>r w'. DropAndReplace calm_env drop_options 1 stocked_world = (Inr r, w') \<and> owned w' \<and>
     GetState 1 w' = StateActive"
proof -
  obtain r w' where run: "DropAndReplace calm_env drop_options 1 stocked_world = (Inr r, w')"
    and i: "in_range 1 stocked_world" using drop_example by blast
  from DropAndReplace_correct [OF owned_stocked_world i _ _ run] run show ?thesis
    by (simp add: drop_options_fields)
qed

lemma served_world:
  "\<exists>w. owned w \<and> in_range 1 w \<and> GetState 1 w = StateActive"
proof -
  obtain r w' where run: "DropAndReplace calm_env drop_options 1 stocked_world = (Inr r, w')"
    and i: "in_range 1 stocked_world" using drop_example by blast
  have "owned w' \<and> replaced 1 stocked_world w' (Inr r)"
    by (rule xray.DropAndReplace_spec [OF owned_stocked_world i _ _ run])
      (simp_all add: drop_options_fields start_candidate_def)
  then have "owned w'" "in_range 1 w'" "sState (slot_at 1 w') = StateActive"
    using i by (auto simp: replaced_def in_range_def slot_count_def)
  then show ?thesis by (auto simp: GetState_def)
qed

lemma served_live: "owned w \<Longrightarrow> in_range i w \<Longrightarrow> GetState i w = StateActive \<Longrightarrow> live w \<noteq> {}"
proof -
  assume own: "owned w" and i: "in_range i w" and st: "GetState i w = StateActive"
  obtain k where k: "i = int k" "k < length (Slots (pool w))" using i by (rule in_rangeE)
  have "slot_pids (slot_at i w) \<noteq> {}"
    using owned_slot_ok [OF own i] st i
    by (cases rule: slot_ok_cases) (auto simp: GetState_def)
  moreover have "slot_pids (slot_at i w) \<subseteq> live w" using own k unfolding owned_def by auto
  ultimately show "live w \<noteq> {}" by blast
qed

lemma ShutdownAll_releases_witness:
  "\<exists>w. live w \<noteq> {} \<and> live (ShutdownAll calm_env w) = {} \<and> files (ShutdownAll calm_env w) = []"
proof -
  obtain w where w: "owned w" "live w \<noteq> {}" using served_world served_live by blast
  from ShutdownAll_releases [OF w(1), of calm_env] w(2) show ?thesis by blast
qed

text \<open>C30. The health check of the cycle never finds a dead xray: a serving slot's child that has
  died on its own stays a zombie, which signal 0 still reaches, so HealthCheckAll reports nothing
  and resets nothing, however many children have died.\<close>

theorem HealthCheckAll_blind:
  assumes "owned w"
  shows "HealthCheckAll (fold proc_exits dead w) = ([], fold proc_exits dead w)"
proof -
  have "owned (fold proc_exits dead w)"
    using assms by (induction dead arbitrary: w) (simp_all add: owned_proc_exits)
  then show ?thesis by (rule HealthCheckAll_idle)
qed

text \<open>C31. A slot that is dropped (reset) while the cycle is starting its process loses the process:
  SetActive is refused, its error is ignored by the caller, and the running xray belongs to no slot.\<close>

theorem reset_during_start_leaks:
  assumes "owned w" and "in_range i w" and "StartTesting i cfg w = (None, w1)"
    and "StartXray E cfg port mux w1 = ((c, path, None), w2)"
    and "SetActive i c path (snd (ResetEmpty i w2)) = (err, w3)"
  shows "err \<noteq> None \<and> (\<exists>pid \<in> live w3. \<forall>k < length (Slots (pool w3)). pid \<notin> slot_pids (Slots (pool w3) ! k))"
proof -
  obtain k where k: "i = int k" "k < length (Slots (pool w))" using assms(2) by (rule in_rangeE)
  have own1: "owned w1" using owned_StartTesting [OF assms(1), of i cfg] assms(3) by simp
  have i1: "in_range i w1" and st1: "sState (slot_at i w1) = StateTesting"
    using assms(2,3) by (auto simp: StartTesting_def slot_at_set_slot Let_def split: if_splits)
  have st: "started cfg port c path w1 w2" using assms(4) by (rule xray.start_started)
  have pool2: "pool w2 = pool w1" using st more_world(1) by (auto simp: started_def)
  then have i2: "in_range i w2" and at2: "slot_at i w2 = slot_at i w1"
    using i1 by (simp_all add: in_range_def slot_count_def slot_at_def)
  have idle: "sCmd (slot_at i w2) = None"
    using slot_ok_idle [OF owned_slot_ok [OF own1 i1]] st1 at2 by simp
  then have reset: "snd (ResetEmpty i w2) = reset_clear i w2"
    using i2 by (simp add: ResetEmpty_def reset_stop_def reset_read_def)
  have w3: "err \<noteq> None" "w3 = reset_clear i w2"
    using assms(5) i2 unfolding reset
    by (auto simp: SetActive_def reset_clear_def slot_at_set_slot Let_def)
  let ?pid = "length (procs w1)"
  have "?pid \<in> live w3" using started_live [OF st] by (simp add: w3(2) reset_clear_def)
  moreover have "?pid \<notin> slot_pids (Slots (pool w3) ! j)" if "j < length (Slots (pool w3))" for j
  proof -
    have "slot_pids (Slots (pool w3) ! j) \<subseteq> slot_pids (Slots (pool w1) ! j)" and j: "j < length (Slots (pool w1))"
      using that k i2 pool2 by (auto simp: w3(2) reset_clear_def Slots_set_slot nth_list_update)
    moreover have "slot_pids (Slots (pool w1) ! j) \<subseteq> live w1" using own1 j unfolding owned_def by blast
    ultimately show ?thesis using started_live(2) [OF st] by blast
  qed
  ultimately show ?thesis using w3(1) by blast
qed

lemma HealthCheckAll_blind_witness:
  "\<exists>w. live w \<noteq> {} \<and> HealthCheckAll (fold proc_exits [0, 1] w) = ([], fold proc_exits [0, 1] w)"
proof -
  obtain w where w: "owned w" "live w \<noteq> {}" using served_world served_live by blast
  from HealthCheckAll_blind [OF w(1), of "[0, 1]"] w(2) show ?thesis by blast
qed

lemma reset_during_start_leaks_witness:
  "\<exists>(w :: world) pid. pid \<in> live w \<and> (\<forall>k < length (Slots (pool w)). pid \<notin> slot_pids (Slots (pool w) ! k))"
proof -
  have i: "in_range 0 small_world" by (simp add: in_range_def slot_count_def small_world_def)
  have st: "StartTesting 0 sample_config small_world = (None, snd (StartTesting 0 sample_config small_world))"
    by (simp add: StartTesting_def i Let_def) (simp add: slot_at_def small_world_def new_slot_def)
  obtain c path w2 where run: "StartXray calm_env sample_config 2081 [True]
      (snd (StartTesting 0 sample_config small_world)) = ((c, path, None), w2)"
    by (simp add: StartXray_def calm_answers Let_def)
  obtain err w3 where act: "SetActive 0 c path (snd (ResetEmpty 0 w2)) = (err, w3)" by fastforce
  from reset_during_start_leaks [OF owned_small_world i st run act] show ?thesis by blast
qed

end
