(* ===== verification/Cycle.thy ===== *)
theory Cycle
  imports Config Ownership
begin

text \<open>
  The control loops of main.go: fetching the subscription, the test-and-fill cycle, the keepalive
  probes, startup with its retries, the main loop and shutdown. Logging is not modelled. \<open>golib\<close> collects
  the library functions that are arguments: the Unicode part of strings.ToLower, the
  algorithm of sort.Slice, and the format of a float with two decimals.
\<close>

record golib =
  lb_lower :: "string \<Rightarrow> string"
  lb_sort :: "(TestResult \<Rightarrow> TestResult \<Rightarrow> bool) \<Rightarrow> TestResult list \<Rightarrow> TestResult list"
  lb_fixed2 :: "real \<Rightarrow> string"

section \<open>Cycle times\<close>

definition second :: int where
  "second = 1000000000"

definition seconds :: "int \<Rightarrow> int" where
  "seconds n = wrap64 (n * second)"

definition resetCycleTiming :: "world \<Rightarrow> world" where
  "resetCycleTiming w = w\<lparr>lastCycle := 0, nextCycle := 0\<rparr>"

definition cycleTimingSnapshot :: "world \<Rightarrow> int \<times> int" where
  "cycleTimingSnapshot w = (lastCycle w, nextCycle w)"

definition markCycleStarted :: "int \<Rightarrow> world \<Rightarrow> world" where
  "markCycleStarted now w = w\<lparr>lastCycle := now, nextCycle := 0\<rparr>"

definition markCycleComplete :: "int \<Rightarrow> int \<Rightarrow> world \<Rightarrow> world" where
  "markCycleComplete now interval w = w\<lparr>nextCycle := now + interval\<rparr>"

section \<open>Subscription and report\<close>

text \<open>None is the panic of the parser; a failed request or a failed read is an empty list.\<close>

definition fetchSubscription :: "golib \<Rightarrow> env \<Rightarrow> world \<Rightarrow> ProxyConfig list option \<times> world" where
  "fetchSubscription L E w =
     (case ask e_fetch E w of
        (Inl e, w') \<Rightarrow> (Some [], w')
      | (Inr body, w') \<Rightarrow> (ParseConfigs (lb_lower L) body, w'))"

definition sorted_line :: "golib \<Rightarrow> TestResult \<Rightarrow> string" where
  "sorted_line L r =
     pc_Protocol (tr_Config r) @ ''://'' @ pc_Server (tr_Config r) @ '':'' @ strconv_Itoa (pc_Port (tr_Config r)) @
     (case tr_Error r of
        Some e \<Rightarrow> '' error='' @ error_text e
      | None \<Rightarrow> '' speed='' @ lb_fixed2 L (tr_Speed r))"

definition writeSortedTxt :: "golib \<Rightarrow> env \<Rightarrow> TestResult list \<Rightarrow> world \<Rightarrow> world" where
  "writeSortedTxt L E results w =
     (if \<not> e_sorted E (tick w) then w else w\<lparr>sorted_txt := map (sorted_line L) results\<rparr>)"

section \<open>Filling an empty slot\<close>

text \<open>
  The block that startup and runCycle share: the errors of StartTesting and SetActive are ignored.
  The flag tells whether xray was started.
\<close>

definition fill_slot :: "env \<Rightarrow> Config \<Rightarrow> int \<Rightarrow> ProxyConfig \<Rightarrow> TestResult \<Rightarrow> world \<Rightarrow> bool \<times> world" where
  "fill_slot E cfg slotIdx c result w =
     (let w1 = snd (StartTesting slotIdx c w)
      in case StartXray E c (c_WanBasePort cfg + slotIdx) [c_XrayMux cfg] w1 of
           ((cm, path, Some e), w2) \<Rightarrow> (False, snd (ResetEmpty slotIdx w2))
         | ((cm, path, None), w2) \<Rightarrow>
             (True,
              SetSlotStability slotIdx (tr_StabilityScore result)
                (SetSlotSpeedMbps slotIdx (tr_Speed result) (snd (SetActive slotIdx cm path w2)))))"

definition test_config :: "env \<Rightarrow> Config \<Rightarrow> int \<Rightarrow> ProxyConfig \<Rightarrow> world \<Rightarrow> TestResult \<times> world" where
  "test_config E cfg tested c w =
     TestSpeedWithStability E c (c_TestBasePort cfg + tested) (c_DownloadSize cfg) (c_StabilityProbes cfg) w"

definition rejected :: "Config \<Rightarrow> TestResult \<Rightarrow> bool" where
  "rejected cfg result \<longleftrightarrow> tr_Error result \<noteq> None \<or> tr_Speed result < c_MinimumSpeed cfg"

definition skipped :: "ProxyConfig \<Rightarrow> world \<Rightarrow> bool" where
  "skipped c w \<longleftrightarrow> \<not> IsXraySupported (Some c) \<or> HasServerPort (pc_Server c) (pc_Port c) w"

section \<open>The cycle\<close>

fun cycle_loop ::
    "env \<Rightarrow> Config \<Rightarrow> ProxyConfig list \<Rightarrow> TestResult list \<Rightarrow> int \<Rightarrow> world \<Rightarrow> TestResult list \<times> world" where
  "cycle_loop E cfg [] results tested w = (results, w)"
| "cycle_loop E cfg (c # cs) results tested w =
     (if ActiveCount w \<ge> c_WanCount cfg \<and> GetSlotsByState [StateEmpty] w = [] then (results, w)
      else if tested \<ge> MaxTestPerCycleVal cfg then (results, w)
      else if skipped c w then cycle_loop E cfg cs results tested w
      else
        (case test_config E cfg tested c w of (result, w1) \<Rightarrow>
           if rejected cfg result then cycle_loop E cfg cs (results @ [result]) (tested + 1) w1
           else
             (case GetSlotsByState [StateEmpty] w1 of
                [] \<Rightarrow> (results @ [result], w1)
              | slotIdx # _ \<Rightarrow>
                  cycle_loop E cfg cs (results @ [result]) (tested + 1)
                    (snd (fill_slot E cfg slotIdx (tr_Config result) result w1)))))"

definition already_active :: "int list \<Rightarrow> world \<Rightarrow> ProxyConfig \<Rightarrow> bool" where
  "already_active activeSlots w c =
     list_ex (\<lambda>idx. case sConfig (slot_at idx w) of
                None \<Rightarrow> False
              | Some a \<Rightarrow> pc_Server a = pc_Server c \<and> pc_Port a = pc_Port c) activeSlots"

definition update_candidates :: "golib \<Rightarrow> TestResult list \<Rightarrow> world \<Rightarrow> world" where
  "update_candidates L results w =
     (case candidates w of
        None \<Rightarrow> w
      | Some cp \<Rightarrow> w\<lparr>candidates := Some (Update (lb_sort L) results cp)\<rparr>)"

definition mark_replacement :: "env \<Rightarrow> Config \<Rightarrow> TestResult list \<Rightarrow> world \<Rightarrow> world" where
  "mark_replacement E cfg results w =
     (let activeSlots = GetSlotsByState [StateActive] w
      in if int (length activeSlots) = c_WanCount cfg \<and> results \<noteq> [] then
           (case bestNewCandidate results (c_MinimumSpeed cfg) (Some (already_active activeSlots w)) of
              None \<Rightarrow> w
            | Some best \<Rightarrow> snd (MarkDraining E (PickReplacementSlot activeSlots w) w))
         else w)"

definition cycle_cleanup :: "env \<Rightarrow> int \<Rightarrow> world \<Rightarrow> world" where
  "cycle_cleanup E gracePeriod w =
     (let w1 = reset_all (DrainExpired E gracePeriod w) w
      in case HealthCheckAll w1 of (died, w2) \<Rightarrow> reset_all died w2)"

definition runCycle :: "golib \<Rightarrow> env \<Rightarrow> Config \<Rightarrow> int \<Rightarrow> world \<Rightarrow> world" where
  "runCycle L E cfg gracePeriod w0 =
     (let w = cycle_cleanup E gracePeriod (markCycleStarted (e_now E (tick w0)) w0);
          finish = (\<lambda>v. markCycleComplete (e_now E (tick v)) (seconds (c_FetchInterval cfg)) v)
      in case fetchSubscription L E w of
           (None, w1) \<Rightarrow> w1\<lparr>panicked := True\<rparr>
         | (Some configs, w1) \<Rightarrow>
             if configs = [] then finish w1
             else
               (case cycle_loop E cfg configs [] 0 w1 of (results, w2) \<Rightarrow>
                  finish (mark_replacement E cfg results
                    (update_candidates L results (writeSortedTxt L E results w2)))))"

section \<open>Keepalive\<close>

definition set_probe :: "env \<Rightarrow> int \<Rightarrow> string \<Rightarrow> world \<Rightarrow> world" where
  "set_probe E idx ip w = set_slot idx ((slot_at idx w)\<lparr>sExitIP := ip, sLastProbe := e_now E (tick w)\<rparr>) w"

definition probe_slot :: "env \<Rightarrow> Config \<Rightarrow> int \<Rightarrow> world \<Rightarrow> world" where
  "probe_slot E cfg idx w =
     (case ProbeWAN E w of
        (Some e, w1) \<Rightarrow>
          (let w2 = RecordFailure idx w1;
               fails = SlotConsecutiveFails idx w2
           in if c_WanFailThreshold cfg > 0 \<and> fails \<ge> c_WanFailThreshold cfg \<and> GetState idx w2 = StateActive
              then snd (MarkDraining E idx w2) else w2)
      | (None, w1) \<Rightarrow>
          (case probeExitIP E (RecordSuccess idx w1) of
             (Inr ip, w2) \<Rightarrow> set_probe E idx ip w2
           | (Inl e, w2) \<Rightarrow> w2))"

definition probeAllWANs :: "env \<Rightarrow> Config \<Rightarrow> world \<Rightarrow> world" where
  "probeAllWANs E cfg w = fold (probe_slot E cfg) (GetSlotsByState [StateActive, StateDraining] w) w"

section \<open>Startup\<close>

text \<open>
  The flag tells whether the services (front ends, metrics, API, keepalive) have been started; with
  degraded boot they are started at the first active slot.
\<close>

fun startup_loop :: "env \<Rightarrow> Config \<Rightarrow> ProxyConfig list \<Rightarrow> int \<Rightarrow> bool \<Rightarrow> world \<Rightarrow> bool \<times> world" where
  "startup_loop E cfg [] tested up w = (up, w)"
| "startup_loop E cfg (c # cs) tested up w =
     (if ActiveCount w \<ge> c_WanCount cfg then (up, w)
      else if skipped c w then startup_loop E cfg cs tested up w
      else
        (case test_config E cfg tested c w of (result, w1) \<Rightarrow>
           if rejected cfg result then startup_loop E cfg cs (tested + 1) up w1
           else
             (case GetSlotsByState [StateEmpty] w1 of
                [] \<Rightarrow> (up, w1)
              | slotIdx # _ \<Rightarrow>
                  (case fill_slot E cfg slotIdx c result w1 of (ok, w2) \<Rightarrow>
                     startup_loop E cfg cs (tested + 1)
                       (up \<or> (ok \<and> c_AllowDegradedBoot cfg \<and> ActiveCount w2 \<ge> 1)) w2))))"

datatype round_end = RoundFull | RoundRetry | RoundPanic

definition startup_round :: "golib \<Rightarrow> env \<Rightarrow> Config \<Rightarrow> bool \<Rightarrow> world \<Rightarrow> round_end \<times> bool \<times> world" where
  "startup_round L E cfg up w =
     (case fetchSubscription L E w of
        (None, w1) \<Rightarrow> (RoundPanic, up, w1\<lparr>panicked := True\<rparr>)
      | (Some configs, w1) \<Rightarrow>
          if configs = [] then (RoundRetry, up, w1)
          else
            (case startup_loop E cfg configs 0 up w1 of (up', w2) \<Rightarrow>
               if ActiveCount w2 \<ge> c_WanCount cfg then (RoundFull, up', w2)
               else (RoundRetry, up', reset_all (GetSlotsByState [StateTesting] w2) w2)))"

text \<open>
  The retry loop ends when the pool is full, when the context is done, or in a panic; it may run
  forever, so the number of rounds is bounded by fuel and None is that the fuel ran out.
\<close>

datatype startup_end = StartupReady | StartupCancelled | StartupPanic

fun startup_rounds ::
    "nat \<Rightarrow> golib \<Rightarrow> env \<Rightarrow> Config \<Rightarrow> bool \<Rightarrow> world \<Rightarrow> (startup_end \<times> bool \<times> world) option" where
  "startup_rounds 0 L E cfg up w = None"
| "startup_rounds (Suc n) L E cfg up w =
     (case startup_round L E cfg up w of
        (RoundFull, up', w') \<Rightarrow> Some (StartupReady, True, w')
      | (RoundPanic, up', w') \<Rightarrow> Some (StartupPanic, up', w')
      | (RoundRetry, up', w') \<Rightarrow>
          if e_done E (tick w') then Some (StartupCancelled, up', w')
          else startup_rounds n L E cfg up' w')"

text \<open>The state that startup begins with: a new pool and a new candidate pool.\<close>

definition startup_world :: "Config \<Rightarrow> world \<Rightarrow> world option" where
  "startup_world cfg w =
     (case (NewWANPool (c_WanCount cfg) (c_WanBasePort cfg), NewCandidatePool 50) of
        (Some p, Some cp) \<Rightarrow> Some (w\<lparr>pool := p, candidates := Some cp\<rparr>)
      | _ \<Rightarrow> None)"

section \<open>The main loop\<close>

definition grace_period :: "Config \<Rightarrow> int" where
  "grace_period cfg =
     (let g = wrap64 (2 * seconds (c_FetchInterval cfg)) in if g < 60 * second then 60 * second else g)"

text \<open>
  What the select of runLoop receives. The ticker panics when the interval is not positive. An
  event of the trigger channel is received only when the channel holds one. When the context is done
  the loop returns to startup, which shuts the pool down.
\<close>

datatype loop_event = TickerFires | TriggerReceived | ContextDone

definition loop_start :: "env \<Rightarrow> Config \<Rightarrow> world \<Rightarrow> world" where
  "loop_start E cfg w =
     (if seconds (c_FetchInterval cfg) \<le> 0 then w\<lparr>panicked := True\<rparr>
      else markCycleComplete (e_now E (tick w)) (seconds (c_FetchInterval cfg)) w)"

definition loop_step :: "golib \<Rightarrow> env \<Rightarrow> Config \<Rightarrow> loop_event \<Rightarrow> world \<Rightarrow> world option" where
  "loop_step L E cfg ev w =
     (case ev of
        TickerFires \<Rightarrow> Some (runCycle L E cfg (grace_period cfg) w)
      | TriggerReceived \<Rightarrow>
          if trigger w then Some (runCycle L E cfg (grace_period cfg) (w\<lparr>trigger := False\<rparr>)) else None
      | ContextDone \<Rightarrow> Some (ShutdownAll E w))"

end
