(* ===== verification/CycleProps.thy ===== *)
theory CycleProps
  imports Cycle "HOL-Library.Sublist"
begin

text \<open>
  What the control loops do to the pool. The abstract specification is the relation \<open>fills\<close> on
  slot lists: empty slots are cleared or put into service, with a supported configuration, at the
  required speed, at an endpoint that no slot serves. The loops of startup and of the cycle refine
  it; the safety of the pool, the bounds of a cycle and the liveness of startup follow.
\<close>

section \<open>Filling one slot\<close>

text \<open>A pool as startup creates it and as it is between two passes of a loop.\<close>

definition pool_between :: "Config \<Rightarrow> world \<Rightarrow> bool" where
  "pool_between cfg w \<longleftrightarrow>
     owned w \<and> BasePort (pool w) = c_WanBasePort cfg \<and> slot_count w = c_WanCount cfg \<and>
     (\<forall>x \<in> set (Slots (pool w)). sState x \<noteq> StateTesting)"

definition filled :: "ProxyConfig \<Rightarrow> cmd option \<Rightarrow> string \<Rightarrow> real \<Rightarrow> int \<Rightarrow> WANSlot \<Rightarrow> WANSlot" where
  "filled c cm path v n x =
     x\<lparr>sConfig := Some c, sState := StateActive, sCmd := cm, sConfigPath := path,
       sSpeedMbps := v, sStabilityScore := n\<rparr>"

lemma filled_simps [simp]:
  "sState (filled c cm path v n x) = StateActive" "sConfig (filled c cm path v n x) = Some c"
  "sSpeedMbps (filled c cm path v n x) = v" "serving (filled c cm path v n x)"
  by (simp_all add: filled_def serving_def)

lemma pool_between_owned: "pool_between cfg w \<Longrightarrow> owned w"
  by (simp add: pool_between_def)

lemma pool_between_port:
  "pool_between cfg w \<Longrightarrow> in_range i w \<Longrightarrow> sServicePort (slot_at i w) = c_WanBasePort cfg + i"
  by (auto simp: pool_between_def owned_def elim!: in_rangeE)

lemma test_config_frame:
  assumes "owned w" and "test_config E cfg n c w = (r, w')"
  shows "owned w' \<and> sys.more w' = sys.more w"
proof -
  have "default_tester E c (c_TestBasePort cfg + n) (c_DownloadSize cfg) (c_StabilityProbes cfg) w = (Some r, w')"
    using assms(2) by (simp add: default_tester_def test_config_def)
  with xray.test_owned [OF assms(1)] show ?thesis by blast
qed

lemma pool_between_more:
  "pool_between cfg w \<Longrightarrow> owned w' \<Longrightarrow> sys.more w' = sys.more w \<Longrightarrow> pool_between cfg w'"
  using more_world(1) [of w' w] by (simp add: pool_between_def slot_count_def)

lemma pool_between_test:
  "pool_between cfg w \<Longrightarrow> test_config E cfg n c w = (r, w') \<Longrightarrow>
     pool_between cfg w' \<and> pool w' = pool w \<and> candidates w' = candidates w"
  using test_config_frame [of w E cfg n c r w'] pool_between_more [of cfg w w'] more_world [of w' w]
  by (auto simp: pool_between_def)

lemma SetActive_BasePort [simp]: "BasePort (pool (snd (SetActive i c path w))) = BasePort (pool w)"
  by (simp add: SetActive_def Let_def)

lemma fill_slot_spec:
  assumes pb: "pool_between cfg w" and i: "in_range i w" and st: "sState (slot_at i w) = StateEmpty"
    and run: "fill_slot E cfg i c r w = (ok, w')"
  shows "pool_between cfg w' \<and> candidates w' = candidates w \<and>
    (if ok then \<exists>cm path. Slots (pool w') =
                  (Slots (pool w))[nat i := filled c cm path (tr_Speed r) (tr_StabilityScore r) (slot_at i w)]
     else Slots (pool w') = (Slots (pool w))[nat i := cleared (slot_at i w)])"
proof -
  obtain k where k: "i = int k" "k < length (Slots (pool w))" using i by (rule in_rangeE)
  have own: "owned w" using pb by (rule pool_between_owned)
  obtain err w1 where test: "StartTesting i c w = (err, w1)" by fastforce
  obtain cm path e w2 where s: "StartXray E c (sServicePort (slot_at i w)) [c_XrayMux cfg] w1 = ((cm, path, e), w2)"
    by (metis prod_cases3 surj_pair)
  note pr = xray.promote_owned [OF own i st test s]
  have s': "StartXray E c (c_WanBasePort cfg + i) [c_XrayMux cfg] w1 = ((cm, path, e), w2)"
    using s pool_between_port [OF pb i] by simp
  have between: "pool_between cfg w'"
    if "owned w'" "BasePort (pool w') = BasePort (pool w)" "Slots (pool w') = (Slots (pool w))[k := y]"
      "sState y \<noteq> StateTesting" for y
    using that pb set_update_subset_insert [of "Slots (pool w)" k y]
    by (auto simp: pool_between_def slot_count_def)
  show ?thesis
  proof (cases e)
    case (Some x)
    have w2: "owned w2" "in_range i w2" "BasePort (pool w2) = BasePort (pool w)" "candidates w2 = candidates w"
      "slot_at i w2 = (slot_at i w)\<lparr>sState := StateTesting, sConfig := Some c\<rparr>"
      "Slots (pool w2) = (Slots (pool w))[k := (slot_at i w)\<lparr>sState := StateTesting, sConfig := Some c\<rparr>]"
      using pr Some k by simp_all
    have res: "\<not> ok" "w' = snd (ResetEmpty i w2)"
      using run test s' Some by (simp_all add: fill_slot_def Let_def)
    have slots: "Slots (pool w') = (Slots (pool w))[k := cleared (slot_at i w)]"
      using w2 k by (simp add: res Slots_ResetEmpty)
    have "pool_between cfg w'"
      by (rule between [OF _ _ slots])
        (use owned_ResetEmpty [OF w2(1)] ResetEmpty_effect(5) [OF w2(1,2)] w2 res in simp_all)
    then show ?thesis using res slots ResetEmpty_effect(6) [OF w2(1,2)] w2 k by simp
  next
    case None
    let ?w6 = "snd (SetActive i cm path w2)"
    let ?x = "(slot_at i w)\<lparr>sConfig := Some c, sState := StateActive, sCmd := cm, sConfigPath := path\<rparr>"
    have w6: "owned ?w6" "Slots (pool ?w6) = (Slots (pool w))[k := ?x]" "candidates ?w6 = candidates w"
      "BasePort (pool ?w6) = BasePort (pool w)"
      using pr None k by simp_all
    have i6: "in_range i ?w6" using k w6 by simp
    have at6: "slot_at i ?w6 = ?x" using k w6 by simp
    have res: "ok" "w' = SetSlotStability i (tr_StabilityScore r) (SetSlotSpeedMbps i (tr_Speed r) ?w6)"
      using run test s' None by (simp_all add: fill_slot_def Let_def)
    have slots: "Slots (pool w') = (Slots (pool w))[k := filled c cm path (tr_Speed r) (tr_StabilityScore r) (slot_at i w)]"
      unfolding res using i6 at6 w6(2) k
      by (simp add: SetSlotStability_def SetSlotSpeedMbps_def Slots_set_slot slot_at_set_slot filled_def)
    have "pool_between cfg w'"
    proof (rule between [OF _ _ slots])
      show "owned w'" unfolding res using w6(1) by (intro owned_fields)
      show "BasePort (pool w') = BasePort (pool w)"
        unfolding res using w6(4) i6 by (simp add: SetSlotStability_def SetSlotSpeedMbps_def)
    qed simp
    moreover have "candidates w' = candidates w"
      unfolding res using w6(3) i6 by (simp add: SetSlotStability_def SetSlotSpeedMbps_def)
    ultimately show ?thesis using slots res k by auto
  qed
qed

section \<open>The specification of filling\<close>

definition endpoint :: "ProxyConfig \<Rightarrow> string \<times> int" where
  "endpoint c = (pc_Server c, pc_Port c)"

definition endpoints :: "WANSlot list \<Rightarrow> (string \<times> int) option list" where
  "endpoints xs = map (\<lambda>x. map_option endpoint (sConfig x)) (filter serving xs)"

inductive fills :: "real \<Rightarrow> ProxyConfig set \<Rightarrow> WANSlot list \<Rightarrow> WANSlot list \<Rightarrow> bool"
  for v0 :: real and C :: "ProxyConfig set" where
  fills_refl: "fills v0 C xs xs"
| fills_clear:
    "fills v0 C (xs[k := cleared (xs ! k)]) ys \<Longrightarrow> k < length xs \<Longrightarrow> sState (xs ! k) = StateEmpty \<Longrightarrow>
     fills v0 C xs ys"
| fills_serve:
    "fills v0 C (xs[k := filled c cm path v n (xs ! k)]) ys \<Longrightarrow> k < length xs \<Longrightarrow>
     sState (xs ! k) = StateEmpty \<Longrightarrow> IsXraySupported (Some c) \<Longrightarrow> v0 \<le> v \<Longrightarrow>
     Some (endpoint c) \<notin> set (endpoints xs) \<Longrightarrow> c \<in> C \<Longrightarrow> fills v0 C xs ys"

lemma HasServerPort_endpoints:
  "HasServerPort (pc_Server c) (pc_Port c) w \<longleftrightarrow> Some (endpoint c) \<in> set (endpoints (Slots (pool w)))"
proof -
  have "(case sConfig x of None \<Rightarrow> False | Some d \<Rightarrow> pc_Server d = pc_Server c \<and> pc_Port d = pc_Port c) \<longleftrightarrow>
      Some (endpoint c) = map_option endpoint (sConfig x)" for x
    by (auto simp: endpoint_def split: option.split)
  then show ?thesis by (auto simp: HasServerPort_def endpoints_def list_ex_iff)
qed

lemma ActiveCount_endpoints: "ActiveCount w = int (length (endpoints (Slots (pool w))))"
  by (simp add: ActiveCount_def count_where_def endpoints_def)

text \<open>The serving slots after an update of one slot.\<close>

lemma filter_update_mset:
  assumes "k < length xs" and "\<not> P (xs ! k)"
  shows "filter_mset P (mset (xs[k := y])) = (if P y then {#y#} else {#}) + filter_mset P (mset xs)"
proof -
  have xs: "xs = take k xs @ xs ! k # drop (Suc k) xs" using assms(1) by (rule id_take_nth_drop)
  have "filter P xs = filter P (take k xs) @ filter P (drop (Suc k) xs)"
    using assms(2) by (subst xs) simp
  then show ?thesis using assms(1) by (simp add: upd_conv_take_nth_drop flip: mset_filter)
qed

lemma empty_not_serving: "sState x = StateEmpty \<Longrightarrow> \<not> serving x"
  by (simp add: serving_def)

lemma endpoints_clear:
  "k < length xs \<Longrightarrow> sState (xs ! k) = StateEmpty \<Longrightarrow>
     mset (endpoints (xs[k := cleared (xs ! k)])) = mset (endpoints xs)"
  by (simp add: endpoints_def filter_update_mset empty_not_serving)

lemma endpoints_serve:
  "k < length xs \<Longrightarrow> sState (xs ! k) = StateEmpty \<Longrightarrow>
     mset (endpoints (xs[k := filled c cm path v n (xs ! k)])) = add_mset (Some (endpoint c)) (mset (endpoints xs))"
  by (simp add: endpoints_def filter_update_mset empty_not_serving)

text \<open>What every filling preserves: the promise of the pool.\<close>

definition served_well :: "real \<Rightarrow> WANSlot list \<Rightarrow> bool" where
  "served_well v0 xs \<longleftrightarrow>
     (\<forall>x \<in> set xs. serving x \<longrightarrow> IsXraySupported (sConfig x) \<and> v0 \<le> sSpeedMbps x) \<and> distinct (endpoints xs)"

lemma distinct_mset_eq: "mset xs = mset ys \<Longrightarrow> distinct xs = distinct ys"
  by (metis mset_eq_imp_distinct_iff)

lemma set_update_nth: "x \<in> set (xs[k := y]) \<Longrightarrow> x = y \<or> x \<in> set xs"
  using set_update_subset_insert [of xs k y] by blast

lemma fills_served_well: "fills v0 C xs ys \<Longrightarrow> served_well v0 xs \<Longrightarrow> served_well v0 ys"
proof (induction rule: fills.induct)
  case (fills_clear xs k ys)
  have "distinct (endpoints (xs[k := cleared (xs ! k)])) = distinct (endpoints xs)"
    using endpoints_clear [OF fills_clear.hyps(2,3)] by (rule distinct_mset_eq)
  moreover have "\<not> serving (cleared (xs ! k))" by (simp add: serving_def)
  ultimately show ?case
    using fills_clear.IH fills_clear.prems unfolding served_well_def by (metis set_update_nth)
next
  case (fills_serve xs k c cm path v n ys)
  have "distinct (endpoints (xs[k := filled c cm path v n (xs ! k)])) =
      distinct (Some (endpoint c) # endpoints xs)"
    using endpoints_serve [OF fills_serve.hyps(2,3)] by (intro distinct_mset_eq) simp
  moreover have "\<forall>x \<in> set (xs[k := filled c cm path v n (xs ! k)]). serving x \<longrightarrow>
      IsXraySupported (sConfig x) \<and> v0 \<le> sSpeedMbps x"
    using fills_serve.hyps(4,5) fills_serve.prems unfolding served_well_def
    by (metis filled_simps(2,3) set_update_nth)
  ultimately show ?case
    using fills_serve.IH fills_serve.hyps(6) fills_serve.prems unfolding served_well_def by simp
qed

lemma fills_length: "fills v0 C xs ys \<Longrightarrow> length ys = length xs"
  by (induction rule: fills.induct) simp_all

lemma fills_endpoints: "fills v0 C xs ys \<Longrightarrow> mset (endpoints xs) \<subseteq># mset (endpoints ys)"
proof (induction rule: fills.induct)
  case (fills_clear xs k ys)
  then show ?case by (simp add: endpoints_clear)
next
  case (fills_serve xs k c cm path v n ys)
  have "mset (endpoints xs) \<subseteq># mset (endpoints (xs[k := filled c cm path v n (xs ! k)]))"
    unfolding endpoints_serve [OF fills_serve.hyps(2,3)] by simp
  from subset_mset.order_trans [OF this fills_serve.IH] show ?case .
qed simp

text \<open>A slot that is not empty is left alone by every filling.\<close>

lemma fills_frame:
  "fills v0 C xs ys \<Longrightarrow> k < length xs \<Longrightarrow> sState (xs ! k) \<noteq> StateEmpty \<Longrightarrow> ys ! k = xs ! k"
proof (induction rule: fills.induct)
  case (fills_clear xs j ys)
  then have "j \<noteq> k" by auto
  with fills_clear show ?case by simp
next
  case (fills_serve xs j c cm path v n ys)
  then have "j \<noteq> k" by auto
  with fills_serve show ?case by simp
qed simp

section \<open>The loops refine it\<close>

lemma test_config_config: "test_config E cfg n c w = (r, w') \<Longrightarrow> tr_Config r = c"
  by (auto simp: test_config_def TestSpeedWithStability_def test_body_def failed_result_def ask_def
      measureStability_def Let_def
      split: prod.splits option.splits sum.splits if_splits)

lemma GetSlotsByState_Empty:
  assumes "GetSlotsByState [StateEmpty] w = i # is"
  shows "in_range i w \<and> sState (slot_at i w) = StateEmpty"
proof -
  have "i \<in> set (GetSlotsByState [StateEmpty] w)" using assms by simp
  then show ?thesis by (auto simp: GetSlotsByState_def slots_where_def)
qed

lemma fill_slot_fills:
  assumes pb: "pool_between cfg w" and e: "GetSlotsByState [StateEmpty] w = i # is"
    and ok: "\<not> skipped c w" "c_MinimumSpeed cfg \<le> tr_Speed r" "c \<in> C"
    and run: "fill_slot E cfg i c r w = (done, w')"
    and rest: "fills (c_MinimumSpeed cfg) C (Slots (pool w')) ys"
  shows "fills (c_MinimumSpeed cfg) C (Slots (pool w)) ys"
proof -
  have i: "in_range i w" "sState (slot_at i w) = StateEmpty"
    using GetSlotsByState_Empty [OF e] by simp_all
  then obtain k where k: "i = int k" "k < length (Slots (pool w))" by (elim in_rangeE)
  note spec = fill_slot_spec [OF pb i run]
  show ?thesis
  proof (cases "done")
    case True
    with spec k obtain cm path where "Slots (pool w') =
        (Slots (pool w))[k := filled c cm path (tr_Speed r) (tr_StabilityScore r) (Slots (pool w) ! k)]"
      by auto
    with rest show ?thesis
      using k i ok by (auto simp: skipped_def HasServerPort_endpoints intro: fills_serve)
  next
    case False
    with spec k rest show ?thesis using i by (auto intro: fills_clear)
  qed
qed

lemma cycle_loop_fills:
  "pool_between cfg w \<Longrightarrow> cycle_loop E cfg cs results tested w = (results', w') \<Longrightarrow> set cs \<subseteq> C \<Longrightarrow>
     pool_between cfg w' \<and> candidates w' = candidates w \<and>
     fills (c_MinimumSpeed cfg) C (Slots (pool w)) (Slots (pool w'))"
proof (induction E cfg cs results tested w rule: cycle_loop.induct)
  case (1 E cfg results tested w)
  then show ?case by (simp add: fills_refl)
next
  case (2 E cfg c cs results tested w)
  show ?case
  proof (cases "(ActiveCount w \<ge> c_WanCount cfg \<and> GetSlotsByState [StateEmpty] w = []) \<or>
      tested \<ge> MaxTestPerCycleVal cfg")
    case True
    with 2 show ?thesis by (auto simp: fills_refl split: if_splits)
  next
    case go: False
    show ?thesis
    proof (cases "skipped c w")
      case True
      with go 2 show ?thesis by (simp split: if_splits)
    next
      case test: False
      obtain r w1 where t: "test_config E cfg tested c w = (r, w1)" by fastforce
      note w1 = pool_between_test [OF 2(4) t]
      have skip1: "\<not> skipped c w1" using test w1 by (simp add: skipped_def HasServerPort_def)
      show ?thesis
      proof (cases "rejected cfg r")
        case True
        with go test t w1 2 show ?thesis by (auto split: if_splits)
      next
        case pass: False
        show ?thesis
        proof (cases "GetSlotsByState [StateEmpty] w1")
          case Nil
          with go test t w1 pass 2(4-6) show ?thesis by (auto simp: fills_refl split: if_splits)
        next
          case (Cons i "is")
          obtain ok w2 where f: "fill_slot E cfg i c r w1 = (ok, w2)" by fastforce
          have between: "pool_between cfg w1" using w1 by simp
          have c: "tr_Config r = c" using t by (rule test_config_config)
          have i: "in_range i w1" "sState (slot_at i w1) = StateEmpty"
            using GetSlotsByState_Empty [OF Cons] by simp_all
          note w2 = fill_slot_spec [OF between i f]
          have "pool_between cfg w' \<and> candidates w' = candidates w2 \<and>
              fills (c_MinimumSpeed cfg) C (Slots (pool w2)) (Slots (pool w'))"
            using 2(3) [OF _ _ test t [symmetric] pass Cons] go w2 2(5,6) test t pass Cons f c
            by (auto split: if_splits)
          moreover have "fills (c_MinimumSpeed cfg) C (Slots (pool w1)) (Slots (pool w'))"
            by (rule fill_slot_fills [OF between Cons skip1 _ _ f])
              (use calculation pass 2(6) in \<open>simp_all add: rejected_def not_less\<close>)
          ultimately show ?thesis using w1 w2 by simp
        qed
      qed
    qed
  qed
qed

lemma startup_loop_fills:
  "pool_between cfg w \<Longrightarrow> startup_loop E cfg cs tested up w = (up', w') \<Longrightarrow> set cs \<subseteq> C \<Longrightarrow>
     pool_between cfg w' \<and> candidates w' = candidates w \<and>
     fills (c_MinimumSpeed cfg) C (Slots (pool w)) (Slots (pool w'))"
proof (induction E cfg cs tested up w rule: startup_loop.induct)
  case (1 E cfg tested up w)
  then show ?case by (simp add: fills_refl)
next
  case (2 E cfg c cs tested up w)
  show ?case
  proof (cases "ActiveCount w \<ge> c_WanCount cfg")
    case True
    with 2 show ?thesis by (auto simp: fills_refl)
  next
    case go: False
    show ?thesis
    proof (cases "skipped c w")
      case True
      with go 2 show ?thesis by simp
    next
      case test: False
      obtain r w1 where t: "test_config E cfg tested c w = (r, w1)" by fastforce
      note w1 = pool_between_test [OF 2(4) t]
      have skip1: "\<not> skipped c w1" using test w1 by (simp add: skipped_def HasServerPort_def)
      show ?thesis
      proof (cases "rejected cfg r")
        case True
        with go test t w1 2 show ?thesis by auto
      next
        case pass: False
        show ?thesis
        proof (cases "GetSlotsByState [StateEmpty] w1")
          case Nil
          with go test t w1 pass 2(4-6) show ?thesis by (auto simp: fills_refl)
        next
          case (Cons i "is")
          obtain ok w2 where f: "fill_slot E cfg i c r w1 = (ok, w2)" by fastforce
          have between: "pool_between cfg w1" using w1 by simp
          have i: "in_range i w1" "sState (slot_at i w1) = StateEmpty"
            using GetSlotsByState_Empty [OF Cons] by simp_all
          note w2 = fill_slot_spec [OF between i f]
          have "pool_between cfg w' \<and> candidates w' = candidates w2 \<and>
              fills (c_MinimumSpeed cfg) C (Slots (pool w2)) (Slots (pool w'))"
            using 2(3) [OF go test t [symmetric] pass Cons f [symmetric]] w2 2(5,6) go test t pass Cons f
            by simp
          moreover have "fills (c_MinimumSpeed cfg) C (Slots (pool w1)) (Slots (pool w'))"
            by (rule fill_slot_fills [OF between Cons skip1 _ _ f])
              (use calculation pass 2(6) in \<open>simp_all add: rejected_def not_less\<close>)
          ultimately show ?thesis using w1 w2 by simp
        qed
      qed
    qed
  qed
qed

section \<open>The other steps of the control loops\<close>

lemma pool_between_same:
  "pool_between cfg w \<Longrightarrow> pool w' = pool w \<Longrightarrow> procs w' = procs w \<Longrightarrow> files w' = files w \<Longrightarrow>
     file_seq w' = file_seq w \<Longrightarrow> pool_between cfg w'"
  using owned_same [of w w'] by (simp add: pool_between_def slot_count_def)

lemma pool_between_set:
  assumes "pool_between cfg w" and "owned w'" and "BasePort (pool w') = BasePort (pool w)"
    and "Slots (pool w') = (Slots (pool w))[k := y]" and "sState y \<noteq> StateTesting"
  shows "pool_between cfg w'"
  using assms by (auto simp: pool_between_def slot_count_def dest!: set_update_nth)

lemma pool_between_ResetEmpty: "pool_between cfg w \<Longrightarrow> pool_between cfg (snd (ResetEmpty i w))"
proof (cases "in_range i w")
  case True
  assume pb: "pool_between cfg w"
  show ?thesis
    by (rule pool_between_set [OF pb owned_ResetEmpty [OF pool_between_owned [OF pb]]])
      (use True ResetEmpty_effect(5) [OF pool_between_owned [OF pb] True] in \<open>auto simp: Slots_ResetEmpty\<close>)
qed (simp add: ResetEmpty_def)

lemma pool_between_reset_all: "pool_between cfg w \<Longrightarrow> pool_between cfg (reset_all is w)"
  by (induction "is" arbitrary: w) (simp_all add: reset_all_def pool_between_ResetEmpty)

lemma pool_between_field:
  assumes pb: "pool_between cfg w" and i: "in_range i w"
    and same: "sState x = sState (slot_at i w)" "sConfig x = sConfig (slot_at i w)" "sCmd x = sCmd (slot_at i w)"
      "sConfigPath x = sConfigPath (slot_at i w)" "sIndex x = sIndex (slot_at i w)"
      "sServicePort x = sServicePort (slot_at i w)"
  shows "pool_between cfg (set_slot i x w)"
proof (rule pool_between_set [OF pb owned_field [OF pool_between_owned [OF pb] i same]])
  show "sState x \<noteq> StateTesting" using pb i same(1) by (auto simp: pool_between_def elim!: in_rangeE)
qed (simp_all add: Slots_set_slot)

lemma pool_between_MarkDraining: "pool_between cfg w \<Longrightarrow> pool_between cfg (snd (MarkDraining E i w))"
  using owned_MarkDraining [OF pool_between_owned, of cfg w E i]
  by (auto simp: MarkDraining_def Let_def Slots_set_slot intro: pool_between_set)

text \<open>Updates of slots that leave what is served alone, or stop serving.\<close>

lemma endpoints_update:
  assumes "k < length xs" and "serving y = serving (xs ! k)" and "sConfig y = sConfig (xs ! k)"
  shows "endpoints (xs[k := y]) = endpoints xs"
proof -
  have "xs = take k xs @ xs ! k # drop (Suc k) xs" using assms(1) by (rule id_take_nth_drop)
  then have "endpoints xs = endpoints (take k xs @ xs ! k # drop (Suc k) xs)" by simp
  with assms show ?thesis by (simp add: upd_conv_take_nth_drop endpoints_def)
qed

lemma served_well_update:
  assumes "served_well v0 xs" and "k < length xs" and "serving y = serving (xs ! k)"
    and "sConfig y = sConfig (xs ! k)" and "sSpeedMbps y = sSpeedMbps (xs ! k)"
  shows "served_well v0 (xs[k := y])"
  using assms endpoints_update [OF assms(2-4)] nth_mem [OF assms(2)]
  unfolding served_well_def by (metis set_update_nth)

lemma served_well_stop:
  assumes "served_well v0 xs" and "k < length xs" and "\<not> serving y"
  shows "served_well v0 (xs[k := y])"
proof -
  have "xs = take k xs @ xs ! k # drop (Suc k) xs" using assms(2) by (rule id_take_nth_drop)
  then have "endpoints xs = endpoints (take k xs @ xs ! k # drop (Suc k) xs)" by simp
  then have "distinct (endpoints (take k xs @ xs ! k # drop (Suc k) xs))"
    using assms(1) unfolding served_well_def by argo
  then have "distinct (endpoints (xs[k := y]))"
    using assms(2,3) by (auto simp: upd_conv_take_nth_drop endpoints_def split: if_splits)
  with assms(1,3) show ?thesis unfolding served_well_def by (metis set_update_nth)
qed

lemma served_well_ResetEmpty:
  "served_well v0 (Slots (pool w)) \<Longrightarrow> served_well v0 (Slots (pool (snd (ResetEmpty i w))))"
  by (auto simp: Slots_ResetEmpty serving_def elim!: in_rangeE intro: served_well_stop)

lemma served_well_reset_all:
  "served_well v0 (Slots (pool w)) \<Longrightarrow> served_well v0 (Slots (pool (reset_all is w)))"
  by (induction "is" arbitrary: w) (simp_all add: reset_all_def served_well_ResetEmpty)

lemma served_well_MarkDraining:
  "served_well v0 (Slots (pool w)) \<Longrightarrow> served_well v0 (Slots (pool (snd (MarkDraining E i w))))"
  by (auto simp: MarkDraining_def Let_def Slots_set_slot serving_def elim!: in_rangeE
      intro: served_well_update)

text \<open>The invariant of the control loops; the flag adds the promise about what is served.\<close>

definition pool_safe :: "bool \<Rightarrow> Config \<Rightarrow> world \<Rightarrow> bool" where
  "pool_safe sv cfg w \<longleftrightarrow>
     pool_between cfg w \<and> (sv \<longrightarrow> served_well (c_MinimumSpeed cfg) (Slots (pool w)))"

lemma pool_safe_same:
  "pool_safe sv cfg w \<Longrightarrow> pool w' = pool w \<Longrightarrow> procs w' = procs w \<Longrightarrow> files w' = files w \<Longrightarrow>
     file_seq w' = file_seq w \<Longrightarrow> pool_safe sv cfg w'"
  using pool_between_same [of cfg w w'] by (simp add: pool_safe_def)

lemma pool_safe_steps:
  assumes "pool_safe sv cfg w"
  shows "pool_safe sv cfg (snd (ResetEmpty i w))" "pool_safe sv cfg (reset_all is w)"
    "pool_safe sv cfg (snd (MarkDraining E i w))"
  using assms unfolding pool_safe_def
  by (simp_all add: pool_between_ResetEmpty served_well_ResetEmpty pool_between_reset_all
      served_well_reset_all pool_between_MarkDraining served_well_MarkDraining)

lemma pool_safe_field:
  assumes "pool_safe sv cfg w" and "in_range i w"
    and "sState x = sState (slot_at i w)" "sConfig x = sConfig (slot_at i w)" "sCmd x = sCmd (slot_at i w)"
      "sConfigPath x = sConfigPath (slot_at i w)" "sIndex x = sIndex (slot_at i w)"
      "sServicePort x = sServicePort (slot_at i w)" and "sSpeedMbps x = sSpeedMbps (slot_at i w)"
  shows "pool_safe sv cfg (set_slot i x w)"
  using assms pool_between_field [of cfg w i x]
  by (auto simp: pool_safe_def Slots_set_slot serving_def elim!: in_rangeE intro!: served_well_update)

lemma pool_safe_counters:
  assumes "pool_safe sv cfg w"
  shows "pool_safe sv cfg (RecordFailure i w)" "pool_safe sv cfg (RecordSuccess i w)"
    "pool_safe sv cfg (IncConnCount i w)" "pool_safe sv cfg (DecConnCount i w)"
  using assms
  by (auto simp: RecordFailure_def RecordSuccess_def IncConnCount_def DecConnCount_def Let_def
      intro!: pool_safe_field)

lemma pool_safe_fills:
  "pool_safe sv cfg w \<Longrightarrow> pool_between cfg w' \<Longrightarrow> fills (c_MinimumSpeed cfg) C (Slots (pool w)) (Slots (pool w')) \<Longrightarrow>
     pool_safe sv cfg w'"
  by (simp add: pool_safe_def fills_served_well)

lemma pool_safe_cleanup: "pool_safe sv cfg w \<Longrightarrow> pool_safe sv cfg (cycle_cleanup E g w)"
  using HealthCheckAll_idle [OF pool_between_owned, of cfg "reset_all (DrainExpired E g w) w"]
    pool_safe_steps(2) [of sv cfg w "DrainExpired E g w"]
  by (simp add: cycle_cleanup_def Let_def pool_safe_def reset_all_def)

lemma fetchSubscription_frame:
  assumes "fetchSubscription L E w = (cs, w')"
  shows "pool w' = pool w" "procs w' = procs w" "files w' = files w" "file_seq w' = file_seq w"
    "candidates w' = candidates w" "trigger w' = trigger w" "tick w' = Suc (tick w)"
    "cs = (case e_fetch E (tick w) of Inl e \<Rightarrow> Some [] | Inr body \<Rightarrow> ParseConfigs (lb_lower L) body)"
  using assms by (auto simp: fetchSubscription_def ask_eq ticked_def split: sum.splits)

lemma update_candidates_frame [simp]:
  "pool (update_candidates L rs w) = pool w" "procs (update_candidates L rs w) = procs w"
  "files (update_candidates L rs w) = files w" "file_seq (update_candidates L rs w) = file_seq w"
  by (simp_all add: update_candidates_def split: option.split)

lemma writeSortedTxt_frame [simp]:
  "pool (writeSortedTxt L E rs w) = pool w" "procs (writeSortedTxt L E rs w) = procs w"
  "files (writeSortedTxt L E rs w) = files w" "file_seq (writeSortedTxt L E rs w) = file_seq w"
  "candidates (writeSortedTxt L E rs w) = candidates w"
  by (simp_all add: writeSortedTxt_def)

lemma pool_safe_marks [simp]:
  "pool_safe sv cfg (markCycleStarted t w) = pool_safe sv cfg w"
  "pool_safe sv cfg (markCycleComplete t n w) = pool_safe sv cfg w"
  "pool_safe sv cfg (w\<lparr>panicked := b\<rparr>) = pool_safe sv cfg w"
  "pool_safe sv cfg (w\<lparr>trigger := b\<rparr>) = pool_safe sv cfg w"
  "pool_safe sv cfg (update_candidates L rs w) = pool_safe sv cfg w"
  "pool_safe sv cfg (writeSortedTxt L E rs w) = pool_safe sv cfg w"
proof -
  have eq: "pool_safe sv cfg w' = pool_safe sv cfg w"
    if "pool w' = pool w" "procs w' = procs w" "files w' = files w" "file_seq w' = file_seq w" for w' :: world
    using that by (intro iffI) (erule pool_safe_same, simp_all)+
  show "pool_safe sv cfg (markCycleStarted t w) = pool_safe sv cfg w"
    "pool_safe sv cfg (markCycleComplete t n w) = pool_safe sv cfg w"
    "pool_safe sv cfg (w\<lparr>panicked := b\<rparr>) = pool_safe sv cfg w"
    "pool_safe sv cfg (w\<lparr>trigger := b\<rparr>) = pool_safe sv cfg w"
    "pool_safe sv cfg (update_candidates L rs w) = pool_safe sv cfg w"
    "pool_safe sv cfg (writeSortedTxt L E rs w) = pool_safe sv cfg w"
    by (rule eq; simp add: markCycleStarted_def markCycleComplete_def)+
qed

lemma pool_safe_replacement: "pool_safe sv cfg w \<Longrightarrow> pool_safe sv cfg (mark_replacement E cfg rs w)"
  by (simp add: mark_replacement_def Let_def pool_safe_steps split: option.split)

lemma pool_safe_runCycle:
  assumes "pool_safe sv cfg w"
  shows "pool_safe sv cfg (runCycle L E cfg g w)"
proof -
  define v where "v = cycle_cleanup E g (markCycleStarted (e_now E (tick w)) w)"
  have v: "pool_safe sv cfg v" unfolding v_def using assms by (intro pool_safe_cleanup) simp
  obtain cs w1 where f: "fetchSubscription L E v = (cs, w1)" by fastforce
  have w1: "pool_safe sv cfg w1" using v fetchSubscription_frame [OF f] by (metis pool_safe_same)
  obtain rs w2 where run: "cycle_loop E cfg (the cs) [] 0 w1 = (rs, w2)" by fastforce
  have "pool_safe sv cfg w2"
    using cycle_loop_fills [OF _ run subset_UNIV] pool_safe_fills [OF w1, of w2 UNIV] w1 by (simp add: pool_safe_def)
  then show ?thesis
    using w1 run f
    by (auto simp: runCycle_def Let_def v_def [symmetric] pool_safe_replacement split: option.split)
qed

lemma pool_safe_startup_round:
  assumes "pool_safe sv cfg w" and "startup_round L E cfg up w = (r, up', w')"
  shows "pool_safe sv cfg w'"
proof -
  obtain cs w1 where f: "fetchSubscription L E w = (cs, w1)" by fastforce
  have w1: "pool_safe sv cfg w1" using assms(1) fetchSubscription_frame [OF f] by (metis pool_safe_same)
  obtain u w2 where run: "startup_loop E cfg (the cs) 0 up w1 = (u, w2)" by fastforce
  have "pool_safe sv cfg w2"
    using startup_loop_fills [OF _ run subset_UNIV] pool_safe_fills [OF w1, of w2 UNIV] w1 by (simp add: pool_safe_def)
  then show ?thesis
    using assms(2) w1 run f
    by (auto simp: startup_round_def pool_safe_steps split: option.splits if_splits)
qed

lemma probe_answers:
  assumes "ProbeWAN E w = (err, w')"
  shows "pool w' = pool w" "procs w' = procs w" "files w' = files w" "file_seq w' = file_seq w"
    "candidates w' = candidates w" "tick w' = Suc (tick w)"
  using assms by (auto simp: ProbeWAN_def ask_eq ticked_def split: probe_outcome.splits if_splits option.splits)

lemma probe_ip_answers:
  assumes "probeExitIP E w = (r, w')"
  shows "pool w' = pool w" "procs w' = procs w" "files w' = files w" "file_seq w' = file_seq w"
    "candidates w' = candidates w" "tick w' = Suc (tick w)"
  using assms
  by (auto simp: probeExitIP_def ask_eq ticked_def Let_def split: probe_outcome.splits if_splits option.splits)

lemma pool_safe_probe_slot:
  assumes "pool_safe sv cfg w" and "in_range i w"
  shows "pool_safe sv cfg (probe_slot E cfg i w) \<and> slot_count (probe_slot E cfg i w) = slot_count w"
proof -
  obtain err w1 where p: "ProbeWAN E w = (err, w1)" by fastforce
  have w1: "pool_safe sv cfg w1" using assms(1) probe_answers [OF p] by (metis pool_safe_same)
  have i1: "in_range i w1" "slot_count w1 = slot_count w"
    using assms(2) probe_answers(1) [OF p] by (simp_all add: in_range_def slot_count_def)
  show ?thesis
  proof (cases err)
    case (Some e)
    then show ?thesis
      using p w1 i1
      by (simp add: probe_slot_def Let_def pool_safe_steps pool_safe_counters)
        (simp add: MarkDraining_def RecordFailure_def Let_def)
  next
    case None
    obtain r w2 where q: "probeExitIP E (RecordSuccess i w1) = (r, w2)" by fastforce
    have w2: "pool_safe sv cfg w2"
      using pool_safe_counters(2) [OF w1, of i] probe_ip_answers [OF q] by (metis pool_safe_same)
    have i2: "in_range i w2" "slot_count w2 = slot_count w"
      using i1 probe_ip_answers(1) [OF q] by (simp_all add: in_range_def slot_count_def RecordSuccess_def set_slot_def)
    then show ?thesis
      using None p q w2 by (auto simp: probe_slot_def set_probe_def intro!: pool_safe_field split: sum.split)
  qed
qed

lemma GetSlotsByState_in_range: "i \<in> set (GetSlotsByState sts w) \<Longrightarrow> in_range i w"
  by (auto simp: GetSlotsByState_def slots_where_def)

lemma pool_safe_probeAllWANs:
  assumes "pool_safe sv cfg w"
  shows "pool_safe sv cfg (probeAllWANs E cfg w)"
proof -
  have "pool_safe sv cfg (fold (probe_slot E cfg) is v)"
    if "pool_safe sv cfg v" "\<forall>i \<in> set is. in_range i v" for "is" v
    using that
  proof (induction "is" arbitrary: v)
    case (Cons i "is")
    then have "pool_safe sv cfg (probe_slot E cfg i v)" "slot_count (probe_slot E cfg i v) = slot_count v"
      using pool_safe_probe_slot [of sv cfg v i E] by simp_all
    with Cons show ?case by (simp add: in_range_def)
  qed simp
  then show ?thesis using assms by (simp add: probeAllWANs_def GetSlotsByState_in_range)
qed

section \<open>Bounds of a cycle\<close>

lemma cycle_loop_bounds:
  "cycle_loop E cfg cs results (int (length results)) w = (results', w') \<Longrightarrow>
     \<exists>new. results' = results @ new \<and> subseq (map tr_Config new) cs \<and>
       list_all (\<lambda>r. IsXraySupported (Some (tr_Config r))) new \<and>
       int (length results') \<le> max (int (length results)) (MaxTestPerCycleVal cfg)"
proof (induction cs arbitrary: results w)
  case (Cons c cs)
  show ?case
  proof (cases "(ActiveCount w \<ge> c_WanCount cfg \<and> GetSlotsByState [StateEmpty] w = []) \<or>
      int (length results) \<ge> MaxTestPerCycleVal cfg")
    case True
    with Cons.prems show ?thesis by (auto split: if_splits)
  next
    case go: False
    show ?thesis
    proof (cases "skipped c w")
      case True
      with go Cons.prems Cons.IH [of results w] show ?thesis by (auto split: if_splits)
    next
      case test: False
      obtain r w1 where t: "test_config E cfg (int (length results)) c w = (r, w1)" by fastforce
      have c: "tr_Config r = c" using t by (rule test_config_config)
      have one: "IsXraySupported (Some c)" using test by (simp add: skipped_def)
      have len: "int (length (results @ [r])) = int (length results) + 1" by simp
      have last: ?thesis if "results' = results @ [r]"
        using that go c one by (intro exI [of _ "[r]"]) auto
      have rec: ?thesis if "cycle_loop E cfg cs (results @ [r]) (int (length (results @ [r]))) v = (results', w')"
        (is ?run) for v
      proof -
        obtain new where "results' = (results @ [r]) @ new" "subseq (map tr_Config new) cs"
            "list_all (\<lambda>r. IsXraySupported (Some (tr_Config r))) new"
            "int (length results') \<le> max (int (length (results @ [r]))) (MaxTestPerCycleVal cfg)"
          using Cons.IH [OF \<open>?run\<close>] by blast
        with go c one show ?thesis by (intro exI [of _ "r # new"]) auto
      qed
      have "results' = results @ [r] \<or>
          (\<exists>v. cycle_loop E cfg cs (results @ [r]) (int (length results) + 1) v = (results', w'))"
        using Cons.prems go test t by (auto split: if_splits list.splits)
      with last rec show ?thesis unfolding len by blast
    qed
  qed
qed simp

text \<open>C23. One cycle tests at most MAX_TEST_PER_CYCLE configurations; the configurations tested are
  supported ones, in the order of the subscription, and each entry of it at most once.\<close>

theorem cycle_loop_bounded:
  assumes "cycle_loop E cfg cs [] 0 w = (results, w')"
  shows "int (length results) \<le> MaxTestPerCycleVal cfg \<and>
    subseq (map tr_Config results) (filter (\<lambda>c. IsXraySupported (Some c)) cs)"
proof -
  have max: "0 \<le> MaxTestPerCycleVal cfg" by (simp add: MaxTestPerCycleVal_def)
  have "subseq (map tr_Config results) cs \<and> list_all (\<lambda>r. IsXraySupported (Some (tr_Config r))) results \<and>
      int (length results) \<le> MaxTestPerCycleVal cfg"
    using cycle_loop_bounds [of E cfg cs "[]" w results w'] assms max by auto
  moreover have "filter (\<lambda>c. IsXraySupported (Some c)) (map tr_Config results) = map tr_Config results"
    if "list_all (\<lambda>r. IsXraySupported (Some (tr_Config r))) results"
    using that by (auto simp: filter_map list_all_iff comp_def filter_id_conv)
  ultimately show ?thesis by (metis subseq_filter)
qed

section \<open>A full pool\<close>

lemma no_empty_slots: "(\<forall>x \<in> set (Slots (pool w)). serving x) \<Longrightarrow> GetSlotsByState [StateEmpty] w = []"
  unfolding GetSlotsByState_def slots_where_def serving_def by (fastforce simp: filter_empty_conv dest: nth_mem)

lemma full_count: "(\<forall>x \<in> set (Slots (pool w)). serving x) \<Longrightarrow> ActiveCount w = slot_count w"
  by (simp add: ActiveCount_def count_where_def slot_count_def)

text \<open>C24. While every slot serves and no drain has expired, a cycle tests nothing and changes no
  slot, no process and no file, whatever the subscription offers: the replacement of a WAN by a
  better configuration is never reached, and the candidate pool receives no new result.\<close>

theorem full_pool_idle:
  assumes "pool_between cfg w" and "\<forall>x \<in> set (Slots (pool w)). serving x" and "DrainExpired E g w = []"
  shows "pool (runCycle L E cfg g w) = pool w \<and> procs (runCycle L E cfg g w) = procs w \<and>
    files (runCycle L E cfg g w) = files w \<and>
    (case candidates w of
       None \<Rightarrow> candidates (runCycle L E cfg g w) = None
     | Some cp \<Rightarrow> candidates (runCycle L E cfg g w) \<in> {Some cp, Some (Update (lb_sort L) [] cp)})"
proof -
  let ?w0 = "markCycleStarted (e_now E (tick w)) w"
  have own: "owned ?w0"
    using pool_between_owned [OF assms(1)] by (rule owned_same) (simp_all add: markCycleStarted_def)
  have drain: "DrainExpired E g ?w0 = []"
    using assms(3) by (simp add: DrainExpired_def slots_where_def markCycleStarted_def Let_def)
  have cleanup: "cycle_cleanup E g ?w0 = ?w0"
    using HealthCheckAll_idle [OF own] by (simp add: cycle_cleanup_def drain reset_all_def)
  obtain cs w1 where f: "fetchSubscription L E ?w0 = (cs, w1)" by fastforce
  have w1: "pool w1 = pool w" "procs w1 = procs w" "files w1 = files w" "candidates w1 = candidates w"
    using fetchSubscription_frame [OF f] by (simp_all add: markCycleStarted_def)
  have full: "ActiveCount w1 \<ge> c_WanCount cfg" "GetSlotsByState [StateEmpty] w1 = []"
    using assms(1,2) full_count [of w1] no_empty_slots [of w1] w1
    by (simp_all add: pool_between_def slot_count_def)
  have loop: "cycle_loop E cfg cs' [] 0 w1 = ([], w1)" for cs'
    using full by (cases cs') simp_all
  have repl: "mark_replacement E cfg [] v = v" for v by (simp add: mark_replacement_def)
  show ?thesis
    using w1 f loop cleanup
    by (auto simp: runCycle_def Let_def repl markCycleComplete_def update_candidates_def split: option.split)
qed

end
