(* ===== verification/CycleLive.thy ===== *)
theory CycleLive
  imports CycleProps
begin

text \<open>
  Liveness and termination of the control loops: on a working network a round of startup fills the
  pool from any subscription with enough endpoints; a cancelled startup returns; the keepalive loop
  takes a dead WAN out of service after the threshold of failures. The hypotheses about the network
  are predicates on the answer streams.
\<close>

section \<open>A working network\<close>

text \<open>Every start of xray succeeds, its port opens, and every download reaches the minimum speed.\<close>

definition working :: "env \<Rightarrow> Config \<Rightarrow> bool" where
  "working E cfg \<longleftrightarrow>
     (\<forall>n. e_start E n = Spawned \<and> True \<in> set (e_polls E n) \<and>
        (\<exists>v. DownloadMeasurer (e_download E n) (c_DownloadSize cfg) = Inr v \<and> c_MinimumSpeed cfg \<le> v))"

lemma waitPortReady_None: "waitPortReady polls addr = None \<longleftrightarrow> True \<in> set polls"
  by (induction polls addr rule: waitPortReady.induct) auto

lemma working_test:
  assumes "working E cfg" and "test_config E cfg n c w = (r, w')"
  shows "\<not> rejected cfg r"
proof -
  have net: "e_start E k = Spawned" "waitPortReady (e_polls E k) a = None"
    "\<exists>v. DownloadMeasurer (e_download E k) (c_DownloadSize cfg) = Inr v \<and> c_MinimumSpeed cfg \<le> v" for k a
    using assms(1) by (simp_all add: working_def waitPortReady_None)
  obtain v where v: "DownloadMeasurer (e_download E (Suc (Suc (tick w)))) (c_DownloadSize cfg) = Inr v"
      "c_MinimumSpeed cfg \<le> v"
    using net(3) by blast
  show ?thesis
    using assms(2) v net(1,2)
    by (auto simp: test_config_def TestSpeedWithStability_def StartXray_def test_body_def ask_eq
        rejected_def Let_def split: prod.splits if_splits)
qed

lemma working_fill:
  assumes "working E cfg" and "fill_slot E cfg i c r w = (ok, w')"
  shows "ok"
  using assms by (auto simp: working_def fill_slot_def StartXray_def Let_def)

lemma no_empty_full:
  assumes "pool_between cfg w" and "GetSlotsByState [StateEmpty] w = []"
  shows "ActiveCount w = c_WanCount cfg"
proof -
  have "serving x" if "x \<in> set (Slots (pool w))" for x
  proof -
    have "sState x \<noteq> StateTesting" using assms(1) that by (simp add: pool_between_def)
    moreover have "sState x \<noteq> StateEmpty"
      using assms(2) that
      by (auto simp: GetSlotsByState_def slots_where_def filter_empty_conv in_set_conv_nth)
    ultimately show ?thesis by (cases "sState x") (simp_all add: serving_def)
  qed
  then have "ActiveCount w = slot_count w" by (intro full_count) blast
  then show ?thesis using assms(1) by (simp add: pool_between_def)
qed

lemma full_pool_serving: "ActiveCount w = slot_count w \<Longrightarrow> x \<in> set (Slots (pool w)) \<Longrightarrow> serving x"
  by (simp add: ActiveCount_def count_where_def slot_count_def)
    (metis filter_id_conv length_filter_less less_irrefl)

lemma fills_draining:
  "fills v0 C xs ys \<Longrightarrow> k < length xs \<Longrightarrow> sState (ys ! k) = StateDraining \<Longrightarrow> sState (xs ! k) = StateDraining"
  by (induction rule: fills.induct) (auto simp: nth_list_update split: if_splits)

definition offered :: "ProxyConfig list \<Rightarrow> (string \<times> int) set" where
  "offered cs = endpoint ` {c \<in> set cs. IsXraySupported (Some c)}"

lemma offered_simps [simp]:
  "offered [] = {}"
  "offered (c # cs) = (if IsXraySupported (Some c) then insert (endpoint c) (offered cs) else offered cs)"
  by (auto simp: offered_def)

lemma fills_keeps:
  "fills v0 C xs ys \<Longrightarrow> e \<in> set (endpoints xs) \<Longrightarrow> e \<in> set (endpoints ys)"
  using fills_endpoints [of v0 C xs ys] by (metis mset_subset_eqD set_mset_mset)

lemma startup_loop_serves:
  "pool_between cfg w \<Longrightarrow> working E cfg \<Longrightarrow> startup_loop E cfg cs n up w = (up', w') \<Longrightarrow>
     ActiveCount w' \<ge> c_WanCount cfg \<or> Some ` offered cs \<subseteq> set (endpoints (Slots (pool w')))"
proof (induction E cfg cs n up w rule: startup_loop.induct)
  case (2 E cfg c cs tested up w)
  show ?case
  proof (cases "ActiveCount w \<ge> c_WanCount cfg")
    case True
    with 2 show ?thesis by auto
  next
    case go: False
    show ?thesis
    proof (cases "skipped c w")
      case True
      have rest: "startup_loop E cfg cs tested up w = (up', w')" using 2(6) go True by simp
      have "fills (c_MinimumSpeed cfg) UNIV (Slots (pool w)) (Slots (pool w'))"
        using startup_loop_fills [OF 2(4) rest subset_UNIV] by simp
      then have "IsXraySupported (Some c) \<Longrightarrow> Some (endpoint c) \<in> set (endpoints (Slots (pool w')))"
        using True by (auto simp: skipped_def HasServerPort_endpoints intro: fills_keeps)
      with 2(1) [OF go True 2(4,5) rest] show ?thesis by auto
    next
      case test: False
      obtain r w1 where t: "test_config E cfg tested c w = (r, w1)" by fastforce
      note w1 = pool_between_test [OF 2(4) t]
      have pass: "\<not> rejected cfg r" using working_test [OF 2(5) t] .
      show ?thesis
      proof (cases "GetSlotsByState [StateEmpty] w1")
        case Nil
        with go test t w1 pass 2(6) no_empty_full [of cfg w1] show ?thesis by auto
      next
        case (Cons i "is")
        obtain ok w2 where f: "fill_slot E cfg i c r w1 = (ok, w2)" by fastforce
        have i: "in_range i w1" "sState (slot_at i w1) = StateEmpty"
          using GetSlotsByState_Empty [OF Cons] by simp_all
        note w2 = fill_slot_spec [OF conjunct1 [OF w1] i f]
        have rest: "startup_loop E cfg cs (tested + 1)
            (up \<or> ok \<and> c_AllowDegradedBoot cfg \<and> ActiveCount w2 \<ge> 1) w2 = (up', w')"
          using 2(6) go test t pass Cons f by simp
        have fl: "fills (c_MinimumSpeed cfg) UNIV (Slots (pool w2)) (Slots (pool w'))"
          using startup_loop_fills [OF conjunct1 [OF w2] rest subset_UNIV] by simp
        obtain k where k: "i = int k" "k < length (Slots (pool w1))" using i(1) by (rule in_rangeE)
        obtain cm path where s2: "Slots (pool w2) = (Slots (pool w1))[k :=
            filled c cm path (tr_Speed r) (tr_StabilityScore r) (Slots (pool w1) ! k)]"
          using w2 working_fill [OF 2(5) f] k by auto
        have "Some (endpoint c) \<in># mset (endpoints (Slots (pool w2)))"
          unfolding s2 using i k by (subst endpoints_serve) simp_all
        then have "Some (endpoint c) \<in> set (endpoints (Slots (pool w')))"
          using fl by (auto intro: fills_keeps)
        with 2(3) [OF go test t [symmetric] pass Cons f [symmetric] conjunct1 [OF w2] 2(5) rest]
        show ?thesis by auto
      qed
    qed
  qed
qed simp

lemma startup_loop_full:
  assumes "pool_between cfg w" and "working E cfg" and run: "startup_loop E cfg cs n up w = (up', w')"
    and "nat (c_WanCount cfg) \<le> card (offered cs)"
  shows "ActiveCount w' = c_WanCount cfg"
proof -
  have pb: "pool_between cfg w'" using startup_loop_fills [OF assms(1) run subset_UNIV] by simp
  have "ActiveCount w' \<le> c_WanCount cfg"
    using pb by (simp add: pool_between_def slot_count_def ActiveCount_def count_where_def)
      (metis length_filter_le of_nat_le_iff)
  moreover have "ActiveCount w' \<ge> c_WanCount cfg"
  proof (rule ccontr)
    assume few: "\<not> c_WanCount cfg \<le> ActiveCount w'"
    then have "Some ` offered cs \<subseteq> set (endpoints (Slots (pool w')))"
      using startup_loop_serves [OF assms(1-3)] by simp
    then have "card (Some ` offered cs) \<le> length (endpoints (Slots (pool w')))"
      by (meson List.finite_set card_length card_mono order_trans)
    moreover have "card (Some ` offered cs) = card (offered cs)" by (simp add: card_image)
    ultimately show False
      using assms(4) few by (simp add: ActiveCount_endpoints)
  qed
  ultimately show ?thesis by simp
qed

lemma startup_round_full:
  assumes "pool_between cfg w" and "working E cfg" and "1 \<le> c_WanCount cfg"
    and "e_fetch E (tick w) = Inr body" and "ParseConfigs (lb_lower L) body = Some cs"
    and "nat (c_WanCount cfg) \<le> card (offered cs)"
  shows "\<exists>u w'. startup_round L E cfg up w = (RoundFull, u, w') \<and>
    ActiveCount w' = c_WanCount cfg \<and> pool_between cfg w' \<and>
    fills (c_MinimumSpeed cfg) (set cs) (Slots (pool w)) (Slots (pool w'))"
proof -
  obtain res w1 where f: "fetchSubscription L E w = (res, w1)" by fastforce
  note fr = fetchSubscription_frame [OF f]
  have res: "res = Some cs" using fr(8) assms(4,5) by simp
  have w1: "pool_between cfg w1" using assms(1) fr by (metis pool_between_same)
  have ne: "cs \<noteq> []" using assms(3,6) by auto
  obtain u w2 where run: "startup_loop E cfg cs 0 up w1 = (u, w2)" by fastforce
  have full: "ActiveCount w2 = c_WanCount cfg" by (rule startup_loop_full [OF w1 assms(2) run assms(6)])
  have "startup_round L E cfg up w = (RoundFull, u, w2)"
    using f res ne run full by (simp add: startup_round_def)
  then show ?thesis
    using full startup_loop_fills [OF w1 run subset_refl] fr(1) by simp
qed

text \<open>C5. Startup ends: on a working network one round over a subscription that offers at least
  WAN_COUNT different endpoints of supported protocols fills the pool, whatever slots were already
  active; startup then returns with every slot serving and the services started. The slots are
  filled as \<open>fills\<close> allows: with configurations of the subscription, and no slot that was serving changes.\<close>

theorem startup_fills_pool:
  assumes "pool_between cfg w" and "working E cfg" and "1 \<le> c_WanCount cfg"
    and "e_fetch E (tick w) = Inr body" and "ParseConfigs (lb_lower L) body = Some cs"
    and "nat (c_WanCount cfg) \<le> card (offered cs)"
  shows "\<exists>w'. startup_rounds (Suc n) L E cfg up w = Some (StartupReady, True, w') \<and>
    ActiveCount w' = c_WanCount cfg \<and> pool_between cfg w' \<and>
    fills (c_MinimumSpeed cfg) (set cs) (Slots (pool w)) (Slots (pool w'))"
  using startup_round_full [OF assms, of up] by auto

definition two_links :: string where
  "two_links = ''trojan://pw@a:10'' @ [CHR 0x0A] @ ''trojan://pw@b:20''"

definition live_env :: env where
  "live_env = calm_env\<lparr>e_fetch := \<lambda>_. Inr two_links\<rparr>"

definition live_config :: Config where
  "live_config = example_config\<lparr>c_DownloadSize := 4000000\<rparr>"

definition live_lib :: golib where
  "live_lib = \<lparr>lb_lower = id, lb_sort = insertion_sort, lb_fixed2 = (\<lambda>_. [])\<rparr>"

definition live_world :: world where
  "live_world = the (startup_world live_config small_world)"

lemma two_links_offered:
  "\<exists>cs. ParseConfigs id two_links = Some cs \<and> card (offered cs) = 2"
proof -
  let ?c = "\<lambda>s p raw. \<lparr>pc_Protocol = ''trojan'', pc_Server = s, pc_Port = p, pc_Name = [], pc_Raw = raw\<rparr>"
  let ?cs = "[?c ''a'' 10 ''trojan://pw@a:10'', ?c ''b'' 20 ''trojan://pw@b:20'']"
  have "ParseConfigs id two_links = Some ?cs" by code_simp
  moreover have "\<forall>c \<in> set ?cs. IsXraySupported (Some c)" by code_simp
  ultimately show ?thesis by (auto simp: endpoint_def)
qed

lemma working_live: "working live_env live_config"
  by (simp add: working_def live_env_def live_config_def calm_env_def example_config_def
      DownloadMeasurer_def Let_def wrap64_def)

lemma startup_world_between:
  assumes "startup_world cfg w = Some w'" and "live w = {}" and "files w = []"
  shows "pool_between cfg w' \<and> served_well v (Slots (pool w')) \<and> candidates w' = NewCandidatePool 50 \<and>
    tick w' = tick w \<and> (\<forall>x \<in> set (Slots (pool w')). sState x = StateEmpty)"
proof -
  obtain p cp where p: "NewWANPool (c_WanCount cfg) (c_WanBasePort cfg) = Some p"
      and cp: "NewCandidatePool 50 = Some cp" and w': "w' = w\<lparr>pool := p, candidates := Some cp\<rparr>"
    using assms(1) by (auto simp: startup_world_def split: option.splits)
  have "owned w'"
    by (rule owned_NewWANPool [of "c_WanCount cfg" "c_WanBasePort cfg"])
      (use p assms(2,3) w' in \<open>simp_all add: live_def\<close>)
  with p cp w' show ?thesis
    by (auto simp: pool_between_def slot_count_def NewWANPool_def new_slot_def served_well_def
        endpoints_def serving_def split: if_splits)
qed

lemma live_world_startup: "startup_world live_config small_world = Some live_world"
proof -
  have "\<exists>w. startup_world live_config small_world = Some w"
    by (simp add: startup_world_def NewWANPool_def NewCandidatePool_def live_config_def example_config_def)
  then show ?thesis unfolding live_world_def by auto
qed

lemma small_world_clean: "live small_world = {}" "files small_world = []"
  by (simp_all add: small_world_def live_def)

lemma live_world_safe: "pool_safe True live_config live_world \<and> (\<forall>x \<in> set (Slots (pool live_world)). sState x = StateEmpty)"
  using startup_world_between [OF live_world_startup small_world_clean] by (simp add: pool_safe_def)

lemma live_world_between: "pool_between live_config live_world"
  using live_world_safe by (simp add: pool_safe_def)

lemma live_answers:
  "e_fetch live_env k = Inr two_links" "lb_lower live_lib = id" "c_WanCount live_config = 2"
  by (simp_all add: live_env_def live_lib_def live_config_def example_config_def)

lemma startup_fills_pool_witness:
  "\<exists>w. startup_rounds (Suc 0) live_lib live_env live_config False live_world = Some (StartupReady, True, w) \<and>
     ActiveCount w = 2"
proof -
  obtain cs where cs: "ParseConfigs id two_links = Some cs" "card (offered cs) = 2"
    using two_links_offered by blast
  have "\<exists>w. startup_rounds (Suc 0) live_lib live_env live_config False live_world = Some (StartupReady, True, w) \<and>
      ActiveCount w = c_WanCount live_config \<and> pool_between live_config w \<and>
      fills (c_MinimumSpeed live_config) (set cs) (Slots (pool live_world)) (Slots (pool w))"
    by (rule startup_fills_pool [OF live_world_between working_live, of two_links live_lib cs 0 False])
      (simp_all add: live_answers cs)
  then show ?thesis by (auto simp only: live_answers)
qed

text \<open>The full pool that this startup leaves.\<close>

lemma full_world:
  "\<exists>u w. startup_round live_lib live_env live_config False live_world = (RoundFull, u, w) \<and>
     pool_safe True live_config w \<and> (\<forall>x \<in> set (Slots (pool w)). sState x = StateActive) \<and>
     slot_count w = 2 \<and> ActiveCount w = 2"
proof -
  obtain cs where cs: "ParseConfigs id two_links = Some cs" "card (offered cs) = 2"
    using two_links_offered by blast
  obtain u w where w: "startup_round live_lib live_env live_config False live_world = (RoundFull, u, w)"
      "ActiveCount w = c_WanCount live_config" "pool_between live_config w"
      "fills (c_MinimumSpeed live_config) (set cs) (Slots (pool live_world)) (Slots (pool w))"
    using startup_round_full [OF live_world_between working_live, of two_links live_lib cs False]
    by (auto simp: live_answers cs)
  have safe: "pool_safe True live_config w" using pool_safe_startup_round [OF _ w(1)] live_world_safe by blast
  then have n: "slot_count w = 2" by (simp add: pool_safe_def pool_between_def live_answers)
  then have all: "serving x" if "x \<in> set (Slots (pool w))" for x
    using w(2) that full_pool_serving [of w] by (simp add: live_answers)
  have "sState x \<noteq> StateDraining" if x: "x \<in> set (Slots (pool w))" for x
  proof
    assume d: "sState x = StateDraining"
    obtain k where k: "k < length (Slots (pool w))" "Slots (pool w) ! k = x"
      using x by (auto simp: in_set_conv_nth)
    have "length (Slots (pool w)) = length (Slots (pool live_world))" using fills_length [OF w(4)] .
    with k live_world_safe have "sState (Slots (pool live_world) ! k) = StateEmpty" by simp
    with fills_draining [OF w(4)] k d \<open>length _ = length _\<close> show False by simp
  qed
  with all have "\<forall>x \<in> set (Slots (pool w)). sState x = StateActive" unfolding serving_def by blast
  with w(1,2) safe n show ?thesis by (auto simp: live_answers)
qed

lemma full_pool_idle_witness:
  "\<exists>w. ActiveCount w = 2 \<and> pool (runCycle live_lib live_env live_config 60000000000 w) = pool w"
proof -
  obtain w where w: "pool_safe True live_config w" "\<forall>x \<in> set (Slots (pool w)). sState x = StateActive"
      "slot_count w = 2"
    using full_world by blast
  have sv: "\<forall>x \<in> set (Slots (pool w)). serving x" using w(2) by (simp add: serving_def)
  have "DrainExpired live_env 60000000000 w = []"
    using w(2) by (auto simp: DrainExpired_def slots_where_def filter_empty_conv Let_def)
  with full_pool_idle [OF _ sv] w(1) have "pool (runCycle live_lib live_env live_config 60000000000 w) = pool w"
    by (simp add: pool_safe_def)
  with full_count [OF sv] w(3) show ?thesis by auto
qed

section \<open>Cancellation ends startup\<close>

lemma tick_StartXray [simp]: "tick (snd (StartXray E c p m s)) = Suc (tick s)"
  by (simp add: StartXray_def remove_file_def Let_def split: start_outcome.split)

lemma tick_stop [simp]:
  "tick (StopXray c path s) = tick s" "tick (observe_test v s) = tick s"
  by (simp_all add: StopXray_def remove_file_def observe_test_def split: option.split cmd.split)

lemma tick_probe_loop: "tick s \<le> tick (snd (probe_loop E n s))"
proof (induction n arbitrary: s)
  case (Suc n)
  obtain r s1 where p: "probeExitIP E s = (r, s1)" by fastforce
  have "tick s1 = Suc (tick s)"
    using p by (auto simp: probeExitIP_def ask_eq Let_def split: probe_outcome.splits if_splits option.splits)
  with Suc [of s1] p show ?case by (simp add: case_prod_beta)
qed simp

lemma tick_test_body: "tick s \<le> tick (snd (test_body E c p d n s))"
  using tick_probe_loop [of "s\<lparr>tick := Suc (Suc (tick s))\<rparr>" E "nat n"]
  by (auto simp: test_body_def ask_eq ticked_def measureStability_def Let_def case_prod_beta
      split: option.split sum.split)

lemma tick_test_config: "tick w < tick (snd (test_config E cfg n c w))"
proof -
  obtain cm path e w1 where s: "StartXray E c (c_TestBasePort cfg + n) [] w = ((cm, path, e), w1)"
    by (metis prod_cases3 surj_pair)
  have "tick w1 = Suc (tick w)" using tick_StartXray [of E c "c_TestBasePort cfg + n" "[]" w] s by simp
  with tick_test_body [of w1 E c "c_TestBasePort cfg + n" "c_DownloadSize cfg" "c_StabilityProbes cfg"]
  show ?thesis
    by (simp add: test_config_def TestSpeedWithStability_def s Let_def case_prod_beta split: option.split)
qed

lemma tick_fields [simp]:
  "tick (snd (StartTesting i c w)) = tick w" "tick (snd (SetActive i cm p w)) = tick w"
  "tick (SetSlotSpeedMbps i v w) = tick w" "tick (SetSlotStability i n w) = tick w"
  "tick (snd (ResetEmpty i w)) = tick w"
  by (simp_all add: StartTesting_def SetActive_def SetSlotSpeedMbps_def SetSlotStability_def ResetEmpty_def
      reset_clear_def reset_stop_def Let_def split: option.split)

lemma tick_reset_all [simp]: "tick (reset_all is w) = tick w"
  by (induction "is" arbitrary: w) (simp_all add: reset_all_def)

lemma tick_fill_slot: "tick w \<le> tick (snd (fill_slot E cfg i c r w))"
proof -
  obtain cm path e w1 where s: "StartXray E c (c_WanBasePort cfg + i) [c_XrayMux cfg] (snd (StartTesting i c w)) =
      ((cm, path, e), w1)"
    by (metis prod_cases3 surj_pair)
  have "tick w1 = Suc (tick w)"
    using tick_StartXray [of E c "c_WanBasePort cfg + i" "[c_XrayMux cfg]" "snd (StartTesting i c w)"] s by simp
  then show ?thesis by (simp add: fill_slot_def s Let_def split: option.split)
qed

lemma tick_startup_loop: "tick w \<le> tick (snd (startup_loop E cfg cs n up w))"
proof (induction cs arbitrary: n up w)
  case (Cons c cs)
  obtain r w1 where t: "test_config E cfg n c w = (r, w1)" by fastforce
  have le: "tick w < tick w1" using tick_test_config [of w E cfg n c] t by simp
  show ?case
  proof (cases "GetSlotsByState [StateEmpty] w1")
    case Nil
    with t le Cons.IH [of w n up] Cons.IH [of w1 "n + 1" up] show ?thesis by simp
  next
    case (Cons i "is")
    obtain ok w2 where f: "fill_slot E cfg i c r w1 = (ok, w2)" by fastforce
    have "tick w1 \<le> tick w2" using tick_fill_slot [of w1 E cfg i c r] f by simp
    with t le f Cons Cons.IH [of w n up] Cons.IH [of w1 "n + 1" up]
      Cons.IH [of w2 "n + 1" "up \<or> ok \<and> c_AllowDegradedBoot cfg \<and> ActiveCount w2 \<ge> 1"]
    show ?thesis by simp
  qed
qed simp

lemma tick_startup_round:
  assumes "startup_round L E cfg up w = (r, up', w')"
  shows "tick w < tick w'"
proof -
  obtain cs w1 where f: "fetchSubscription L E w = (cs, w1)" by fastforce
  have "tick w1 = Suc (tick w)" using fetchSubscription_frame(7) [OF f] .
  with tick_startup_loop [of w1 E cfg "the cs" 0 up] assms f show ?thesis
    by (auto simp: startup_round_def split: option.splits if_splits prod.splits)
qed

lemma startup_rounds_more:
  "startup_rounds n L E cfg up w = Some res \<Longrightarrow> startup_rounds (n + d) L E cfg up w = Some res"
proof (induction n arbitrary: up w)
  case (Suc n)
  then show ?case by (auto split: prod.splits round_end.splits if_splits)
qed simp

text \<open>C22. Startup has no bound of its own, but it ends once the context is cancelled: when it is
  cancelled from the N-th event on, at most N further rounds are run, on any network.\<close>

theorem startup_cancellable:
  assumes "\<And>n. N \<le> n \<Longrightarrow> e_done E n"
  shows "\<exists>res. startup_rounds (Suc (N - tick w)) L E cfg up w = Some res"
proof (induction "N - tick w" arbitrary: up w rule: less_induct)
  case less
  obtain r u w1 where run: "startup_round L E cfg up w = (r, u, w1)" by (metis prod_cases3)
  have lt: "tick w < tick w1" using run by (rule tick_startup_round)
  show ?case
  proof (cases "r = RoundRetry \<and> \<not> e_done E (tick w1)")
    case True
    then have "tick w1 < N" using assms by (meson not_le)
    then obtain d where d: "N - tick w = Suc (N - tick w1 + d)" and n: "N - tick w1 < N - tick w"
      using lt by (metis diff_less_mono2 less_imp_Suc_add less_trans)
    obtain res where "startup_rounds (Suc (N - tick w1)) L E cfg u w1 = Some res"
      using less.hyps [OF n] by blast
    then have "startup_rounds (N - tick w) L E cfg u w1 = Some res"
      using startup_rounds_more [of "Suc (N - tick w1)" L E cfg u w1 res d] d by simp
    with run True show ?thesis by (cases res) simp
  next
    case False
    with run show ?thesis by (cases r) auto
  qed
qed

definition cancelled_env :: env where
  "cancelled_env =
     calm_env\<lparr>e_fetch := \<lambda>_. Inl (ErrText ''connection refused''), e_done := \<lambda>n. 3 \<le> n\<rparr>"

lemma startup_cancellable_witness:
  "\<exists>res. startup_rounds (Suc (3 - tick live_world)) live_lib cancelled_env live_config False live_world = Some res"
  by (rule startup_cancellable) (simp add: cancelled_env_def)

section \<open>Keepalive\<close>

definition probe_down :: "probe_outcome \<Rightarrow> bool" where
  "probe_down out =
     (case out of
        ProbeRoundTripError e \<Rightarrow> True
      | ProbeResponse code status body err \<Rightarrow>
          code < 200 \<or> code \<ge> 300 \<or> (length body < 4096 \<and> err \<noteq> None))"

lemma ProbeWAN_fails: "(\<exists>e. fst (ProbeWAN E w) = Some e) \<longleftrightarrow> probe_down (e_probe E (tick w))"
  by (auto simp: ProbeWAN_def ask_eq probe_down_def split: probe_outcome.split option.split)

text \<open>What a failed probe makes of the state and the failures of its slot.\<close>

definition after_failure :: "Config \<Rightarrow> WANState \<times> int \<Rightarrow> WANState \<times> int" where
  "after_failure cfg s =
     (let n = wrap64 (snd s + 1)
      in (if c_WanFailThreshold cfg > 0 \<and> n \<ge> c_WanFailThreshold cfg \<and> fst s = StateActive
          then StateDraining else fst s, n))"

definition health_of :: "int \<Rightarrow> world \<Rightarrow> WANState \<times> int" where
  "health_of i w = (GetState i w, SlotConsecutiveFails i w)"

lemma probe_slot_down:
  assumes i: "in_range i w" and down: "probe_down (e_probe E (tick w))"
  shows "slot_count (probe_slot E cfg i w) = slot_count w \<and>
    health_of j (probe_slot E cfg i w) = (if j = i then after_failure cfg (health_of i w) else health_of j w)"
proof -
  obtain e w1 where p: "ProbeWAN E w = (Some e, w1)"
    using down ProbeWAN_fails [of E w] by (metis fst_conv surj_pair)
  note w1 = probe_answers(1) [OF p]
  have i1: "in_range i w1" and at: "slot_at k w1 = slot_at k w" and c: "slot_count w1 = slot_count w"
    and r: "in_range k w1 = in_range k w" for k
    using i w1 by (simp_all add: in_range_def slot_count_def slot_at_def)
  define w2 where "w2 = RecordFailure i w1"
  have w2: "w2 = set_slot i ((slot_at i w)\<lparr>sConsecutiveFails := wrap64 (sConsecutiveFails (slot_at i w) + 1)\<rparr>) w1"
    using i1 by (simp add: w2_def RecordFailure_def Let_def at)
  have h2: "GetState j w2 = GetState j w"
      "SlotConsecutiveFails j w2 = (if j = i then wrap64 (SlotConsecutiveFails i w + 1) else SlotConsecutiveFails j w)" for j
    using i i1 r c by (auto simp: w2 GetState_def SlotConsecutiveFails_def slot_at_set_slot at)
  have i2: "in_range i w2" using i1 by (simp add: w2)
  have eq: "probe_slot E cfg i w =
      (if c_WanFailThreshold cfg > 0 \<and> SlotConsecutiveFails i w2 \<ge> c_WanFailThreshold cfg \<and> GetState i w2 = StateActive
       then snd (MarkDraining E i w2) else w2)"
    by (simp add: probe_slot_def p w2_def Let_def)
  have md: "snd (MarkDraining E i w2) = set_slot i ((slot_at i w2)\<lparr>sState := StateDraining, sDrainAt := e_now E (tick w2)\<rparr>) w2"
    if "GetState i w2 = StateActive"
    using that i2 by (simp add: MarkDraining_def GetState_def Let_def)
  have drain: "health_of j (snd (MarkDraining E i w2)) =
      (if j = i then (StateDraining, SlotConsecutiveFails i w2) else health_of j w2)"
    if "GetState i w2 = StateActive"
    unfolding md [OF that] using i2 by (auto simp: health_of_def GetState_def SlotConsecutiveFails_def slot_at_set_slot)
  show ?thesis
    using h2 drain md c unfolding eq
    by (auto simp: health_of_def after_failure_def Let_def w2)
qed

lemma probe_fold_down:
  assumes "\<And>n. probe_down (e_probe E n)"
  shows "\<forall>i \<in> set is. in_range i w \<Longrightarrow> distinct is \<Longrightarrow>
    slot_count (fold (probe_slot E cfg) is w) = slot_count w \<and>
    health_of j (fold (probe_slot E cfg) is w) = (if j \<in> set is then after_failure cfg (health_of j w) else health_of j w)"
proof (induction "is" arbitrary: w)
  case (Cons i "is")
  have i: "in_range i w" using Cons.prems(1) by simp
  let ?w = "probe_slot E cfg i w"
  have c: "slot_count ?w = slot_count w" and h: "health_of k ?w = (if k = i then after_failure cfg (health_of i w) else health_of k w)" for k
    using probe_slot_down [OF i assms, of cfg] by simp_all
  have "\<forall>k \<in> set is. in_range k ?w" using Cons.prems(1) c by (simp add: in_range_def)
  then have "slot_count (fold (probe_slot E cfg) is ?w) = slot_count ?w \<and>
    health_of j (fold (probe_slot E cfg) is ?w) = (if j \<in> set is then after_failure cfg (health_of j ?w) else health_of j ?w)"
    using Cons.prems(2) by (intro Cons.IH) simp_all
  then show ?case using Cons.prems(2) by (auto simp: c h)
qed simp

lemma keepalive_round:
  assumes "\<And>n. probe_down (e_probe E n)" and i: "in_range i w"
    and st: "GetState i w = StateActive \<or> GetState i w = StateDraining"
  shows "in_range i (probeAllWANs E cfg w) \<and>
    health_of i (probeAllWANs E cfg w) = after_failure cfg (health_of i w)"
proof -
  let ?is = "GetSlotsByState [StateActive, StateDraining] w"
  have "i \<in> set ?is"
    using i st by (auto simp: GetSlotsByState_def slots_where_def GetState_def elim!: in_rangeE)
  moreover have "distinct ?is"
    by (simp add: GetSlotsByState_def slots_where_def distinct_map)
  ultimately show ?thesis
    using probe_fold_down [OF assms(1), of ?is w cfg i] i GetSlotsByState_in_range
    by (auto simp: probeAllWANs_def in_range_def)
qed

text \<open>C20. The keepalive loop takes a dead WAN out of the active set: while every probe fails, an
  active slot with f failures on record has f + n after n rounds of probes, and it is draining
  exactly when that count has reached WAN_FAIL_THRESHOLD.\<close>

theorem keepalive_drains:
  assumes "\<And>k. probe_down (e_probe E k)" and "in_range i w" and "GetState i w = StateActive"
    and "0 < c_WanFailThreshold cfg" and "SlotConsecutiveFails i w < c_WanFailThreshold cfg"
    and "0 \<le> SlotConsecutiveFails i w" and "SlotConsecutiveFails i w + int n \<le> max_int64"
  shows "SlotConsecutiveFails i ((probeAllWANs E cfg ^^ n) w) = SlotConsecutiveFails i w + int n \<and>
    GetState i ((probeAllWANs E cfg ^^ n) w) =
      (if SlotConsecutiveFails i w + int n \<ge> c_WanFailThreshold cfg then StateDraining else StateActive)"
proof -
  have "in_range i ((probeAllWANs E cfg ^^ n) w) \<and>
      health_of i ((probeAllWANs E cfg ^^ n) w) =
        (if SlotConsecutiveFails i w + int n \<ge> c_WanFailThreshold cfg then StateDraining else StateActive,
         SlotConsecutiveFails i w + int n)"
    using assms(7)
  proof (induction n)
    case 0
    then show ?case using assms(2,3,5) by (simp add: health_of_def)
  next
    case (Suc n)
    let ?v = "(probeAllWANs E cfg ^^ n) w"
    have IH: "in_range i ?v" "health_of i ?v =
        (if SlotConsecutiveFails i w + int n \<ge> c_WanFailThreshold cfg then StateDraining else StateActive,
         SlotConsecutiveFails i w + int n)"
      using Suc by simp_all
    then have "GetState i ?v = StateActive \<or> GetState i ?v = StateDraining"
      by (simp add: health_of_def split: if_splits)
    from keepalive_round [OF assms(1) IH(1) this, of cfg]
    have "in_range i (probeAllWANs E cfg ?v)" "health_of i (probeAllWANs E cfg ?v) = after_failure cfg (health_of i ?v)"
      by simp_all
    moreover have "wrap64 (SlotConsecutiveFails i w + int n + 1) = SlotConsecutiveFails i w + int n + 1"
      using Suc.prems assms(6) by (intro wrap64_id) (simp_all add: min_int64_def)
    ultimately show ?case
      using assms(4) unfolding IH(2) by (auto simp: after_failure_def Let_def)
  qed
  then show ?thesis by (simp add: health_of_def)
qed

lemma keepalive_drains_witness:
  "\<exists>w. GetState 0 w = StateActive \<and>
     GetState 0 ((probeAllWANs (calm_env\<lparr>e_probe := \<lambda>_. ProbeRoundTripError (ErrText ''refused'')\<rparr>) live_config ^^ 2) w) =
       StateDraining"
proof -
  let ?E = "calm_env\<lparr>e_probe := \<lambda>_. ProbeRoundTripError (ErrText ''refused'')\<rparr>"
  let ?w = "set_slot 0 ((new_slot 0 2081)\<lparr>sState := StateActive\<rparr>) small_world"
  have i: "in_range 0 ?w" by (simp add: in_range_def slot_count_def small_world_def set_slot_def)
  have at: "slot_at 0 ?w = (new_slot 0 2081)\<lparr>sState := StateActive\<rparr>"
    by (simp add: slot_at_def set_slot_def small_world_def)
  have h: "GetState 0 ?w = StateActive" "SlotConsecutiveFails 0 ?w = 0"
    using i unfolding GetState_def SlotConsecutiveFails_def at by (simp_all add: new_slot_def)
  have "GetState 0 ((probeAllWANs ?E live_config ^^ 2) ?w) = StateDraining"
    using keepalive_drains [of ?E 0 ?w live_config 2] i h
    by (simp add: probe_down_def live_config_def example_config_def max_int64_def)
  with h show ?thesis by blast
qed

lemma cycle_loop_bounded_witness:
  "\<exists>rs w. cycle_loop live_env (live_config\<lparr>c_MaxTestPerCycle := 1\<rparr>) [sample_config, sample_config] [] 0 live_world =
     (rs, w) \<and> length rs \<le> 1"
proof -
  obtain rs w where run: "cycle_loop live_env (live_config\<lparr>c_MaxTestPerCycle := 1\<rparr>)
      [sample_config, sample_config] [] 0 live_world = (rs, w)" by (metis surj_pair)
  from cycle_loop_bounded [OF this] have "int (length rs) \<le> 1" by (simp add: MaxTestPerCycleVal_def)
  with run show ?thesis by simp
qed

end
