(* ===== verification/GoNet.thy ===== *)
theory GoNet
  imports GoUrl
begin

text \<open>
  The part of Go's packages net, net/netip and io that the SOCKS5 code uses: bytes, addresses in
  text form (net.ParseIP, IP.String, SplitHostPort, JoinHostPort) and connections. The text forms
  are the grammars that the package documents; a connection is the bytes that the peer will still
  send, how the stream ends, the writes that will still succeed, and what was written.
\<close>

section \<open>Bytes\<close>

type_synonym byte = "8 word"

definition string_of_bytes :: "byte list \<Rightarrow> string" where
  "string_of_bytes bs = map (\<lambda>b. char_of (unat b)) bs"

definition bytes_of_string :: "string \<Rightarrow> byte list" where
  "bytes_of_string s = map (\<lambda>c. word_of_nat (of_char c)) s"

text \<open>A 16-bit value as two bytes, most significant first: the conversion byte drops high bits.\<close>

definition be16 :: "int \<Rightarrow> byte list" where
  "be16 n = [word_of_int (drop_bit 8 n), word_of_int n]"

definition of_be16 :: "byte \<Rightarrow> byte \<Rightarrow> int" where
  "of_be16 hi lo = or (push_bit 8 (uint hi)) (uint lo)"

section \<open>Host and port\<close>

definition addr_error :: "string \<Rightarrow> string \<Rightarrow> goerror" where
  "addr_error addr why = ErrText ((if addr \<noteq> [] then ''address '' @ addr @ '': '' else []) @ why)"

definition SplitHostPort :: "string \<Rightarrow> goerror + string \<times> string" where
  "SplitHostPort hostport =
     (let fail = (\<lambda>why. Inl (addr_error hostport why)) in
      case strings_LastIndexByte hostport (CHR '':'') of
        None \<Rightarrow> fail ''missing port in address''
      | Some i \<Rightarrow>
          let close = (\<lambda>host j k.
                if CHR 0x5B \<in> set (drop j hostport) then fail (''unexpected '' @ [CHR 0x27, CHR 0x5B, CHR 0x27] @ '' in address'')
                else if CHR 0x5D \<in> set (drop k hostport) then fail (''unexpected '' @ [CHR 0x27, CHR 0x5D, CHR 0x27] @ '' in address'')
                else Inr (host, drop (i + 1) hostport))
          in if hd hostport = CHR 0x5B then
               (case strings_IndexByte hostport (CHR 0x5D) of
                  None \<Rightarrow> fail (''missing '' @ [CHR 0x27, CHR 0x5D, CHR 0x27] @ '' in address'')
                | Some e \<Rightarrow>
                    if e + 1 = length hostport then fail ''missing port in address''
                    else if e + 1 = i then close (drop 1 (take e hostport)) 1 (e + 1)
                    else if hostport ! (e + 1) = CHR '':'' then fail ''too many colons in address''
                    else fail ''missing port in address'')
             else if CHR '':'' \<in> set (take i hostport) then fail ''too many colons in address''
             else close (take i hostport) 0 0)"

definition JoinHostPort :: "string \<Rightarrow> string \<Rightarrow> string" where
  "JoinHostPort host port =
     (if CHR '':'' \<in> set host then [CHR 0x5B] @ host @ [CHR 0x5D, CHR '':''] @ port
      else host @ '':'' @ port)"

section \<open>Addresses in text form\<close>

text \<open>An octet: digits only, no leading zero, at most 255.\<close>

definition parse_octet :: "string \<Rightarrow> byte option" where
  "parse_octet s =
     (if s = [] \<or> \<not> list_all is_digit s \<or> (hd s = CHR ''0'' \<and> length s > 1) \<or> digits_value s > 255 then None
      else Some (word_of_nat (digits_value s)))"

fun all_some :: "'a option list \<Rightarrow> 'a list option" where
  "all_some [] = Some []"
| "all_some (None # xs) = None"
| "all_some (Some x # xs) = map_option (Cons x) (all_some xs)"

definition parseIPv4 :: "string \<Rightarrow> byte list option" where
  "parseIPv4 s =
     (let fields = strings_Split s (CHR ''.'')
      in if length fields \<noteq> 4 then None else all_some (map parse_octet fields))"

definition is_hex :: "char \<Rightarrow> bool" where
  "is_hex c \<longleftrightarrow> unhex c \<noteq> None"

definition hex_value :: "string \<Rightarrow> nat" where
  "hex_value s = foldl (\<lambda>n c. 16 * n + the (unhex c)) 0 s"

text \<open>The end of an IPv6 address: the whole string is used, and a gap is expanded.\<close>

definition v6_finish :: "string \<Rightarrow> byte list \<Rightarrow> nat option \<Rightarrow> byte list option" where
  "v6_finish s acc ellipsis =
     (if s \<noteq> [] then None
      else if length acc < 16 then
        (case ellipsis of
           None \<Rightarrow> None
         | Some e \<Rightarrow> Some (take e acc @ replicate (16 - length acc) 0 @ drop e acc))
      else if ellipsis \<noteq> None then None else Some acc)"

text \<open>At most k more groups of 16 bits; a group of more than four digits is an error.\<close>

fun v6_loop :: "nat \<Rightarrow> string \<Rightarrow> byte list \<Rightarrow> nat option \<Rightarrow> byte list option" where
  "v6_loop 0 s acc ellipsis = v6_finish s acc ellipsis"
| "v6_loop (Suc k) s acc ellipsis =
     (let ds = takeWhile is_hex s;
          rest = dropWhile is_hex s;
          acc' = acc @ be16 (int (hex_value ds))
      in if ds = [] \<or> length ds > 4 then None
         else
           (case rest of
              [] \<Rightarrow> v6_finish [] acc' ellipsis
            | c # s1 \<Rightarrow>
                if c = CHR ''.'' then
                  (if (ellipsis = None \<and> length acc \<noteq> 12) \<or> length acc + 4 > 16 then None
                   else (case parseIPv4 s of
                           None \<Rightarrow> None
                         | Some v4 \<Rightarrow> v6_finish [] (acc @ v4) ellipsis))
                else if c \<noteq> CHR '':'' then None
                else
                  (case s1 of
                     [] \<Rightarrow> None
                   | d # s2 \<Rightarrow>
                       if d = CHR '':'' then
                         (if ellipsis \<noteq> None then None
                          else if s2 = [] then v6_finish [] acc' (Some (length acc'))
                          else v6_loop k s2 acc' (Some (length acc')))
                       else v6_loop k s1 acc' ellipsis)))"

text \<open>A zone is never accepted by net.ParseIP.\<close>

definition parseIPv6 :: "string \<Rightarrow> byte list option" where
  "parseIPv6 s =
     (if CHR ''%'' \<in> set s then None
      else if strings_HasPrefix s ''::'' then
        (if drop 2 s = [] then Some (replicate 16 0) else v6_loop 8 (drop 2 s) [] (Some 0))
      else v6_loop 8 s [] None)"

definition v4_prefix :: "byte list" where
  "v4_prefix = replicate 10 0 @ [0xFF, 0xFF]"

definition ParseIP :: "string \<Rightarrow> byte list option" where
  "ParseIP s =
     (case dropWhile (\<lambda>c. c \<noteq> CHR ''.'' \<and> c \<noteq> CHR '':'' \<and> c \<noteq> CHR ''%'') s of
        [] \<Rightarrow> None
      | c # _ \<Rightarrow>
          if c = CHR ''.'' then map_option (\<lambda>v4. v4_prefix @ v4) (parseIPv4 s)
          else if c = CHR '':'' then parseIPv6 s
          else None)"

text \<open>IP.To4, on slices of 4 and of 16 bytes.\<close>

definition To4 :: "byte list \<Rightarrow> byte list option" where
  "To4 ip =
     (if length ip = 4 then Some ip
      else if length ip = 16 \<and> take 12 ip = v4_prefix then Some (drop 12 ip)
      else None)"

definition hex_char :: "nat \<Rightarrow> char" where
  "hex_char n = (if n < 10 then char_of (48 + n) else char_of (87 + n))"

definition appendHex :: "nat \<Rightarrow> string" where
  "appendHex x =
     (if x \<ge> 0x1000 then [hex_char (x div 0x1000)] else []) @
     (if x \<ge> 0x100 then [hex_char (x div 0x100 mod 16)] else []) @
     (if x \<ge> 0x10 then [hex_char (x div 0x10 mod 16)] else []) @ [hex_char (x mod 16)]"

fun groups16 :: "byte list \<Rightarrow> nat list" where
  "groups16 (a # b # bs) = nat (of_be16 a b) # groups16 bs"
| "groups16 _ = []"

text \<open>The first longest run of at least two zero groups, as start and end.\<close>

definition zero_run :: "nat list \<Rightarrow> nat \<Rightarrow> nat" where
  "zero_run gs i = length (takeWhile (\<lambda>g. g = 0) (drop i gs))"

definition longer_run :: "nat list \<Rightarrow> (nat \<times> nat) option \<Rightarrow> nat \<Rightarrow> (nat \<times> nat) option" where
  "longer_run gs best i =
     (let l = zero_run gs i
      in if l \<ge> 2 \<and> (case best of None \<Rightarrow> True | Some (s, e) \<Rightarrow> l > e - s) then Some (i, i + l) else best)"

definition longest_zeros :: "nat list \<Rightarrow> (nat \<times> nat) option" where
  "longest_zeros gs = foldl (longer_run gs) None [0..<length gs]"

definition colon_hex :: "nat list \<Rightarrow> string" where
  "colon_hex gs = strings_Join (map appendHex gs) '':''"

definition appendTo6 :: "nat list \<Rightarrow> string" where
  "appendTo6 gs =
     (case longest_zeros gs of
        None \<Rightarrow> colon_hex gs
      | Some (s, e) \<Rightarrow> colon_hex (take s gs) @ ''::'' @ colon_hex (drop e gs))"

definition dotted :: "byte list \<Rightarrow> string" where
  "dotted bs = strings_Join (map (\<lambda>b. nat_digits (unat b)) bs) ''.''"

text \<open>IP.String, on slices of 4 and of 16 bytes (the only ones the program builds).\<close>

definition IP_String :: "byte list \<Rightarrow> string" where
  "IP_String ip =
     (case To4 ip of
        Some p4 \<Rightarrow> dotted p4
      | None \<Rightarrow> appendTo6 (groups16 ip))"

section \<open>Connections\<close>

record conn =
  cn_in :: "byte list"
  cn_eof :: goerror
  cn_writes :: nat
  cn_out :: "byte list"
  cn_closed :: bool

definition ErrEOF :: goerror where
  "ErrEOF = ErrText ''EOF''"

definition ErrUnexpectedEOF :: goerror where
  "ErrUnexpectedEOF = ErrText ''unexpected EOF''"

text \<open>io.ReadFull: all n bytes or an error; the end of the stream inside them is unexpected.\<close>

definition ReadFull :: "nat \<Rightarrow> conn \<Rightarrow> (goerror + byte list) \<times> conn" where
  "ReadFull n c =
     (if n \<le> length (cn_in c) then (Inr (take n (cn_in c)), c\<lparr>cn_in := drop n (cn_in c)\<rparr>)
      else (Inl (if cn_in c \<noteq> [] \<and> cn_eof c = ErrEOF then ErrUnexpectedEOF else cn_eof c), c\<lparr>cn_in := []\<rparr>))"

definition ErrBrokenPipe :: goerror where
  "ErrBrokenPipe = ErrText ''broken pipe''"

definition conn_Write :: "byte list \<Rightarrow> conn \<Rightarrow> goerror option \<times> conn" where
  "conn_Write bs c =
     (if cn_writes c = 0 then (Some ErrBrokenPipe, c)
      else (None, c\<lparr>cn_writes := cn_writes c - 1, cn_out := cn_out c @ bs\<rparr>))"

definition conn_Close :: "conn \<Rightarrow> conn" where
  "conn_Close c = c\<lparr>cn_closed := True\<rparr>"

end
