(* ===== verification/Dial.thy ===== *)
theory Dial
  imports GoNet
begin

text \<open>
  The SOCKS5 client of tester.go (socks5Dial), which relays and probes use to reach a target
  through a WAN's local port: greeting, the encoding of the target as a CONNECT request, the reply.
  Each phase is a function on the connection; an error closes it. Socket options have no effect on
  the bytes and are not modelled.
\<close>

definition phase_then ::
    "(goerror + 'a) \<times> conn \<Rightarrow> ('a \<Rightarrow> conn \<Rightarrow> (goerror + 'b) \<times> conn) \<Rightarrow> (goerror + 'b) \<times> conn" where
  "phase_then r f = (case r of (Inl e, c) \<Rightarrow> (Inl e, c) | (Inr x, c) \<Rightarrow> f x c)"

definition read_phase :: "string \<Rightarrow> nat \<Rightarrow> conn \<Rightarrow> (goerror + byte list) \<times> conn" where
  "read_phase label n c =
     (case ReadFull n c of
        (Inl e, c') \<Rightarrow> (Inl (ErrWrap label e []), c')
      | (Inr bs, c') \<Rightarrow> (Inr bs, c'))"

definition write_phase :: "string \<Rightarrow> byte list \<Rightarrow> conn \<Rightarrow> (goerror + unit) \<times> conn" where
  "write_phase label bs c =
     (case conn_Write bs c of
        (Some e, c') \<Rightarrow> (Inl (ErrWrap label e []), c')
      | (None, c') \<Rightarrow> (Inr (), c'))"

definition byte_text :: "byte \<Rightarrow> string" where
  "byte_text b = strconv_Itoa (uint b)"

definition dial_greeting :: "conn \<Rightarrow> (goerror + unit) \<times> conn" where
  "dial_greeting c =
     phase_then (write_phase ''auth write: '' [0x05, 0x01, 0x00] c) (\<lambda>_ c1.
     phase_then (read_phase ''auth read: '' 2 c1) (\<lambda>buf c2.
       if buf ! 0 \<noteq> 0x05 \<or> buf ! 1 \<noteq> 0x00
       then (Inl (ErrText (''auth failed: ver='' @ byte_text (buf ! 0) @ '' status='' @ byte_text (buf ! 1))), c2)
       else (Inr (), c2)))"

text \<open>The request for host and port: IPv4, IPv6 or domain name.\<close>

definition encode_target :: "string \<Rightarrow> int \<Rightarrow> goerror + byte list" where
  "encode_target host port =
     (case ParseIP host of
        Some ip \<Rightarrow>
          (case To4 ip of
             Some ip4 \<Rightarrow> Inr ([0x05, 0x01, 0x00, 0x01] @ ip4 @ be16 port)
           | None \<Rightarrow> Inr ([0x05, 0x01, 0x00, 0x04] @ ip @ be16 port))
      | None \<Rightarrow>
          if length host > 255 then Inl (ErrText (''hostname too long: '' @ strconv_Itoa (int (length host))))
          else Inr ([0x05, 0x01, 0x00, 0x03, word_of_nat (length host)] @ bytes_of_string host @ be16 port))"

definition dial_request :: "string \<Rightarrow> goerror + byte list" where
  "dial_request targetAddr =
     (case SplitHostPort targetAddr of
        Inl e \<Rightarrow> Inl (ErrWrap ''split host port: '' e [])
      | Inr (host, portStr) \<Rightarrow>
          (case strconv_Atoi portStr of
             (port, err) \<Rightarrow>
               if err \<noteq> None \<or> port < 1 \<or> port > 65535 then Inl (ErrText (''invalid port: '' @ portStr))
               else encode_target host port))"

definition dial_reply :: "conn \<Rightarrow> (goerror + unit) \<times> conn" where
  "dial_reply c =
     phase_then (read_phase ''connect response: '' 4 c) (\<lambda>resp c1.
       if resp ! 0 \<noteq> 0x05 \<or> resp ! 1 \<noteq> 0x00
       then (Inl (ErrText (''connect failed: ver='' @ byte_text (resp ! 0) @ '' rep='' @ byte_text (resp ! 1))), c1)
       else if resp ! 3 = 0x01 then
         phase_then (read_phase ''bind addr ipv4: '' 6 c1) (\<lambda>_ c2. (Inr (), c2))
       else if resp ! 3 = 0x03 then
         phase_then (read_phase ''bind domain len: '' 1 c1) (\<lambda>n c2.
         phase_then (read_phase ''bind domain: '' (unat (n ! 0) + 2) c2) (\<lambda>_ c3. (Inr (), c3)))
       else if resp ! 3 = 0x04 then
         phase_then (read_phase ''bind addr ipv6: '' 18 c1) (\<lambda>_ c2. (Inr (), c2))
       else (Inl (ErrText (''unknown atyp: '' @ byte_text (resp ! 3))), c1))"

definition dial_handshake :: "string \<Rightarrow> conn \<Rightarrow> (goerror + unit) \<times> conn" where
  "dial_handshake targetAddr c =
     phase_then (dial_greeting c) (\<lambda>_ c1.
       case dial_request targetAddr of
         Inl e \<Rightarrow> (Inl e, c1)
       | Inr req \<Rightarrow> phase_then (write_phase ''connect write: '' req c1) (\<lambda>_ c2. dial_reply c2))"

text \<open>
  The result is an error or an open connection; the second component is what became of the
  connection, None when it was never made. The first argument is the answer of the TCP dialer.
\<close>

definition socks5Dial :: "goerror + conn \<Rightarrow> string \<Rightarrow> goerror option \<times> conn option" where
  "socks5Dial dialled targetAddr =
     (case dialled of
        Inl e \<Rightarrow> (Some (ErrWrap ''connect to socks: '' e []), None)
      | Inr c \<Rightarrow>
          (case dial_handshake targetAddr c of
             (Inl e, c') \<Rightarrow> (Some e, Some (conn_Close c'))
           | (Inr _, c') \<Rightarrow> (None, Some c')))"

section \<open>Facts about the phases\<close>

lemma ReadFull_exact [simp]:
  "cn_in c = bs @ rest \<Longrightarrow> n = length bs \<Longrightarrow> ReadFull n c = (Inr bs, c\<lparr>cn_in := rest\<rparr>)"
  by (simp add: ReadFull_def)

lemma read_phase_exact:
  "cn_in c = bs @ rest \<Longrightarrow> n = length bs \<Longrightarrow> read_phase l n c = (Inr bs, c\<lparr>cn_in := rest\<rparr>)"
  by (simp add: read_phase_def)

lemma write_phase_ok:
  "cn_writes c \<noteq> 0 \<Longrightarrow> write_phase l bs c = (Inr (), c\<lparr>cn_writes := cn_writes c - 1, cn_out := cn_out c @ bs\<rparr>)"
  by (simp add: write_phase_def conn_Write_def)

lemma phase_then_simps [simp]:
  "phase_then (Inl e, c) f = (Inl e, c)" "phase_then (Inr x, c) f = f x c"
  by (simp_all add: phase_then_def)

text \<open>A reply of an upstream that accepts, with any bound address.\<close>

inductive accepting :: "byte list \<Rightarrow> bool" where
  accept_v4: "length a = 6 \<Longrightarrow> accepting ([0x05, 0x00, r, 0x01] @ a)"
| accept_domain: "length a = unat n + 2 \<Longrightarrow> accepting ([0x05, 0x00, r, 0x03, n] @ a)"
| accept_v6: "length a = 18 \<Longrightarrow> accepting ([0x05, 0x00, r, 0x04] @ a)"

lemma dial_reply_accepting:
  assumes "accepting rep" and "cn_in c = rep @ rest"
  shows "dial_reply c = (Inr (), c\<lparr>cn_in := rest\<rparr>)"
  using assms
proof (cases rule: accepting.cases)
  case (accept_v4 a r)
  then show ?thesis
    using assms(2) read_phase_exact [of c "[0x05, 0x00, r, 0x01]" "a @ rest" 4]
    by (simp add: dial_reply_def read_phase_exact [of _ a rest])
next
  case (accept_domain a n r)
  then show ?thesis
    using assms(2) read_phase_exact [of c "[0x05, 0x00, r, 0x03]" "n # a @ rest" 4]
      read_phase_exact [of "c\<lparr>cn_in := n # a @ rest\<rparr>" "[n]" "a @ rest" 1]
    by (simp add: dial_reply_def read_phase_exact [of _ a rest])
next
  case (accept_v6 a r)
  then show ?thesis
    using assms(2) read_phase_exact [of c "[0x05, 0x00, r, 0x04]" "a @ rest" 4]
    by (simp add: dial_reply_def read_phase_exact [of _ a rest])
qed

text \<open>Against an upstream that accepts, the dial sends the greeting and the request and nothing
  else, and leaves the connection at the first byte after the reply.\<close>

lemma socks5Dial_accepted:
  assumes "cn_in c = [0x05, 0x00] @ rep @ rest" and "accepting rep" and "2 \<le> cn_writes c"
    and "dial_request target = Inr req"
  shows "socks5Dial (Inr c) target =
    (None, Some (c\<lparr>cn_in := rest, cn_writes := cn_writes c - 2,
       cn_out := cn_out c @ [0x05, 0x01, 0x00] @ req\<rparr>))"
proof -
  let ?c1 = "c\<lparr>cn_writes := cn_writes c - 1, cn_out := cn_out c @ [0x05, 0x01, 0x00]\<rparr>"
  let ?c2 = "?c1\<lparr>cn_in := rep @ rest\<rparr>"
  let ?c3 = "?c2\<lparr>cn_writes := cn_writes c - 2, cn_out := cn_out c @ [0x05, 0x01, 0x00] @ req\<rparr>"
  have greet: "dial_greeting c = (Inr (), ?c2)"
    using assms(1,3) read_phase_exact [of ?c1 "[0x05, 0x00]" "rep @ rest" 2]
    by (simp add: dial_greeting_def write_phase_ok)
  have "dial_handshake target c = dial_reply ?c3"
    using assms(3,4) greet by (simp add: dial_handshake_def write_phase_ok numeral_2_eq_2)
  also have "\<dots> = (Inr (), ?c3\<lparr>cn_in := rest\<rparr>)"
    by (rule dial_reply_accepting [OF assms(2)]) simp
  finally show ?thesis by (simp add: socks5Dial_def)
qed

end
