(* ===== verification/Relay.thy ===== *)
theory Relay
  imports Wan Router Dial
begin

text \<open>
  The plumbing that the CONNECT proxy and the SOCKS5 front end share (relay.go) and the CONNECT
  handler (proxy.go). A handler is a function of the client's connection, of the answers of the
  TCP dialer by address, of the number of bytes that each direction of the relay gets through
  before a side closes, and of the state of the program. Socket options, deadlines and log lines
  other than the access log are not modelled.
\<close>

section \<open>The relay\<close>

record wanRelay =
  wr_router :: "Router option"
  wr_AccessLog :: bool
  wr_WanFailThreshold :: int

type_synonym dialer = "string \<Rightarrow> goerror + conn"

definition add_metric_conn :: "string list \<Rightarrow> world \<Rightarrow> world" where
  "add_metric_conn ls = on_metric mx_ProxyConnections mx_ProxyConnections_update (Metric_Inc ls)"

definition add_metric_bytes :: "int \<Rightarrow> string list \<Rightarrow> world \<Rightarrow> world" where
  "add_metric_bytes n ls = on_metric mx_ProxyBytes mx_ProxyBytes_update (Metric_Add (real_of_int n) ls)"

definition observe_latency :: "real \<Rightarrow> world \<Rightarrow> world" where
  "observe_latency v = on_metric mx_ProxyLatency mx_ProxyLatency_update (Metric_Observe v [])"

definition beginWAN :: "int \<Rightarrow> string \<Rightarrow> world \<Rightarrow> world" where
  "beginWAN wanIndex proto w = add_metric_conn [strconv_Itoa wanIndex, proto] (IncConnCount wanIndex w)"

definition endWAN :: "int \<Rightarrow> world \<Rightarrow> world" where
  "endWAN wanIndex w = DecConnCount wanIndex w"

definition logAccess ::
    "wanRelay \<Rightarrow> string \<Rightarrow> int \<Rightarrow> int \<Rightarrow> int \<Rightarrow> string \<Rightarrow> string \<Rightarrow> string \<Rightarrow> world \<Rightarrow> world" where
  "logAccess r target wan up down status proto route w =
     (if \<not> wr_AccessLog r then w
      else w\<lparr>access_log := access_log w @
             [\<lparr>ac_target = target, ac_wan = wan, ac_up = up, ac_down = down, ac_status = status,
               ac_proto = proto, ac_route = route\<rparr>]\<rparr>)"

definition decideRoute :: "(string \<Rightarrow> string) \<Rightarrow> wanRelay \<Rightarrow> string \<Rightarrow> Route" where
  "decideRoute ul r targetHost =
     (case wr_router r of None \<Rightarrow> RouteWAN | Some rt \<Rightarrow> Decide ul (Some rt) targetHost)"

definition socks_addr :: "int \<Rightarrow> world \<Rightarrow> string" where
  "socks_addr wanIndex w = local_addr (sServicePort (slot_at wanIndex w))"

text \<open>On an error there is no upstream for the caller; the connection, if made, has been closed.\<close>

definition dialWAN ::
    "wanRelay \<Rightarrow> dialer \<Rightarrow> int \<Rightarrow> string \<Rightarrow> string \<Rightarrow> world \<Rightarrow> (goerror + conn) \<times> world" where
  "dialWAN r dial wanIndex targetHost proto w =
     (case socks5Dial (dial (socks_addr wanIndex w)) targetHost of
        (None, Some c) \<Rightarrow> (Inr c, w)
      | (None, None) \<Rightarrow> (Inl (ErrText []), w)
      | (Some e, _) \<Rightarrow>
          (Inl e, logAccess r targetHost wanIndex 0 0 ''err'' proto ''wan'' (RecordFailure wanIndex w)))"

definition directDial ::
    "wanRelay \<Rightarrow> dialer \<Rightarrow> string \<Rightarrow> string \<Rightarrow> world \<Rightarrow> (goerror + conn) \<times> world" where
  "directDial r dial targetHost proto w =
     (case dial targetHost of
        Inl e \<Rightarrow> (Inl e, logAccess r targetHost (-1) 0 0 ''err'' proto ''direct'' w)
      | Inr c \<Rightarrow> (Inr c, w))"

text \<open>One direction of io.Copy: n bytes, or all that the source sends.\<close>

definition io_Copy :: "nat \<Rightarrow> conn \<Rightarrow> conn \<Rightarrow> int \<times> conn" where
  "io_Copy n src dst =
     (let bs = take n (cn_in src) in (int (length bs), dst\<lparr>cn_out := cn_out dst @ bs\<rparr>))"

text \<open>
  Both directions and their counts; either goroutine closes the other side when it ends, so both
  connections are closed when the relay returns.
\<close>

definition pipe :: "nat \<times> nat \<Rightarrow> conn \<Rightarrow> conn \<Rightarrow> (int \<times> int) \<times> conn \<times> conn" where
  "pipe quota client upstream =
     (case io_Copy (fst quota) client upstream of (up, upstream') \<Rightarrow>
        (case io_Copy (snd quota) upstream client of (down, client') \<Rightarrow>
           ((up, down), conn_Close client', conn_Close upstream')))"

definition since :: "env \<Rightarrow> int \<Rightarrow> world \<Rightarrow> real" where
  "since E start w = real_of_int (saturate64 (e_now E (tick w) - start)) / 1000000000"

definition relayThroughWAN ::
    "env \<Rightarrow> wanRelay \<Rightarrow> nat \<times> nat \<Rightarrow> int \<Rightarrow> string \<Rightarrow> int \<Rightarrow> string \<Rightarrow> conn \<Rightarrow> conn \<Rightarrow> world \<Rightarrow>
     (conn \<times> conn) \<times> world" where
  "relayThroughWAN E r quota wanIndex targetHost start proto client upstream w0 =
     (case pipe quota client upstream of ((up, down), client', upstream') \<Rightarrow>
        let w1 = add_metric_bytes up [strconv_Itoa wanIndex, ''up''] (ticked w0);
            w2 = add_metric_bytes down [strconv_Itoa wanIndex, ''down''] w1;
            w3 = RecordSuccess wanIndex (observe_latency (since E start w2) w2)
        in ((client', upstream'), logAccess r targetHost wanIndex up down ''ok'' proto ''wan'' w3))"

definition directRelay ::
    "env \<Rightarrow> wanRelay \<Rightarrow> nat \<times> nat \<Rightarrow> string \<Rightarrow> int \<Rightarrow> string \<Rightarrow> conn \<Rightarrow> conn \<Rightarrow> world \<Rightarrow>
     (conn \<times> conn) \<times> world" where
  "directRelay E r quota targetHost start proto client upstream w0 =
     (case pipe quota client upstream of ((up, down), client', upstream') \<Rightarrow>
        let w1 = add_metric_bytes up [''direct'', ''up''] (ticked w0);
            w2 = add_metric_bytes down [''direct'', ''down''] w1;
            w3 = observe_latency (since E start w2) w2
        in ((client', upstream'), logAccess r targetHost (-1) up down ''ok'' proto ''direct'' w3))"

section \<open>The CONNECT proxy\<close>

record ProxyServer = wanRelay +
  px_port :: int

definition NewProxyServer :: "int \<Rightarrow> Router option list \<Rightarrow> ProxyServer" where
  "NewProxyServer port router =
     \<lparr>wr_router = (case router of [] \<Rightarrow> None | rt # _ \<Rightarrow> rt), wr_AccessLog = True,
      wr_WanFailThreshold = DefaultFailThreshold, px_port = port\<rparr>"

text \<open>What net/http gives the handler to take over the connection.\<close>

datatype hijack = HijackUnsupported | HijackFails | Hijacked conn

text \<open>What the client got: an HTTP error, or the connection with what was written to it.\<close>

datatype http_end = HttpError int string | Tunnel conn

definition established :: string where
  "established = ''HTTP/1.1 200 Connection Established'' @ [CHR 0x0D, CHR 0x0A, CHR 0x0D, CHR 0x0A]"

text \<open>The error of the write is ignored.\<close>

definition take_over :: "hijack \<Rightarrow> http_end + conn" where
  "take_over h =
     (case h of
        HijackUnsupported \<Rightarrow> Inl (HttpError 500 ''Hijacking not supported'')
      | HijackFails \<Rightarrow> Inl (HttpError 500 ''Internal Server Error'')
      | Hijacked c \<Rightarrow> Inr (snd (conn_Write (bytes_of_string established) c)))"

text \<open>The result: what the client got, the upstream if one was reached, and the state.\<close>

definition handleConnect ::
    "(string \<Rightarrow> string) \<Rightarrow> env \<Rightarrow> wanRelay \<Rightarrow> dialer \<Rightarrow> nat \<times> nat \<Rightarrow> hijack \<Rightarrow> string \<Rightarrow> world \<Rightarrow>
     (http_end \<times> conn option) \<times> world" where
  "handleConnect ul E p dial quota h targetHost w =
     (let start = e_now E (tick w) in
      if targetHost = [] then ((HttpError 400 ''Bad Request'', None), w)
      else if decideRoute ul p targetHost = RouteDirect then
        (case directDial p dial targetHost ''connect'' w of
           (Inl e, w1) \<Rightarrow> ((HttpError 502 ''Bad Gateway'', None), w1)
         | (Inr up, w1) \<Rightarrow>
             (case take_over h of
                Inl err \<Rightarrow> ((err, Some (conn_Close up)), w1)
              | Inr client \<Rightarrow>
                  (case directRelay E p quota targetHost start ''connect'' client up w1 of
                     ((client', up'), w2) \<Rightarrow> ((Tunnel client', Some up'), w2))))
      else
        let wanIndex = GetLeastLoaded [wr_WanFailThreshold p] w in
        if wanIndex < 0 then ((HttpError 503 ''No WAN Available'', None), w)
        else
          (case dialWAN p dial wanIndex targetHost ''connect'' (beginWAN wanIndex ''connect'' w) of
             (Inl e, w1) \<Rightarrow> ((HttpError 502 ''Bad Gateway'', None), endWAN wanIndex w1)
           | (Inr up, w1) \<Rightarrow>
               (case take_over h of
                  Inl err \<Rightarrow> ((err, Some (conn_Close up)), endWAN wanIndex w1)
                | Inr client \<Rightarrow>
                    (case relayThroughWAN E p quota wanIndex targetHost start ''connect'' client up w1 of
                       ((client', up'), w2) \<Rightarrow> ((Tunnel client', Some up'), endWAN wanIndex w2)))))"

definition handleDefault :: http_end where
  "handleDefault = HttpError 405 ''Method Not Allowed (CONNECT only)''"

text \<open>The handler that Start installs.\<close>

definition proxy_handler ::
    "(string \<Rightarrow> string) \<Rightarrow> env \<Rightarrow> wanRelay \<Rightarrow> dialer \<Rightarrow> nat \<times> nat \<Rightarrow> hijack \<Rightarrow> string \<Rightarrow> string \<Rightarrow> world \<Rightarrow>
     (http_end \<times> conn option) \<times> world" where
  "proxy_handler ul E p dial quota h mthd targetHost w =
     (if mthd = ''CONNECT'' then handleConnect ul E p dial quota h targetHost w
      else ((handleDefault, None), w))"

end
