(* ===== verification/Socks.thy ===== *)
theory Socks
  imports Relay
begin

text \<open>
  The SOCKS5 front end (socks.go): the greeting, the request, the choice of the route and of the
  WAN, the replies, and the relay. The read deadline of the handshake shows as the way the
  client's stream ends.
\<close>

record SocksServer = wanRelay +
  sk_port :: int

definition NewSocksServer :: "int \<Rightarrow> Router option list \<Rightarrow> SocksServer" where
  "NewSocksServer port router =
     \<lparr>wr_router = (case router of [] \<Rightarrow> None | rt # _ \<Rightarrow> rt), wr_AccessLog = True,
      wr_WanFailThreshold = DefaultFailThreshold, sk_port = port\<rparr>"

definition socks_reply :: "byte \<Rightarrow> byte list" where
  "socks_reply rep = [0x05, rep, 0x00, 0x01, 0x00, 0x00, 0x00, 0x00, 0x00, 0x00]"

definition writeSocksReply :: "byte \<Rightarrow> conn \<Rightarrow> conn" where
  "writeSocksReply rep c = snd (conn_Write (socks_reply rep) c)"

definition hex_byte :: "byte \<Rightarrow> string" where
  "hex_byte b = [hex_char (unat b div 16), hex_char (unat b mod 16)]"

definition read_host :: "byte \<Rightarrow> conn \<Rightarrow> (goerror + string) \<times> conn" where
  "read_host atyp c =
     (if atyp = 0x01 then phase_then (ReadFull 4 c) (\<lambda>buf c1. (Inr (IP_String buf), c1))
      else if atyp = 0x03 then
        phase_then (ReadFull 1 c) (\<lambda>lenBuf c1.
          if lenBuf ! 0 = 0 then (Inl (ErrText ''socks: empty domain name''), c1)
          else phase_then (ReadFull (unat (lenBuf ! 0)) c1) (\<lambda>buf c2. (Inr (string_of_bytes buf), c2)))
      else if atyp = 0x04 then phase_then (ReadFull 16 c) (\<lambda>buf c1. (Inr (IP_String buf), c1))
      else (Inl (ErrText (''socks: unsupported address type 0x'' @ hex_byte atyp)), c))"

definition parseSocksTarget :: "byte \<Rightarrow> conn \<Rightarrow> (goerror + string) \<times> conn" where
  "parseSocksTarget atyp c =
     phase_then (read_host atyp c) (\<lambda>host c1.
     phase_then (ReadFull 2 c1) (\<lambda>portBuf c2.
       let port = of_be16 (portBuf ! 0) (portBuf ! 1)
       in if port = 0 then (Inl (ErrText ''socks: invalid port 0''), c2)
          else (Inr (JoinHostPort host (strconv_Itoa port)), c2)))"

text \<open>
  Greeting and request up to the address. None: the connection is dropped without a reply. The
  result is the address type, or the reply code that refuses the request.
\<close>

definition socks_hello :: "conn \<Rightarrow> byte option \<times> conn" where
  "socks_hello c =
     (case ReadFull 2 c of
        (Inl _, c1) \<Rightarrow> (None, c1)
      | (Inr header, c1) \<Rightarrow>
          if header ! 0 \<noteq> 0x05 then (None, c1)
          else
            (case ReadFull (unat (header ! 1)) c1 of
               (Inl _, c2) \<Rightarrow> (None, c2)
             | (Inr methods, c2) \<Rightarrow>
                 (case conn_Write [0x05, 0x00] c2 of
                    (Some _, c3) \<Rightarrow> (None, c3)
                  | (None, c3) \<Rightarrow>
                      (case ReadFull 4 c3 of
                         (Inl _, c4) \<Rightarrow> (None, c4)
                       | (Inr req, c4) \<Rightarrow>
                           if req ! 0 \<noteq> 0x05 then (None, c4)
                           else if req ! 1 \<noteq> 0x01 then (None, writeSocksReply 0x07 c4)
                           else (Some (req ! 3), c4)))))"

text \<open>Once the target is known: the result is the client, the upstream if one was reached, the state.\<close>

definition socks_serve ::
    "(string \<Rightarrow> string) \<Rightarrow> env \<Rightarrow> wanRelay \<Rightarrow> dialer \<Rightarrow> nat \<times> nat \<Rightarrow> int \<Rightarrow> string \<Rightarrow> conn \<Rightarrow> world \<Rightarrow>
     (conn \<times> conn option) \<times> world" where
  "socks_serve ul E s dial quota start targetHost client w =
     (if decideRoute ul s targetHost = RouteDirect then
        (case directDial s dial targetHost ''socks5'' w of
           (Inl e, w1) \<Rightarrow> ((writeSocksReply 0x01 client, None), w1)
         | (Inr up, w1) \<Rightarrow>
             (case conn_Write (socks_reply 0x00) client of
                (Some _, client1) \<Rightarrow> ((client1, Some (conn_Close up)), w1)
              | (None, client1) \<Rightarrow>
                  (case directRelay E s quota targetHost start ''socks5'' client1 up w1 of
                     ((client2, up'), w2) \<Rightarrow> ((client2, Some up'), w2))))
      else
        let wanIndex = GetLeastLoaded [wr_WanFailThreshold s] w in
        if wanIndex < 0 then ((writeSocksReply 0x01 client, None), w)
        else
          (case dialWAN s dial wanIndex targetHost ''socks5'' (beginWAN wanIndex ''socks5'' w) of
             (Inl e, w1) \<Rightarrow> ((writeSocksReply 0x01 client, None), endWAN wanIndex w1)
           | (Inr up, w1) \<Rightarrow>
               (case conn_Write (socks_reply 0x00) client of
                  (Some _, client1) \<Rightarrow> ((client1, Some (conn_Close up)), endWAN wanIndex w1)
                | (None, client1) \<Rightarrow>
                    (case relayThroughWAN E s quota wanIndex targetHost start ''socks5'' client1 up w1 of
                       ((client2, up'), w2) \<Rightarrow> ((client2, Some up'), endWAN wanIndex w2)))))"

definition handleSocksConn ::
    "(string \<Rightarrow> string) \<Rightarrow> env \<Rightarrow> wanRelay \<Rightarrow> dialer \<Rightarrow> nat \<times> nat \<Rightarrow> conn \<Rightarrow> world \<Rightarrow>
     (conn \<times> conn option) \<times> world" where
  "handleSocksConn ul E s dial quota client w =
     (let start = e_now E (tick w) in
      case socks_hello client of
        (None, c1) \<Rightarrow> ((conn_Close c1, None), w)
      | (Some atyp, c1) \<Rightarrow>
          (case parseSocksTarget atyp c1 of
             (Inl e, c2) \<Rightarrow> ((conn_Close (writeSocksReply 0x08 c2), None), w)
           | (Inr targetHost, c2) \<Rightarrow>
               (case socks_serve ul E s dial quota start targetHost c2 w of
                  ((c3, up), w') \<Rightarrow> ((conn_Close c3, up), w'))))"

end
