(* ===== verification/Health.thy ===== *)
theory Health
  imports Ownership
begin

text \<open>
  The observability endpoints (health.go): the scrape that first refreshes the gauges of the pool,
  the liveness probe and the readiness probe. A response is its status code and its body; the
  Prometheus lines are those of the registry, for a rendering \<open>fmt\<close> of floats.
\<close>

definition speed_gauge :: "nat \<Rightarrow> world \<Rightarrow> world" where
  "speed_gauge i w =
     (let speed = SlotSpeedMbps (int i) w
      in if speed > 0
         then on_metric mx_WanSpeedMbps mx_WanSpeedMbps_update (Metric_Set speed [strconv_Itoa (int i)]) w
         else w)"

definition refreshPoolMetrics :: "world \<Rightarrow> world" where
  "refreshPoolMetrics w =
     fold speed_gauge [0..<length (Slots (pool w))]
       (on_metric mx_WansActive mx_WansActive_update (Metric_Set (real_of_int (ActiveCount w)) []) w)"

definition newline :: string where
  "newline = [CHR 0x0A]"

definition serve_metrics :: "(real \<Rightarrow> string) \<Rightarrow> world \<Rightarrow> (int \<times> string) \<times> world" where
  "serve_metrics fmt w =
     (let w' = refreshPoolMetrics w
      in ((200, concat (map (\<lambda>l. l @ newline) (Registry_Write fmt (metricsRegistry (mets w'))))), w'))"

definition healthz :: "int \<times> string" where
  "healthz = (200, ''ok'' @ newline)"

definition readyz :: "world \<Rightarrow> int \<times> string" where
  "readyz w =
     (if RoutableCount DefaultFailThreshold w \<ge> 1 then (200, ''ready'' @ newline)
      else (503, ''not ready: no routable WANs'' @ newline))"

text \<open>The mux: exact paths, anything else is net/http's not found.\<close>

definition observability_handler :: "(real \<Rightarrow> string) \<Rightarrow> string \<Rightarrow> world \<Rightarrow> (int \<times> string) \<times> world" where
  "observability_handler fmt path w =
     (if path = ''/metrics'' then serve_metrics fmt w
      else if path = ''/healthz'' then (healthz, w)
      else if path = ''/readyz'' then (readyz w, w)
      else ((404, ''404 page not found'' @ newline), w))"

section \<open>Readiness\<close>

lemma RoutableCount_pos: "1 \<le> RoutableCount t w \<longleftrightarrow> (\<exists>i. in_range i w \<and> routable t (slot_at i w))"
proof -
  have "1 \<le> RoutableCount t w \<longleftrightarrow> filter (routable t) (Slots (pool w)) \<noteq> []"
    by (cases "filter (routable t) (Slots (pool w))") (simp_all add: RoutableCount_def count_where_def)
  also have "\<dots> \<longleftrightarrow> (\<exists>i. in_range i w \<and> routable t (slot_at i w))"
    unfolding ex_in_range by (simp add: filter_empty_conv) (metis in_set_conv_nth)
  finally show ?thesis .
qed

lemma proc_exits_pool [simp]: "pool (fold proc_exits dead w) = pool w"
  by (induction dead arbitrary: w) (simp_all add: proc_exits_def)

text \<open>C39. The readiness probe answers 200 exactly when the load balancer, with the default
  threshold, has a routable slot to give; it looks at the bookkeeping of the slots only, so it
  answers the same when any of the xray children have died.\<close>

theorem readyz_correct:
  "(fst (readyz w) = 200 \<longleftrightarrow>
      in_range (GetLeastLoaded [] w) w \<and> routable DefaultFailThreshold (slot_at (GetLeastLoaded [] w) w)) \<and>
   fst (readyz w) \<in> {200, 503} \<and> readyz (fold proc_exits dead w) = readyz w"
proof -
  have "(\<exists>i. in_range i w \<and> routable DefaultFailThreshold (slot_at i w)) \<longleftrightarrow>
      in_range (GetLeastLoaded [] w) w \<and> routable DefaultFailThreshold (slot_at (GetLeastLoaded [] w) w)"
    using GetLeastLoaded_spec [of "[]" w] by (auto simp: Let_def least_loaded_of_def split: if_splits)
  moreover have "readyz (fold proc_exits dead w) = readyz w"
    by (simp add: readyz_def RoutableCount_def count_where_def)
  ultimately show ?thesis by (auto simp: readyz_def RoutableCount_pos)
qed

section \<open>The scrape\<close>

lemma series_key_single [simp]: "series_key [x] = x" "series_key [] = []"
  by (simp_all add: series_key_def)

lemma on_metric_gauge:
  assumes "metrics_shape (mets w)"
  shows "mets (on_metric mx_WansActive mx_WansActive_update (Metric_Set v []) w) =
      mx_WansActive_update (\<lambda>_. the (Metric_Set v [] (mx_WansActive (mets w)))) (mets w)"
    and "mets (on_metric mx_WanSpeedMbps mx_WanSpeedMbps_update (Metric_Set v [l]) w) =
      mx_WanSpeedMbps_update (\<lambda>_. the (Metric_Set v [l] (mx_WanSpeedMbps (mets w)))) (mets w)"
  using assms Metric_op_total(1) [of "[]" "mx_WansActive (mets w)" v]
    Metric_op_total(1) [of "[l]" "mx_WanSpeedMbps (mets w)" v]
  by (auto simp: on_metric_def metrics_shape_def metricsRegistry_def)

definition wan_speed_metric :: "int \<Rightarrow> world \<Rightarrow> real" where
  "wan_speed_metric i w = Metric_Value [strconv_Itoa i] (mx_WanSpeedMbps (mets w))"

lemma Itoa_nat_inject [simp]: "strconv_Itoa (int i) = strconv_Itoa (int j) \<longleftrightarrow> i = j"
  by (simp add: strconv_Itoa_def)

lemma speed_gauge_effect:
  assumes "metrics_shape (mets w)"
  shows "metrics_shape (mets (speed_gauge i w)) \<and> pool (speed_gauge i w) = pool w \<and>
    mx_WansActive (mets (speed_gauge i w)) = mx_WansActive (mets w) \<and>
    wan_speed_metric (int j) (speed_gauge i w) =
      (if j = i \<and> SlotSpeedMbps (int i) w > 0 then SlotSpeedMbps (int i) w else wan_speed_metric (int j) w)"
proof -
  let ?m = "mx_WanSpeedMbps (mets w)" and ?v = "SlotSpeedMbps (int i) w" and ?l = "strconv_Itoa (int i)"
  obtain m' where m': "Metric_Set ?v [?l] ?m = Some m'" "m_Labels m' = m_Labels ?m" "m_Kind m' = m_Kind ?m"
    using Metric_op_total(1) [of "[?l]" ?m ?v] assms by (auto simp: metrics_shape_def metricsRegistry_def)
  have "m_Kind ?m \<noteq> kindHistogram" using assms by (simp add: metrics_shape_def metricsRegistry_def)
  from Metric_Value_Set [OF m'(1) this] m' on_metric_gauge(2) [OF assms, of ?v ?l] assms show ?thesis
    by (auto simp: speed_gauge_def Let_def wan_speed_metric_def metrics_shape_def metricsRegistry_def)
qed

lemma SlotSpeedMbps_pool: "pool w' = pool w \<Longrightarrow> SlotSpeedMbps i w' = SlotSpeedMbps i w"
  by (simp add: SlotSpeedMbps_def in_range_def slot_count_def slot_at_def)

lemma speed_gauges_effect:
  "metrics_shape (mets w) \<Longrightarrow> distinct is \<Longrightarrow>
     metrics_shape (mets (fold speed_gauge is w)) \<and> pool (fold speed_gauge is w) = pool w \<and>
     mx_WansActive (mets (fold speed_gauge is w)) = mx_WansActive (mets w) \<and>
     wan_speed_metric (int j) (fold speed_gauge is w) =
       (if j \<in> set is \<and> SlotSpeedMbps (int j) w > 0 then SlotSpeedMbps (int j) w else wan_speed_metric (int j) w)"
proof (induction "is" arbitrary: w)
  case (Cons i "is")
  note e = speed_gauge_effect [OF Cons.prems(1), of i j]
  have "metrics_shape (mets (speed_gauge i w))" using e by simp
  from Cons.IH [OF this] Cons.prems(2) e SlotSpeedMbps_pool [of "speed_gauge i w" w] show ?case by auto
qed simp

text \<open>A scrape reports the pool: the active gauge is the number of serving slots, and the speed
  gauge of a slot is its measured speed when that is positive. A slot whose speed is zero keeps the
  value of an earlier scrape: the gauge of a slot that was reset goes stale.\<close>

theorem scrape_reports_pool:
  assumes "metrics_shape (mets w)" and "j < length (Slots (pool w))"
  shows "pool (refreshPoolMetrics w) = pool w \<and>
    Metric_Value [] (mx_WansActive (mets (refreshPoolMetrics w))) = real_of_int (ActiveCount w) \<and>
    wan_speed_metric (int j) (refreshPoolMetrics w) =
      (if SlotSpeedMbps (int j) w > 0 then SlotSpeedMbps (int j) w else wan_speed_metric (int j) w)"
proof -
  let ?v = "real_of_int (ActiveCount w)" and ?m = "mx_WansActive (mets w)"
  let ?w1 = "on_metric mx_WansActive mx_WansActive_update (Metric_Set ?v []) w"
  obtain m' where m': "Metric_Set ?v [] ?m = Some m'" "m_Labels m' = m_Labels ?m" "m_Kind m' = m_Kind ?m"
    using Metric_op_total(1) [of "[]" ?m ?v] assms(1) by (auto simp: metrics_shape_def metricsRegistry_def)
  have kind: "m_Kind ?m \<noteq> kindHistogram" using assms(1) by (simp add: metrics_shape_def metricsRegistry_def)
  note g = on_metric_gauge(1) [OF assms(1), of ?v]
  have w1: "metrics_shape (mets ?w1)" "wan_speed_metric (int j) ?w1 = wan_speed_metric (int j) w"
    "Metric_Value [] (mx_WansActive (mets ?w1)) = ?v"
    using g m' Metric_Value_Set [OF m'(1) kind, of "[]"] assms(1)
    by (simp_all add: metrics_shape_def metricsRegistry_def wan_speed_metric_def)
  from speed_gauges_effect [OF w1(1), of "[0..<length (Slots (pool w))]" j] w1(2,3) assms(2)
    SlotSpeedMbps_pool [of ?w1 w]
  show ?thesis by (simp add: refreshPoolMetrics_def)
qed

lemma scrape_reports_pool_witness:
  "Metric_Value [] (mx_WansActive (mets (refreshPoolMetrics small_world))) = 0 \<and>
   wan_speed_metric 1 (refreshPoolMetrics small_world) = 0"
proof -
  have "metrics_shape (mets small_world)" using metrics_shape_init by (simp add: small_world_def)
  moreover have "ActiveCount small_world = 0"
    by (simp add: ActiveCount_def count_where_def small_world_def new_slot_def serving_def)
  moreover have "SlotSpeedMbps 1 small_world = 0"
    by (simp add: SlotSpeedMbps_def slot_at_def small_world_def new_slot_def)
  moreover have "wan_speed_metric 1 small_world = 0"
    by (simp add: wan_speed_metric_def small_world_def init_metrics_def fresh_metric_def Metric_Value_def)
  ultimately show ?thesis
    using scrape_reports_pool [of small_world 1] by (simp add: small_world_def)
qed

end
