(* ===== verification/Api.thy ===== *)
theory Api
  imports Health Cycle
begin

text \<open>
  The control API (api.go): views of the slots and of the candidates, the cycle times, the manual
  trigger, and the drop endpoint. A response is its status, its Allow header and a body, whose text is
  the subject of \<open>ApiJson\<close>. The text forms of times are the arguments \<open>fmt\<close> (RFC 3339)
  and \<open>fmtNano\<close>.
\<close>

record WANSlotInfo =
  wi_Index :: int
  wi_State :: string
  wi_SpeedMbps :: real
  wi_Conns :: int
  wi_ExitIP :: string
  wi_LastProbe :: string
  wi_ConsecutiveFails :: int

record CycleTimingInfo =
  ct_LastCycle :: string
  ct_NextCycle :: string
  ct_SecondsUntilNext :: int

record dropWANResponse =
  dr_Status :: string
  dr_Message :: string
  dr_WAN :: "WANSlotInfo option"

record candidateView =
  cv_Name :: string
  cv_Server :: string
  cv_Port :: int
  cv_Protocol :: string
  cv_Raw :: string
  cv_Speed :: real
  cv_Error :: string

datatype api_body =
    TextBody string
  | TimingBody CycleTimingInfo
  | TriggerBody string bool
  | DropBody dropWANResponse
  | CandidatesBody "candidateView list"
  | WansBody "WANSlotInfo list"

record http_response =
  hr_code :: int
  hr_allow :: string
  hr_body :: api_body

definition http_json :: "int \<Rightarrow> api_body \<Rightarrow> http_response" where
  "http_json code body = \<lparr>hr_code = code, hr_allow = [], hr_body = body\<rparr>"

definition method_not_allowed :: "string \<Rightarrow> http_response" where
  "method_not_allowed allow =
     \<lparr>hr_code = 405, hr_allow = allow, hr_body = TextBody (''method not allowed'' @ newline)\<rparr>"

section \<open>Cycle times and trigger\<close>

definition formatCycleTime :: "(int \<Rightarrow> string) \<Rightarrow> int \<Rightarrow> string" where
  "formatCycleTime fmtNano t = (if t = 0 then [] else fmtNano t)"

text \<open>Whole seconds until the time, not below zero; the conversion truncates.\<close>

definition seconds_until :: "int \<Rightarrow> int \<Rightarrow> int" where
  "seconds_until now nextTime =
     (if nextTime = 0 then 0
      else let d = saturate64 (nextTime - now) in if d < 0 then 0 else d div second)"

definition handleGetCycleTiming :: "(int \<Rightarrow> string) \<Rightarrow> env \<Rightarrow> string \<Rightarrow> world \<Rightarrow> http_response" where
  "handleGetCycleTiming fmtNano E mthd w =
     (if mthd \<noteq> ''GET'' then method_not_allowed ''GET''
      else (case cycleTimingSnapshot w of (lastTime, nextTime) \<Rightarrow>
        http_json 200 (TimingBody
          \<lparr>ct_LastCycle = formatCycleTime fmtNano lastTime, ct_NextCycle = formatCycleTime fmtNano nextTime,
           ct_SecondsUntilNext = seconds_until (e_now E (tick w)) nextTime\<rparr>)))"

text \<open>A send on the channel of capacity one, which never blocks; the flag tells whether it was queued.\<close>

definition send_trigger :: "world \<Rightarrow> bool \<times> world" where
  "send_trigger w = (if trigger w then (False, w) else (True, w\<lparr>trigger := True\<rparr>))"

definition handleTriggerCycle :: "string \<Rightarrow> world \<Rightarrow> http_response \<times> world" where
  "handleTriggerCycle mthd w =
     (if mthd \<noteq> ''POST'' then (method_not_allowed ''POST'', w)
      else (case send_trigger w of (queued, w') \<Rightarrow> (http_json 202 (TriggerBody ''accepted'' queued), w')))"

section \<open>Views\<close>

definition wanSlotInfo :: "(int \<Rightarrow> string) \<Rightarrow> world \<Rightarrow> int \<Rightarrow> WANSlotInfo" where
  "wanSlotInfo fmt w index =
     (let slot = slot_at index w
      in \<lparr>wi_Index = index, wi_State = WANState_String (sState slot), wi_SpeedMbps = sSpeedMbps slot,
          wi_Conns = sConnCount slot, wi_ExitIP = sExitIP slot, wi_LastProbe = fmt (sLastProbe slot),
          wi_ConsecutiveFails = sConsecutiveFails slot\<rparr>)"

definition handleGetWANSlots :: "(int \<Rightarrow> string) \<Rightarrow> world \<Rightarrow> http_response" where
  "handleGetWANSlots fmt w =
     http_json 200 (WansBody (map (\<lambda>i. wanSlotInfo fmt w (int i)) [0..<length (Slots (pool w))]))"

definition candidate_view :: "TestResult \<Rightarrow> candidateView" where
  "candidate_view c =
     \<lparr>cv_Name = pc_Name (tr_Config c), cv_Server = pc_Server (tr_Config c), cv_Port = pc_Port (tr_Config c),
      cv_Protocol = pc_Protocol (tr_Config c), cv_Raw = pc_Raw (tr_Config c), cv_Speed = tr_Speed c,
      cv_Error = (case tr_Error c of None \<Rightarrow> [] | Some e \<Rightarrow> error_text e)\<rparr>"

definition handleGetCandidates :: "string \<Rightarrow> world \<Rightarrow> http_response" where
  "handleGetCandidates mthd w =
     (if mthd \<noteq> ''GET'' then method_not_allowed ''GET''
      else
        (case candidates w of
           None \<Rightarrow> http_json 200 (TextBody ''[]'')
         | Some cp \<Rightarrow> http_json 200 (CandidatesBody (map candidate_view (CandidatePool_List cp)))))"

section \<open>Drop\<close>

definition drop_prefix :: string where
  "drop_prefix = ''/api/viberoxy/wans/''"

definition parseDropWANIndex :: "string \<Rightarrow> goerror + int" where
  "parseDropWANIndex path =
     (if \<not> strings_HasPrefix path drop_prefix then Inl (ErrText ''invalid drop WAN path'')
      else
        let parts = strings_Split (strings_TrimPrefix path drop_prefix) (CHR ''/'')
        in if length parts \<noteq> 2 \<or> parts ! 0 = [] \<or> parts ! 1 \<noteq> ''drop'' then Inl (ErrText ''invalid drop WAN path'')
           else (case strconv_Atoi (parts ! 0) of
                   (index, None) \<Rightarrow> Inr index
                 | (index, Some e) \<Rightarrow> Inl (ErrText ''invalid WAN index'')))"

definition drop_response :: "string \<Rightarrow> string \<Rightarrow> api_body" where
  "drop_response status message = DropBody \<lparr>dr_Status = status, dr_Message = message, dr_WAN = None\<rparr>"

definition handleDropWAN ::
    "(int \<Rightarrow> string) \<Rightarrow> env \<Rightarrow> DropAndReplaceOptions \<Rightarrow> string \<Rightarrow> string \<Rightarrow> world \<Rightarrow> http_response \<times> world" where
  "handleDropWAN fmt E opts mthd path w =
     (if mthd \<noteq> ''POST'' then
        (\<lparr>hr_code = 405, hr_allow = ''POST'', hr_body = drop_response ''error'' ''method not allowed''\<rparr>, w)
      else
        (case parseDropWANIndex path of
           Inl e \<Rightarrow> (http_json 400 (drop_response ''error'' ''invalid WAN index''), w)
         | Inr index \<Rightarrow>
             if index < 0 \<or> index \<ge> slot_count w
             then (http_json 400 (drop_response ''error'' ''invalid WAN index''), w)
             else
               (case DropAndReplace E opts index w of
                  (Inr r, w') \<Rightarrow>
                    (http_json 200 (DropBody
                       \<lparr>dr_Status = ''replaced'', dr_Message = [], dr_WAN = Some (wanSlotInfo fmt w' index)\<rparr>), w')
                | (Inl e, w') \<Rightarrow>
                    if errors_Is (Some e) ErrNoReplacementCandidate
                    then (http_json 202 (drop_response ''replacing'' ''no candidates, fetching...''),
                          snd (send_trigger w'))
                    else if errors_Is (Some e) ErrReplacementTestFailed
                    then (http_json 502 (drop_response ''error'' ''replacement failed test''), w')
                    else (http_json 502 (drop_response ''error'' ''replacement failed to start''), w'))))"

text \<open>The options that NewAPIHandler takes from the configuration.\<close>

definition api_drop_options :: "Config option \<Rightarrow> DropAndReplaceOptions" where
  "api_drop_options cfg =
     (case cfg of
        None \<Rightarrow>
          \<lparr>do_TestPort = 0, do_DownloadSize = 0, do_StabilityProbes = 0, do_XrayMux = False,
           do_TestCandidate = None, do_StartCandidate = None\<rparr>
      | Some c \<Rightarrow>
          \<lparr>do_TestPort = c_TestBasePort c, do_DownloadSize = c_DownloadSize c,
           do_StabilityProbes = c_StabilityProbes c, do_XrayMux = c_XrayMux c,
           do_TestCandidate = None, do_StartCandidate = None\<rparr>)"

text \<open>The mux: exact paths, and the subtree of the slots.\<close>

definition api_handler ::
    "(int \<Rightarrow> string) \<Rightarrow> (int \<Rightarrow> string) \<Rightarrow> env \<Rightarrow> Config option \<Rightarrow> string \<Rightarrow> string \<Rightarrow> world \<Rightarrow>
     http_response \<times> world" where
  "api_handler fmt fmtNano E cfg mthd path w =
     (if path = ''/api/viberoxy/wans'' then (handleGetWANSlots fmt w, w)
      else if strings_HasPrefix path drop_prefix then handleDropWAN fmt E (api_drop_options cfg) mthd path w
      else if path = ''/api/viberoxy/cycle'' then (handleGetCycleTiming fmtNano E mthd w, w)
      else if path = ''/api/viberoxy/cycle/trigger'' then handleTriggerCycle mthd w
      else if path = ''/api/viberoxy/candidates'' then (handleGetCandidates mthd w, w)
      else (http_json 404 (TextBody (''404 page not found'' @ newline)), w))"

end
