(* ===== verification/System.thy ===== *)
theory System
  imports CycleLive Socks Api
begin

text \<open>
  The whole program as a transition system on one state: the rounds of startup, the events of the
  main loop, the keepalive rounds, requests to the three servers, and the deaths of children. Each
  transition is one whole operation; the interleavings inside an operation that the mutexes of the
  pool allow are studied where they matter (connection counting, a reset during a start).
\<close>

section \<open>Bookkeeping\<close>

text \<open>Two states whose slots differ in counters and probe results only.\<close>

definition core :: "WANSlot \<Rightarrow> WANSlot" where
  "core x = x\<lparr>sConnCount := 0, sConsecutiveFails := 0, sExitIP := [], sLastProbe := 0\<rparr>"

definition same_service :: "world \<Rightarrow> world \<Rightarrow> bool" where
  "same_service w w' \<longleftrightarrow>
     procs w' = procs w \<and> files w' = files w \<and> file_seq w' = file_seq w \<and> candidates w' = candidates w \<and>
     BasePort (pool w') = BasePort (pool w) \<and> map core (Slots (pool w')) = map core (Slots (pool w))"

lemma core_eqD:
  assumes "core x = core y"
  shows "sState x = sState y" "sConfig x = sConfig y" "sCmd x = sCmd y" "sConfigPath x = sConfigPath y"
    "sIndex x = sIndex y" "sServicePort x = sServicePort y" "sSpeedMbps x = sSpeedMbps y"
  using assms by (cases x, cases y, simp add: core_def)+

lemma same_service_refl [simp]: "same_service w w"
  by (simp add: same_service_def)

lemma same_service_trans [trans]: "same_service u v \<Longrightarrow> same_service v w \<Longrightarrow> same_service u w"
  by (simp add: same_service_def)

lemma same_service_outside:
  "pool w' = pool w \<Longrightarrow> procs w' = procs w \<Longrightarrow> files w' = files w \<Longrightarrow> file_seq w' = file_seq w \<Longrightarrow>
     candidates w' = candidates w \<Longrightarrow> same_service w w'"
  by (simp add: same_service_def)

lemma same_service_set_slot:
  "in_range i w \<Longrightarrow> core x = core (slot_at i w) \<Longrightarrow> same_service w (set_slot i x w)"
  by (auto simp: same_service_def Slots_set_slot map_update list_update_same_conv elim!: in_rangeE)

lemma same_service_counters:
  "same_service w (RecordFailure i w)" "same_service w (RecordSuccess i w)"
  "same_service w (IncConnCount i w)" "same_service w (DecConnCount i w)"
  by (auto simp: RecordFailure_def RecordSuccess_def IncConnCount_def DecConnCount_def Let_def core_def
      intro!: same_service_set_slot)

lemma same_service_slots:
  assumes "same_service w w'" and "k < length (Slots (pool w))"
  shows "length (Slots (pool w')) = length (Slots (pool w))"
    and "core (Slots (pool w') ! k) = core (Slots (pool w) ! k)"
proof -
  have eq: "map core (Slots (pool w')) = map core (Slots (pool w))"
    using assms(1) by (simp add: same_service_def)
  then show len: "length (Slots (pool w')) = length (Slots (pool w))" by (metis length_map)
  show "core (Slots (pool w') ! k) = core (Slots (pool w) ! k)"
    using arg_cong [OF eq, of "\<lambda>xs. xs ! k"] assms(2) len by simp
qed

lemma same_service_length: "same_service w w' \<Longrightarrow> length (Slots (pool w')) = length (Slots (pool w))"
  unfolding same_service_def by (metis length_map)

lemma owned_same_service:
  assumes own: "owned w" and same: "same_service w w'"
  shows "owned w'"
proof -
  let ?S = "Slots (pool w)" and ?S' = "Slots (pool w')"
  note fields = core_eqD [OF same_service_slots(2) [OF same]]
  have sys: "procs w' = procs w" "files w' = files w" "file_seq w' = file_seq w"
    "BasePort (pool w') = BasePort (pool w)" using same by (simp_all add: same_service_def)
  have len: "length ?S' = length ?S" using same by (rule same_service_length)
  have pids: "slot_pids (?S' ! k) = slot_pids (?S ! k)" and paths: "slot_paths (?S' ! k) = slot_paths (?S ! k)"
    and ok: "slot_ok w' (?S' ! k) = slot_ok w (?S ! k)" if "k < length ?S" for k
    by (simp_all only: slot_pids_def slot_paths_def slot_ok_def fields [OF that] sys)
  have live: "live w' = live w" and fresh: "fresh_files w' = fresh_files w"
    using sys by (simp_all add: live_def fresh_files_def)
  have dj: "disjoint_family_on (\<lambda>k. slot_pids (?S' ! k)) {..<length ?S} = disjoint_family_on (\<lambda>k. slot_pids (?S ! k)) {..<length ?S}"
      "disjoint_family_on (\<lambda>k. slot_paths (?S' ! k)) {..<length ?S} = disjoint_family_on (\<lambda>k. slot_paths (?S ! k)) {..<length ?S}"
    by (rule disjoint_family_cong, simp add: pids paths)+
  have un: "(\<Union>k < length ?S. slot_pids (?S' ! k)) = (\<Union>k < length ?S. slot_pids (?S ! k))"
      "(\<Union>k < length ?S. slot_paths (?S' ! k)) = (\<Union>k < length ?S. slot_paths (?S ! k))"
    by (simp_all add: pids paths)
  have "\<forall>k < length ?S. slot_ok w' (?S' ! k) \<and> sIndex (?S' ! k) = int k \<and>
      sServicePort (?S' ! k) = BasePort (pool w') + int k"
    using own fields(5,6) ok sys(4) unfolding owned_def by simp
  then show ?thesis
    using own unfolding owned_def len live sys(2) dj un fresh by blast
qed

lemma pool_between_same_service:
  assumes "pool_between cfg w" and "same_service w w'"
  shows "pool_between cfg w'"
proof -
  have "\<forall>x \<in> set (Slots (pool w')). sState x \<noteq> StateTesting"
    using assms(1) core_eqD(1) [OF same_service_slots(2) [OF assms(2)]] same_service_length [OF assms(2)]
    unfolding pool_between_def by (metis in_set_conv_nth)
  with assms owned_same_service [OF _ assms(2)] same_service_length [OF assms(2)] show ?thesis
    by (simp add: pool_between_def slot_count_def same_service_def)
qed

lemma served_well_same_service:
  assumes "served_well v0 (Slots (pool w))" and "same_service w w'"
  shows "served_well v0 (Slots (pool w'))"
proof -
  have "list_all2 (\<lambda>x y. core x = core y) (Slots (pool w')) (Slots (pool w))"
    using assms(2) same_service_slots [OF assms(2)] same_service_length [OF assms(2)]
    by (simp add: list_all2_conv_all_nth)
  then have "endpoints (Slots (pool w')) = endpoints (Slots (pool w)) \<and>
      (\<forall>x \<in> set (Slots (pool w')). \<exists>y \<in> set (Slots (pool w)). core x = core y)"
  proof (induction rule: list_all2_induct)
    case (Cons x xs y ys)
    then show ?case using core_eqD(1,2) [of x y] by (simp add: endpoints_def serving_def)
  qed (simp add: endpoints_def)
  moreover have "serving x = serving y" if "core x = core y" for x y
    using core_eqD(1) [OF that] by (simp add: serving_def)
  ultimately show ?thesis
    using assms(1) core_eqD(2,7) unfolding served_well_def by metis
qed

text \<open>The handlers of the front ends are bookkeeping.\<close>

lemma same_service_on_metric [simp]: "same_service w (on_metric get upd f w)"
  by (rule same_service_outside) simp_all

lemma same_service_logAccess [simp]: "same_service w (logAccess r t i up down st p rt w)"
  by (rule same_service_outside) (simp_all add: logAccess_def)

lemma same_service_ticked [simp]: "same_service w (ticked w)"
  by (rule same_service_outside) (simp_all add: ticked_def)

lemma same_service_beginWAN: "same_service w (beginWAN i p w)"
  unfolding beginWAN_def add_metric_conn_def
  by (rule same_service_trans [OF same_service_counters(3) same_service_on_metric])

lemma same_service_endWAN: "same_service v w \<Longrightarrow> same_service v (endWAN i w)"
  unfolding endWAN_def by (erule same_service_trans) (rule same_service_counters)

lemma same_service_dialWAN: "same_service w (snd (dialWAN r d i t p w))"
  by (cases "socks5Dial (d (socks_addr i w)) t")
    (auto simp: dialWAN_def split: option.split
      intro: same_service_trans [OF same_service_counters(1) same_service_logAccess])

lemma same_service_directDial: "same_service w (snd (directDial r d t p w))"
  by (simp add: directDial_def split: sum.split)

lemma same_service_relay:
  "same_service w (snd (relayThroughWAN E r q i t s p c u w))"
  "same_service w (snd (directRelay E r q t s p c u w))"
  by (auto simp: relayThroughWAN_def directRelay_def add_metric_bytes_def observe_latency_def Let_def
      case_prod_beta intro!: same_service_trans [OF _ same_service_logAccess]
        same_service_trans [OF _ same_service_counters(2)] same_service_trans [OF _ same_service_on_metric])

lemma same_service_wan:
  assumes "dialWAN s d i t p (beginWAN i p w) = (r, w1)"
  shows "same_service w w1" "same_service w (snd (relayThroughWAN E s q i t st p c u w1))"
proof -
  have "same_service w (snd (dialWAN s d i t p (beginWAN i p w)))"
    by (rule same_service_trans [OF same_service_beginWAN same_service_dialWAN])
  then show "same_service w w1" by (simp add: assms)
  then show "same_service w (snd (relayThroughWAN E s q i t st p c u w1))"
    by (rule same_service_trans) (rule same_service_relay)
qed

lemma same_service_direct:
  assumes "directDial s d t p w = (r, w1)"
  shows "same_service w w1" "same_service w (snd (directRelay E s q t st p c u w1))"
proof -
  show "same_service w w1" using same_service_directDial [of w s d t p] assms by simp
  then show "same_service w (snd (directRelay E s q t st p c u w1))"
    by (rule same_service_trans) (rule same_service_relay)
qed

lemma same_service_socks_serve: "same_service w (snd (socks_serve ul E s d q start t c w))"
proof -
  let ?i = "GetLeastLoaded [wr_WanFailThreshold s] w"
  obtain r w1 where dw: "dialWAN s d ?i t ''socks5'' (beginWAN ?i ''socks5'' w) = (r, w1)" by fastforce
  obtain r' w2 where dd: "directDial s d t ''socks5'' w = (r', w2)" by fastforce
  show ?thesis
    using dw dd
    by (auto simp: socks_serve_def Let_def case_prod_beta split: sum.split option.split
        intro!: same_service_endWAN same_service_wan [OF dw] same_service_direct [OF dd])
qed

lemma same_service_handleSocksConn: "same_service w (snd (handleSocksConn ul E s d q c w))"
  using same_service_socks_serve
  by (auto simp: handleSocksConn_def Let_def case_prod_beta split: sum.split option.split)

lemma same_service_handleConnect: "same_service w (snd (handleConnect ul E s d q h t w))"
proof -
  let ?i = "GetLeastLoaded [wr_WanFailThreshold s] w"
  obtain r w1 where dw: "dialWAN s d ?i t ''connect'' (beginWAN ?i ''connect'' w) = (r, w1)" by fastforce
  obtain r' w2 where dd: "directDial s d t ''connect'' w = (r', w2)" by fastforce
  show ?thesis
    using dw dd
    by (auto simp: handleConnect_def Let_def case_prod_beta split: sum.split
        intro!: same_service_endWAN same_service_wan [OF dw] same_service_direct [OF dd])
qed

lemma same_service_speed_gauges: "same_service w (fold speed_gauge is w)"
proof (induction "is" arbitrary: w)
  case (Cons i "is")
  have "same_service w (speed_gauge i w)" by (simp add: speed_gauge_def Let_def)
  from same_service_trans [OF this Cons.IH] show ?case by simp
qed simp

lemma same_service_observability: "same_service w (snd (observability_handler fmt path w))"
proof -
  have "same_service w (refreshPoolMetrics w)"
    unfolding refreshPoolMetrics_def by (rule same_service_trans [OF same_service_on_metric same_service_speed_gauges])
  then show ?thesis by (simp add: observability_handler_def serve_metrics_def Let_def)
qed

section \<open>Drops\<close>

lemma pool_between_DropAndReplace:
  assumes pb: "pool_between cfg w" and i: "in_range i w"
    and opts: "do_TestCandidate opts = None" "do_StartCandidate opts = None"
    and run: "DropAndReplace E opts i w = (res, w')"
  shows "pool_between cfg w'"
proof -
  have spec: "owned w' \<and> replaced i w w' res"
    by (rule xray.DropAndReplace_spec [OF pool_between_owned [OF pb] i _ _ run])
      (simp_all add: test_candidate_def start_candidate_def opts)
  obtain k where k: "i = int k" "k < length (Slots (pool w))" using i by (rule in_rangeE)
  have len: "length (Slots (pool w')) = length (Slots (pool w))" using spec by (simp add: replaced_def)
  have slot: "sServicePort (Slots (pool w') ! k) = sServicePort (Slots (pool w) ! k) \<and>
      sState (Slots (pool w') ! k) \<noteq> StateTesting"
    using spec k by (auto simp: replaced_def split: sum.splits)
  have "BasePort (pool w') = BasePort (pool w)"
    using spec pool_between_owned [OF pb] slot k len unfolding owned_def by (metis add_right_imp_eq)
  moreover have "sState (Slots (pool w') ! j) \<noteq> StateTesting" if "j < length (Slots (pool w))" for j
  proof (cases "j = k")
    case False
    then have "Slots (pool w') ! j = Slots (pool w) ! j" using spec that k by (simp add: replaced_def)
    with pb that show ?thesis by (simp add: pool_between_def)
  qed (use slot in simp)
  ultimately show ?thesis
    using pb spec len unfolding pool_between_def slot_count_def by (metis in_set_conv_nth)
qed

lemma send_trigger_same: "same_service w (snd (send_trigger w))"
  by (rule same_service_outside) (simp_all add: send_trigger_def)

lemma pool_between_api:
  assumes "pool_between cfg w"
  shows "pool_between cfg (snd (api_handler fmt fmtNano E (Some cfg) mthd path w))"
proof -
  have drop: "pool_between cfg (snd (handleDropWAN fmt E (api_drop_options (Some cfg)) mthd path w))"
  proof (cases "mthd = ''POST'' \<and> (\<exists>i. parseDropWANIndex path = Inr i \<and> in_range i w)")
    case True
    then obtain i where i: "mthd = ''POST''" "parseDropWANIndex path = Inr i" "in_range i w" by blast
    obtain res w' where run: "DropAndReplace E (api_drop_options (Some cfg)) i w = (res, w')" by fastforce
    have "pool_between cfg w'"
      by (rule pool_between_DropAndReplace [OF assms i(3) _ _ run]) (simp_all add: api_drop_options_def)
    moreover from this have "pool_between cfg (snd (send_trigger w'))"
      using send_trigger_same by (rule pool_between_same_service)
    ultimately show ?thesis
      using i run by (auto simp: handleDropWAN_def in_range_def split: sum.split)
  next
    case False
    then show ?thesis using assms by (auto simp: handleDropWAN_def in_range_def split: sum.split)
  qed
  have "pool_between cfg (snd (handleTriggerCycle mthd w))"
    using pool_between_same_service [OF assms send_trigger_same]
    by (simp add: handleTriggerCycle_def assms case_prod_beta)
  with drop assms show ?thesis by (simp add: api_handler_def)
qed

section \<open>The transition system\<close>

text \<open>
  The flag tells whether drop requests occur. The settings of the servers, the clients, the dialers
  and the requests are arbitrary in every step.
\<close>

inductive sys_step :: "bool \<Rightarrow> golib \<Rightarrow> env \<Rightarrow> Config \<Rightarrow> world \<Rightarrow> world \<Rightarrow> bool"
  for drops :: bool and L :: golib and E :: env and cfg :: Config where
  step_startup: "startup_round L E cfg up w = (r, up', w') \<Longrightarrow> sys_step drops L E cfg w w'"
| step_loop: "loop_step L E cfg ev w = Some w' \<Longrightarrow> sys_step drops L E cfg w w'"
| step_loop_start: "sys_step drops L E cfg w (loop_start E cfg w)"
| step_keepalive: "sys_step drops L E cfg w (probeAllWANs E cfg w)"
| step_api: "drops \<or> \<not> strings_HasPrefix path drop_prefix \<Longrightarrow>
    sys_step drops L E cfg w (snd (api_handler fmt fmtNano E (Some cfg) mthd path w))"
| step_observe: "sys_step drops L E cfg w (snd (observability_handler fmtReal path w))"
| step_socks: "sys_step drops L E cfg w (snd (handleSocksConn (lb_lower L) E r dial q client w))"
| step_connect: "sys_step drops L E cfg w (snd (proxy_handler (lb_lower L) E r dial q h mthd target w))"
| step_exit: "sys_step drops L E cfg w (proc_exits pid w)"

definition reachable :: "bool \<Rightarrow> golib \<Rightarrow> env \<Rightarrow> Config \<Rightarrow> world \<Rightarrow> bool" where
  "reachable drops L E cfg w' \<longleftrightarrow>
     (\<exists>w0 w. startup_world cfg w0 = Some w \<and> live w0 = {} \<and> files w0 = [] \<and> (sys_step drops L E cfg)\<^sup>*\<^sup>* w w')"

lemma drain_fold_safe:
  "set is \<subseteq> {..<length (Slots (pool w))} \<Longrightarrow> pool_safe sv cfg w \<Longrightarrow> pool_safe sv cfg (foldl (drain_slot E) w is)"
proof (induction "is" arbitrary: w)
  case (Cons i "is")
  then have "drain_slot E w i = snd (MarkDraining E (int i) w)"
    by (simp add: drain_slot_def MarkDraining_def Let_def)
  with Cons pool_safe_steps(3) [of sv cfg w E "int i"] show ?case
    by (metis drain_slot_length foldl_Cons insert_subset list.simps(15))
qed simp

lemma pool_safe_ShutdownAll: "pool_safe sv cfg w \<Longrightarrow> pool_safe sv cfg (ShutdownAll E w)"
  using drain_fold_safe [of "[0..<length (Slots (pool w))]" w sv cfg E]
  by (simp add: ShutdownAll_def Let_def pool_safe_steps(2) lessThan_atLeast0)

lemma pool_safe_same_service: "pool_safe sv cfg w \<Longrightarrow> same_service w w' \<Longrightarrow> pool_safe sv cfg w'"
  using pool_between_same_service served_well_same_service unfolding pool_safe_def by blast

lemma pool_safe_proc_exits: "pool_safe sv cfg w \<Longrightarrow> pool_safe sv cfg (proc_exits pid w)"
proof -
  assume ps: "pool_safe sv cfg w"
  have "pool (proc_exits pid w) = pool w" using proc_exits_pool [of "[pid]" w] by simp
  with ps owned_proc_exits [of w pid] show ?thesis
    by (simp add: pool_safe_def pool_between_def slot_count_def)
qed

lemma pool_safe_loop_step: "pool_safe sv cfg w \<Longrightarrow> loop_step L E cfg ev w = Some w' \<Longrightarrow> pool_safe sv cfg w'"
  by (auto simp: loop_step_def pool_safe_runCycle pool_safe_ShutdownAll split: loop_event.splits if_splits)

lemma same_service_loop_start: "same_service w (loop_start E cfg w)"
  by (rule same_service_outside) (simp_all add: loop_start_def markCycleComplete_def)

lemma pool_safe_api:
  assumes "pool_safe (\<not> drops) cfg w" and "drops \<or> \<not> strings_HasPrefix path drop_prefix"
  shows "pool_safe (\<not> drops) cfg (snd (api_handler fmt fmtNano E (Some cfg) mthd path w))"
proof (cases drops)
  case True
  with assms pool_between_api show ?thesis by (simp add: pool_safe_def)
next
  case False
  have "pool_safe True cfg (snd (handleTriggerCycle mthd w))"
    using assms(1) False pool_safe_same_service [OF _ send_trigger_same]
    by (simp add: handleTriggerCycle_def case_prod_beta)
  with assms False show ?thesis by (simp add: api_handler_def)
qed

text \<open>Every step keeps the invariant, by the cases of the relation.\<close>

lemma pool_safe_step:
  assumes "sys_step drops L E cfg w w'" and "pool_safe (\<not> drops) cfg w"
  shows "pool_safe (\<not> drops) cfg w'"
  using assms(1)
proof (cases rule: sys_step.cases)
  case step_startup
  with assms(2) pool_safe_startup_round show ?thesis by blast
next
  case step_loop
  with assms(2) pool_safe_loop_step show ?thesis by blast
next
  case step_loop_start
  with assms(2) pool_safe_same_service same_service_loop_start show ?thesis by blast
next
  case step_keepalive
  with assms(2) pool_safe_probeAllWANs show ?thesis by blast
next
  case step_api
  with assms(2) pool_safe_api show ?thesis by blast
next
  case step_observe
  with assms(2) pool_safe_same_service same_service_observability show ?thesis by blast
next
  case step_socks
  with assms(2) pool_safe_same_service same_service_handleSocksConn show ?thesis by blast
next
  case step_connect
  with assms(2) pool_safe_same_service [OF assms(2) same_service_handleConnect] show ?thesis
    by (simp add: proxy_handler_def split: if_splits)
next
  case step_exit
  with assms(2) pool_safe_proc_exits show ?thesis by blast
qed

lemma reachable_safe: "reachable drops L E cfg w \<Longrightarrow> pool_safe (\<not> drops) cfg w"
proof -
  assume "reachable drops L E cfg w"
  then obtain w0 v where v: "startup_world cfg w0 = Some v" "live w0 = {}" "files w0 = []"
      and run: "(sys_step drops L E cfg)\<^sup>*\<^sup>* v w" unfolding reachable_def by blast
  have "pool_safe (\<not> drops) cfg v" using startup_world_between [OF v] by (simp add: pool_safe_def)
  with run show ?thesis by (induction rule: rtranclp_induct) (auto intro: pool_safe_step)
qed

section \<open>What the invariant says of the processes\<close>

lemma slot_pids_card:
  assumes "slot_ok w x"
  shows "card (slot_pids x) = (if serving x then 1 else 0)" "card (slot_paths x) = (if serving x then 1 else 0)"
  using assms by (cases rule: slot_ok_cases; auto simp: serving_def)+

lemma card_disjoint_family:
  assumes "disjoint_family_on A {..<n}" and "\<And>k. k < n \<Longrightarrow> finite (A k) \<and> card (A k) = (if P k then 1 else 0)"
  shows "card (\<Union>k < n. A k) = length (filter P [0..<n])"
proof -
  have "card (\<Union>k < n. A k) = (\<Sum>k < n. card (A k))"
    using assms by (intro card_UN_disjoint) (auto simp: disjoint_family_on_def)
  also have "\<dots> = (\<Sum>k < n. if P k then 1 else 0)" using assms(2) by (intro sum.cong) auto
  also have "\<dots> = length (filter P [0..<n])"
    by (induction n) simp_all
  finally show ?thesis .
qed

lemma owned_counts:
  assumes "owned w"
  shows "int (card (live w)) = ActiveCount w" "int (card (fst ` set (files w))) = ActiveCount w"
proof -
  let ?S = "Slots (pool w)" and ?n = "length (Slots (pool w))"
  have ok: "slot_ok w (?S ! k)" if "k < ?n" for k using assms that by (simp add: owned_def)
  have fin: "finite (slot_pids x) \<and> finite (slot_paths x)" for x
    by (simp add: slot_pids_def slot_paths_def split: option.split cmd.split)
  have len: "length (filter (\<lambda>k. serving (?S ! k)) [0..<?n]) = length (filter serving ?S)"
    by (metis (no_types, lifting) filter_map length_map map_nth comp_def filter_cong)
  have "card (live w) = length (filter serving ?S)"
    unfolding len [symmetric] using assms fin slot_pids_card [OF ok]
    by (simp add: owned_def card_disjoint_family)
  moreover have "card (fst ` set (files w)) = length (filter serving ?S)"
    unfolding len [symmetric] using assms fin slot_pids_card [OF ok]
    by (simp add: owned_def card_disjoint_family)
  ultimately show "int (card (live w)) = ActiveCount w" "int (card (fst ` set (files w))) = ActiveCount w"
    by (simp_all add: ActiveCount_def count_where_def)
qed

lemma owned_pid:
  assumes "owned w" and "pid \<in> live w"
  obtains k where "k < length (Slots (pool w))" and "slot_pids (Slots (pool w) ! k) = {pid}"
    and "serving (Slots (pool w) ! k)"
    and "la_port (pr_launch (procs w ! pid)) = BasePort (pool w) + int k"
    and "sConfig (Slots (pool w) ! k) = Some (la_config (pr_launch (procs w ! pid)))"
proof -
  obtain k where k: "k < length (Slots (pool w))" "pid \<in> slot_pids (Slots (pool w) ! k)"
    using assms unfolding owned_def by blast
  have "slot_ok w (Slots (pool w) ! k)" using assms(1) k by (simp add: owned_def)
  then show thesis
    using k assms(1) that [of k] by (cases rule: slot_ok_cases) (auto simp: owned_def)
qed


text \<open>C4. Until a drop is requested, the slots in service always serve different endpoints, each of a
  supported protocol and at the measured minimum speed or above, and every unreaped xray process
  runs the configuration of such a slot.\<close>

theorem pool_stays_safe:
  assumes "reachable False L E cfg w"
  shows "distinct (endpoints (Slots (pool w))) \<and>
    (\<forall>x \<in> set (Slots (pool w)). serving x \<longrightarrow> IsXraySupported (sConfig x) \<and> c_MinimumSpeed cfg \<le> sSpeedMbps x) \<and>
    (\<forall>pid \<in> live w. IsXraySupported (Some (la_config (pr_launch (procs w ! pid)))) \<and>
       Some (endpoint (la_config (pr_launch (procs w ! pid)))) \<in> set (endpoints (Slots (pool w))))"
proof -
  have safe: "pool_safe True cfg w" using reachable_safe [OF assms] by simp
  then have sv: "served_well (c_MinimumSpeed cfg) (Slots (pool w))" and own: "owned w"
    by (simp_all add: pool_safe_def pool_between_def)
  have "IsXraySupported (Some (la_config (pr_launch (procs w ! pid)))) \<and>
       Some (endpoint (la_config (pr_launch (procs w ! pid)))) \<in> set (endpoints (Slots (pool w)))"
    if live: "pid \<in> live w" for pid
  proof -
    obtain k where k: "k < length (Slots (pool w))" "serving (Slots (pool w) ! k)"
        "sConfig (Slots (pool w) ! k) = Some (la_config (pr_launch (procs w ! pid)))"
      using owned_pid [OF own live] by blast
    let ?x = "Slots (pool w) ! k"
    have x: "?x \<in> set (Slots (pool w))" using k(1) by simp
    have "map_option endpoint (sConfig ?x) \<in> set (endpoints (Slots (pool w)))"
      using x k(2) unfolding endpoints_def by auto
    then show ?thesis using sv x k(2,3) unfolding served_well_def by auto
  qed
  then show ?thesis using sv unfolding served_well_def by blast
qed

lemma reachable_full:
  "\<exists>w. reachable False live_lib live_env live_config w \<and> ActiveCount w = 2 \<and>
     (\<forall>x \<in> set (Slots (pool w)). sState x = StateActive)"
proof -
  obtain u w where w: "startup_round live_lib live_env live_config False live_world = (RoundFull, u, w)"
      "ActiveCount w = 2" "\<forall>x \<in> set (Slots (pool w)). sState x = StateActive"
    using full_world by blast
  have "reachable False live_lib live_env live_config w"
    unfolding reachable_def using live_world_startup small_world_clean sys_step.step_startup [OF w(1)] by blast
  with w(2,3) show ?thesis by blast
qed


lemma pool_stays_safe_witness:
  "\<exists>w. reachable False live_lib live_env live_config w \<and> ActiveCount w = 2 \<and> distinct (endpoints (Slots (pool w)))"
  using reachable_full pool_stays_safe by metis

end
