(* ===== verification/Services.thy ===== *)
theory Services
  imports Socks Config
begin

text \<open>
  What startup starts once the pool can serve (main.go: startServices): the CONNECT proxy, the SOCKS5
  front end and the metrics server when their ports are set, the control API on its own port, and the
  keepalive loop. A listener is its settings. Then how the two front ends serve until they stop; the
  answers of net and net/http (accepted connections, errors) are arguments.
\<close>

record services =
  sv_proxy :: ProxyServer
  sv_socks :: "SocksServer option"
  sv_metrics :: "int option"
  sv_api :: int
  sv_keepalive :: "int option"

text \<open>The settings that both front ends take from the configuration.\<close>

definition relay_settings :: "Config \<Rightarrow> 'a wanRelay_scheme \<Rightarrow> 'a wanRelay_scheme" where
  "relay_settings cfg r =
     (let r' = r\<lparr>wr_AccessLog := c_AccessLog cfg\<rparr>
      in if c_WanFailThreshold cfg > 0 then r'\<lparr>wr_WanFailThreshold := c_WanFailThreshold cfg\<rparr> else r')"

definition api_port :: "environ \<Rightarrow> int" where
  "api_port ev =
     (let v = getenv ev ''API_PORT''
      in if v \<noteq> [] then
           (case strconv_Atoi v of (n, err) \<Rightarrow> if err = None \<and> n > 0 \<and> n \<le> 65535 then n else 1980)
         else 1980)"

definition startServices :: "environ \<Rightarrow> Config \<Rightarrow> services" where
  "startServices ev cfg =
     \<lparr>sv_proxy = relay_settings cfg (NewProxyServer (c_ProxyPort cfg) [c_Router cfg]),
      sv_socks =
        (if c_SocksPort cfg > 0
         then Some (relay_settings cfg (NewSocksServer (c_SocksPort cfg) [c_Router cfg])) else None),
      sv_metrics = (if c_MetricsPort cfg > 0 then Some (c_MetricsPort cfg) else None),
      sv_api = api_port ev,
      sv_keepalive = (if c_KeepaliveInterval cfg > 0 then Some (c_KeepaliveInterval cfg) else None)\<rparr>"

text \<open>The calls after the first are no-ops.\<close>

definition start_once :: "environ \<Rightarrow> Config \<Rightarrow> services option \<Rightarrow> services option" where
  "start_once ev cfg started = (case started of Some s \<Rightarrow> Some s | None \<Rightarrow> Some (startServices ev cfg))"

section \<open>How the front ends serve\<close>

text \<open>
  One answer of Accept; the flag says whether the context is done when the error is looked at. The
  result is None while the loop goes on, else what Listen returns and the connections handed to
  handlers, in order.
\<close>

datatype accept_answer = Accepted conn | AcceptFails goerror bool

fun accept_loop :: "accept_answer list \<Rightarrow> (goerror option \<times> conn list) option" where
  "accept_loop [] = None"
| "accept_loop (Accepted c # answers) = map_option (\<lambda>(err, cs). (err, c # cs)) (accept_loop answers)"
| "accept_loop (AcceptFails e finished # answers) = Some (if finished then None else Some e, [])"

definition socks_Listen :: "goerror option \<Rightarrow> accept_answer list \<Rightarrow> (goerror option \<times> conn list) option" where
  "socks_Listen bind answers = (case bind of Some e \<Rightarrow> Some (Some e, []) | None \<Rightarrow> accept_loop answers)"

definition ErrServerClosed :: goerror where
  "ErrServerClosed = ErrText ''http: Server closed''"

text \<open>What the select of Start receives first.\<close>

datatype serve_event = ServeContextDone | ServeReturns "goerror option"

definition proxy_Start :: "serve_event \<Rightarrow> goerror option" where
  "proxy_Start ev =
     (case ev of
        ServeContextDone \<Rightarrow> None
      | ServeReturns None \<Rightarrow> None
      | ServeReturns (Some e) \<Rightarrow> if e = ErrServerClosed then None else Some e)"

text \<open>The first argument: a server has been made by Start.\<close>

definition proxy_Stop :: "bool \<Rightarrow> goerror option \<Rightarrow> goerror option" where
  "proxy_Stop started shutdown = (if \<not> started then None else shutdown)"

text \<open>The first error of Accept ends the SOCKS5 front end for good, temporary errors included; the
  connections accepted before it are the ones that are served.\<close>

lemma accept_loop_end:
  "accept_loop answers = Some (err, cs) \<longleftrightarrow>
     (\<exists>e finished rest. answers = map Accepted cs @ AcceptFails e finished # rest \<and>
        err = (if finished then None else Some e))"
proof (induction answers arbitrary: cs rule: accept_loop.induct)
  case (2 c answers)
  have "accept_loop (Accepted c # answers) = Some (err, cs) \<longleftrightarrow>
      (\<exists>ds. cs = c # ds \<and> accept_loop answers = Some (err, ds))"
    by auto
  with 2 show ?case by (cases cs) auto
next
  case (3 e finished answers)
  then show ?case by (cases cs) auto
qed simp

section \<open>Properties\<close>

lemma api_port_range: "1 \<le> api_port ev \<and> api_port ev \<le> 65535"
  by (auto simp: api_port_def Let_def split: prod.split)

lemma front_end_settings:
  "wr_router (relay_settings cfg (NewProxyServer p [r])) = r" "px_port (relay_settings cfg (NewProxyServer p [r])) = p"
  "wr_router (relay_settings cfg (NewSocksServer p [r])) = r" "sk_port (relay_settings cfg (NewSocksServer p [r])) = p"
  "wr_AccessLog (relay_settings cfg x) = c_AccessLog cfg"
  "0 < c_WanFailThreshold cfg \<Longrightarrow> wr_WanFailThreshold (relay_settings cfg x) = c_WanFailThreshold cfg"
  by (simp_all add: relay_settings_def NewProxyServer_def NewSocksServer_def Let_def)

text \<open>For every environment that parseConfig accepts, each listener that is started has a valid
  port: the proxy and the API always listen, the SOCKS5 front end and the metrics server exactly when
  their ports are not 0; both front ends route by the configured router, log as configured and count
  failures against WAN_FAIL_THRESHOLD, and the keepalive loop always runs. Starting again changes
  nothing.\<close>

theorem services_valid:
  assumes "parseConfig ul pf q fs ev = Inr c" and "s = startServices ev c"
  shows "1 \<le> px_port (sv_proxy s) \<and> px_port (sv_proxy s) \<le> 65535 \<and> 1 \<le> sv_api s \<and> sv_api s \<le> 65535 \<and>
    wr_router (sv_proxy s) = c_Router c \<and> wr_AccessLog (sv_proxy s) = c_AccessLog c \<and>
    wr_WanFailThreshold (sv_proxy s) = c_WanFailThreshold c \<and> 1 \<le> wr_WanFailThreshold (sv_proxy s) \<and>
    (case sv_socks s of
       None \<Rightarrow> c_SocksPort c = 0
     | Some k \<Rightarrow> 1 \<le> sk_port k \<and> sk_port k \<le> 65535 \<and> wr_router k = c_Router c \<and> wr_AccessLog k = c_AccessLog c \<and>
         wr_WanFailThreshold k = c_WanFailThreshold c) \<and>
    (case sv_metrics s of None \<Rightarrow> c_MetricsPort c = 0 | Some p \<Rightarrow> 1 \<le> p \<and> p \<le> 65535) \<and>
    sv_keepalive s = Some (c_KeepaliveInterval c) \<and> 10 \<le> c_KeepaliveInterval c \<and>
    start_once ev c (start_once ev c None) = Some s"
  using parseConfig_config_ok [OF assms(1)] api_port_range [of ev] assms(2)
  by (auto simp: config_ok_def startServices_def start_once_def front_end_settings)

lemma services_valid_witness:
  "\<exists>c. parseConfig id (\<lambda>_. None) id (\<lambda>_. Inr []) example_environ = Inr c \<and>
     sv_keepalive (startServices example_environ c) = Some 300"
proof -
  have c: "parseConfig id (\<lambda>_. None) id (\<lambda>_. Inr []) example_environ = Inr example_config" by code_simp
  from services_valid [OF c refl] c show ?thesis by (auto simp: example_config_def)
qed

end
