(* ===== verification/Program.thy ===== *)
theory Program
  imports System Services
begin

text \<open>
  The program from its start to its end (main.go: startup, runLoop, keepaliveLoop): the pool is
  filled, the services are started, the main loop receives its events, and a shutdown releases the
  pool. What the other goroutines do meanwhile is a list of operations: rounds of the keepalive loop,
  requests to the servers that are up, and children that die. The run is a run of the transition
  system of \<open>System\<close>, so its invariants hold at every end.
\<close>

section \<open>Operations\<close>

text \<open>The renderings of times and floats that the servers use.\<close>

record formats =
  ft_Time :: "int \<Rightarrow> string"
  ft_Nano :: "int \<Rightarrow> string"
  ft_Real :: "real \<Rightarrow> string"

datatype operation =
    KeepaliveTick
  | ApiRequest string string
  | ObserveRequest string
  | SocksClient dialer "nat \<times> nat" conn
  | ProxyClient dialer "nat \<times> nat" hijack string string
  | ChildExits nat

text \<open>The keepalive loop returns when the context is done; it receives nothing but ticks.\<close>

fun keepaliveLoop :: "env \<Rightarrow> Config \<Rightarrow> loop_event list \<Rightarrow> world \<Rightarrow> world" where
  "keepaliveLoop E cfg [] w = w"
| "keepaliveLoop E cfg (ev # evs) w =
     (case ev of
        ContextDone \<Rightarrow> w
      | TickerFires \<Rightarrow> keepaliveLoop E cfg evs (probeAllWANs E cfg w)
      | TriggerReceived \<Rightarrow> keepaliveLoop E cfg evs w)"

text \<open>A request to a server that has not been started finds nobody listening.\<close>

definition perform ::
    "formats \<Rightarrow> golib \<Rightarrow> env \<Rightarrow> Config \<Rightarrow> services \<Rightarrow> operation \<Rightarrow> world \<Rightarrow> world" where
  "perform F L E cfg sv op w =
     (case op of
        KeepaliveTick \<Rightarrow>
          (case sv_keepalive sv of None \<Rightarrow> w | Some _ \<Rightarrow> keepaliveLoop E cfg [TickerFires] w)
      | ApiRequest mthd path \<Rightarrow> snd (api_handler (ft_Time F) (ft_Nano F) E (Some cfg) mthd path w)
      | ObserveRequest path \<Rightarrow>
          (case sv_metrics sv of None \<Rightarrow> w | Some _ \<Rightarrow> snd (observability_handler (ft_Real F) path w))
      | SocksClient dial quota client \<Rightarrow>
          (case sv_socks sv of
             None \<Rightarrow> w
           | Some s \<Rightarrow> snd (handleSocksConn (lb_lower L) E (wanRelay.truncate s) dial quota client w))
      | ProxyClient dial quota h mthd target \<Rightarrow>
          snd (proxy_handler (lb_lower L) E (wanRelay.truncate (sv_proxy sv)) dial quota h mthd target w)
      | ChildExits pid \<Rightarrow> proc_exits pid w)"

section \<open>The main loop\<close>

datatype program_event = Select loop_event | Meanwhile operation

datatype loop_end = LoopDone | LoopPanic | LoopWaiting

text \<open>An event that cannot be received, a trigger of an empty channel, is not there.\<close>

fun runLoop ::
    "formats \<Rightarrow> golib \<Rightarrow> env \<Rightarrow> Config \<Rightarrow> services \<Rightarrow> program_event list \<Rightarrow> world \<Rightarrow> loop_end \<times> world" where
  "runLoop F L E cfg sv [] w = (LoopWaiting, w)"
| "runLoop F L E cfg sv (Meanwhile op # evs) w = runLoop F L E cfg sv evs (perform F L E cfg sv op w)"
| "runLoop F L E cfg sv (Select ev # evs) w =
     (if ev = ContextDone then (LoopDone, w)
      else
        (case loop_step L E cfg ev w of
           None \<Rightarrow> runLoop F L E cfg sv evs w
         | Some w' \<Rightarrow> if panicked w' then (LoopPanic, w') else runLoop F L E cfg sv evs w'))"

section \<open>The whole program\<close>

datatype program_end = ProgramStopped | ProgramCancelled | ProgramPanics | ProgramRuns

text \<open>
  None: the fuel for the rounds of startup ran out. A startup that is cancelled returns as it is,
  without a shutdown of the pool.
\<close>

definition startup ::
    "formats \<Rightarrow> nat \<Rightarrow> golib \<Rightarrow> env \<Rightarrow> environ \<Rightarrow> Config \<Rightarrow> program_event list \<Rightarrow> world \<Rightarrow>
     (program_end \<times> world) option" where
  "startup F n L E ev cfg evs w =
     (case startup_world cfg w of
        None \<Rightarrow> Some (ProgramPanics, w)
      | Some w1 \<Rightarrow>
          (case startup_rounds n L E cfg False w1 of
             None \<Rightarrow> None
           | Some (StartupPanic, up, w2) \<Rightarrow> Some (ProgramPanics, w2)
           | Some (StartupCancelled, up, w2) \<Rightarrow> Some (ProgramCancelled, w2)
           | Some (StartupReady, up, w2) \<Rightarrow>
               if seconds (c_FetchInterval cfg) \<le> 0 then Some (ProgramPanics, loop_start E cfg w2)
               else
                 (case runLoop F L E cfg (startServices ev cfg) evs (loop_start E cfg w2) of
                    (LoopDone, w3) \<Rightarrow> Some (ProgramStopped, ShutdownAll E w3)
                  | (LoopPanic, w3) \<Rightarrow> Some (ProgramPanics, w3)
                  | (LoopWaiting, w3) \<Rightarrow> Some (ProgramRuns, w3))))"

section \<open>The program runs in the transition system\<close>

lemma perform_steps: "(sys_step True L E cfg)\<^sup>*\<^sup>* w (perform F L E cfg sv op w)"
  by (cases op)
    (auto simp: perform_def split: option.split
      intro!: r_into_rtranclp sys_step.step_keepalive sys_step.step_api sys_step.step_observe
        sys_step.step_socks sys_step.step_connect sys_step.step_exit)

lemma runLoop_steps:
  "runLoop F L E cfg sv evs w = (le, w') \<Longrightarrow> (sys_step True L E cfg)\<^sup>*\<^sup>* w w'"
proof (induction F L E cfg sv evs w arbitrary: le w' rule: runLoop.induct)
  case (2 F L E cfg sv op evs w)
  then show ?case using perform_steps [of L E cfg w F sv op] by (auto intro: rtranclp_trans)
next
  case (3 F L E cfg sv ev evs w)
  show ?case
  proof (cases "ev = ContextDone \<or> loop_step L E cfg ev w = None")
    case True
    with 3 show ?thesis by (auto split: if_splits)
  next
    case False
    then obtain v where v: "loop_step L E cfg ev w = Some v" by blast
    have "(sys_step True L E cfg)\<^sup>*\<^sup>* v w'"
      using 3(2) [OF _ v] 3(3) v False by (auto split: if_splits)
    with sys_step.step_loop [OF v] show ?thesis by (rule converse_rtranclp_into_rtranclp)
  qed
qed simp

lemma startup_rounds_steps:
  "startup_rounds n L E cfg up w = Some (e, up', w') \<Longrightarrow> (sys_step drops L E cfg)\<^sup>*\<^sup>* w w'"
proof (induction n arbitrary: up w)
  case (Suc n)
  obtain r u v where run: "startup_round L E cfg up w = (r, u, v)" by (metis prod_cases3)
  have step: "sys_step drops L E cfg w v" using run by (rule sys_step.step_startup)
  have "w' = v \<or> startup_rounds n L E cfg u v = Some (e, up', w')"
    using Suc.prems run by (auto split: round_end.splits if_splits)
  then show ?case using Suc.IH step by (blast intro: converse_rtranclp_into_rtranclp)
qed simp

lemma startup_steps:
  assumes "startup F n L E ev cfg evs w0 = Some (pe, w')" and "startup_world cfg w0 = Some w"
  shows "(sys_step True L E cfg)\<^sup>*\<^sup>* w w' \<and>
    (pe = ProgramStopped \<longrightarrow> (\<exists>v. w' = ShutdownAll E v \<and> (sys_step True L E cfg)\<^sup>*\<^sup>* w v))"
proof -
  obtain e up w2 where r: "startup_rounds n L E cfg False w = Some (e, up, w2)"
    using assms by (auto simp: startup_def split: option.splits)
  have w2: "(sys_step True L E cfg)\<^sup>*\<^sup>* w w2" using startup_rounds_steps [OF r] .
  have w3: "(sys_step True L E cfg)\<^sup>*\<^sup>* w (loop_start E cfg w2)"
    using w2 sys_step.step_loop_start by (rule rtranclp.rtrancl_into_rtrancl)
  obtain le v where l: "runLoop F L E cfg (startServices ev cfg) evs (loop_start E cfg w2) = (le, v)"
    by fastforce
  have v: "(sys_step True L E cfg)\<^sup>*\<^sup>* w v" using w3 runLoop_steps [OF l] by (rule rtranclp_trans)
  have "loop_step L E cfg ContextDone v = Some (ShutdownAll E v)" by (simp add: loop_step_def)
  then have fin: "(sys_step True L E cfg)\<^sup>*\<^sup>* w (ShutdownAll E v)"
    using v sys_step.step_loop by (meson rtranclp.rtrancl_into_rtrancl)
  from assms r l w2 w3 v fin show ?thesis
    by (auto simp: startup_def split: startup_end.splits if_splits loop_end.splits)
qed


definition plain_formats :: formats where
  "plain_formats = \<lparr>ft_Time = (\<lambda>_. []), ft_Nano = (\<lambda>_. []), ft_Real = (\<lambda>_. [])\<rparr>"


section \<open>A cancelled startup\<close>

lemma startup_round_leaves:
  assumes "pool_between cfg w" and "working E cfg" and "1 \<le> c_WanCount cfg"
    and "e_fetch E (tick w) = Inr body" and "ParseConfigs (lb_lower L) body = Some cs" and "offered cs \<noteq> {}"
    and "startup_round L E cfg up w = (RoundRetry, up', w')"
  shows "1 \<le> ActiveCount w'"
proof -
  obtain res w1 where f: "fetchSubscription L E w = (res, w1)" by fastforce
  note fr = fetchSubscription_frame [OF f]
  have res: "res = Some cs" using fr(8) assms(4,5) by simp
  have w1: "pool_between cfg w1" using assms(1) fr by (metis pool_between_same)
  obtain u w2 where run: "startup_loop E cfg cs 0 up w1 = (u, w2)" by fastforce
  have pb: "pool_between cfg w2" using startup_loop_fills [OF w1 run subset_UNIV] by simp
  then have "GetSlotsByState [StateTesting] w2 = []"
    by (auto simp: pool_between_def GetSlotsByState_def slots_where_def filter_empty_conv)
  then have w': "w' = w2"
    using assms(6,7) f res run by (auto simp: startup_round_def reset_all_def split: if_splits)
  have "endpoints (Slots (pool w2)) \<noteq> []" if "\<not> ActiveCount w2 \<ge> c_WanCount cfg"
    using startup_loop_serves [OF w1 assms(2) run] that assms(6) by auto
  then have "0 < length (endpoints (Slots (pool w2))) \<or> ActiveCount w2 \<ge> c_WanCount cfg" by blast
  then show ?thesis using assms(3) unfolding w' ActiveCount_endpoints by linarith
qed

lemma startup_cancelled_last:
  "startup_rounds n L E cfg up w = Some (StartupCancelled, up', w') \<Longrightarrow>
     \<exists>v u. (sys_step drops L E cfg)\<^sup>*\<^sup>* w v \<and> startup_round L E cfg u v = (RoundRetry, up', w')"
proof (induction n arbitrary: up w)
  case (Suc n)
  obtain r u v where run: "startup_round L E cfg up w = (r, u, v)" by (metis prod_cases3)
  have step: "sys_step drops L E cfg w v" using run by (rule sys_step.step_startup)
  show ?case
  proof (cases "r = RoundRetry \<and> e_done E (tick v)")
    case True
    with Suc.prems run show ?thesis by auto
  next
    case False
    with Suc.prems run have "startup_rounds n L E cfg u v = Some (StartupCancelled, up', w')"
      by (auto split: round_end.splits if_splits)
    with Suc.IH step show ?thesis by (meson converse_rtranclp_into_rtranclp)
  qed
qed simp

text \<open>C32. A startup that is cancelled leaves its processes behind: on a working network, when every
  subscription offers some endpoint of a supported protocol, the program that returns because its
  context is done leaves at least one xray process running and its configuration file on disk.\<close>

theorem cancelled_startup_leaks:
  assumes "startup F n L E ev cfg evs w0 = Some (ProgramCancelled, w')" and "startup_world cfg w0 = Some w"
    and "live w0 = {}" and "files w0 = []" and "working E cfg" and "1 \<le> c_WanCount cfg"
    and "\<And>k. \<exists>body cs. e_fetch E k = Inr body \<and> ParseConfigs (lb_lower L) body = Some cs \<and> offered cs \<noteq> {}"
  shows "live w' \<noteq> {} \<and> files w' \<noteq> []"
proof -
  obtain up where "startup_rounds n L E cfg False w = Some (StartupCancelled, up, w')"
    using assms(1,2) by (auto simp: startup_def split: option.splits startup_end.splits if_splits prod.splits loop_end.splits)
  then obtain v u where v: "(sys_step True L E cfg)\<^sup>*\<^sup>* w v" "startup_round L E cfg u v = (RoundRetry, up, w')"
    using startup_cancelled_last by blast
  have reach: "reachable True L E cfg x" if "(sys_step True L E cfg)\<^sup>*\<^sup>* w x" for x
    unfolding reachable_def using assms(2-4) that by blast
  have pb: "pool_between cfg x" if "(sys_step True L E cfg)\<^sup>*\<^sup>* w x" for x
    using reachable_safe [OF reach [OF that]] by (simp add: pool_safe_def)
  obtain body cs where "e_fetch E (tick v) = Inr body" "ParseConfigs (lb_lower L) body = Some cs" "offered cs \<noteq> {}"
    using assms(7) by blast
  with startup_round_leaves [OF pb [OF v(1)] assms(5,6) _ _ _ v(2)] have "1 \<le> ActiveCount w'" by blast
  moreover have "(sys_step True L E cfg)\<^sup>*\<^sup>* w w'"
    using v(1) sys_step.step_startup [OF v(2)] by (rule rtranclp.rtrancl_into_rtrancl)
  ultimately show ?thesis using owned_counts [OF pool_between_owned [OF pb]] by fastforce
qed

definition one_link :: string where
  "one_link = ''trojan://pw@a:10''"

definition interrupted_env :: env where
  "interrupted_env = calm_env\<lparr>e_fetch := \<lambda>_. Inr one_link, e_done := \<lambda>_. True\<rparr>"

lemma fills_endpoints_upper:
  "fills v0 C xs ys \<Longrightarrow> set (endpoints ys) \<subseteq> set (endpoints xs) \<union> Some ` endpoint ` C"
proof (induction rule: fills.induct)
  case (fills_clear xs k ys)
  then show ?case by (metis endpoints_clear mset_eq_setD)
next
  case (fills_serve xs k c cm path v n ys)
  have "set (endpoints (xs[k := filled c cm path v n (xs ! k)])) = insert (Some (endpoint c)) (set (endpoints xs))"
    using endpoints_serve [OF fills_serve.hyps(2,3), of c cm path v n] by (metis set_mset_add_mset_insert set_mset_mset)
  with fills_serve show ?case by auto
qed simp

lemma one_link_offered: "\<exists>c. ParseConfigs id one_link = Some [c] \<and> offered [c] \<noteq> {}"
proof -
  let ?c = "\<lparr>pc_Protocol = ''trojan'', pc_Server = ''a'', pc_Port = 10, pc_Name = [], pc_Raw = one_link\<rparr>"
  have "ParseConfigs id one_link = Some [?c]" by code_simp
  moreover have "IsXraySupported (Some ?c)" by code_simp
  ultimately show ?thesis by auto
qed

lemma interrupted_round:
  "\<exists>u w. startup_round live_lib interrupted_env live_config False live_world = (RoundRetry, u, w)"
proof -
  obtain c where c: "ParseConfigs id one_link = Some [c]" using one_link_offered by blast
  obtain res w1 where f: "fetchSubscription live_lib interrupted_env live_world = (res, w1)" by fastforce
  note fr = fetchSubscription_frame [OF f]
  have res: "res = Some [c]" using fr(8) c by (simp add: interrupted_env_def live_answers)
  have w1: "pool_between live_config w1" using live_world_between fr by (metis pool_between_same)
  obtain u w2 where run: "startup_loop interrupted_env live_config [c] 0 False w1 = (u, w2)" by fastforce
  note fl = startup_loop_fills [OF w1 run subset_refl]
  have "served_well (c_MinimumSpeed live_config) (Slots (pool w1))" and none: "endpoints (Slots (pool w1)) = []"
    using live_world_safe fr(1) by (auto simp: pool_safe_def endpoints_def filter_empty_conv serving_def)
  then have "distinct (endpoints (Slots (pool w2)))" using fills_served_well fl unfolding served_well_def by blast
  moreover have "set (endpoints (Slots (pool w2))) \<subseteq> {Some (endpoint c)}"
    using fills_endpoints_upper [OF conjunct2 [OF conjunct2 [OF fl]]] none by simp
  ultimately have "length (endpoints (Slots (pool w2))) \<le> 1"
    by (metis One_nat_def card.empty card.insert card_mono distinct_card empty_iff finite.intros)
  then have "\<not> ActiveCount w2 \<ge> c_WanCount live_config" by (simp add: ActiveCount_endpoints live_answers)
  then show ?thesis using f res run by (simp add: startup_round_def)
qed

lemma cancelled_startup_leaks_witness:
  "\<exists>w'. startup plain_formats (Suc 0) live_lib interrupted_env example_environ live_config [] small_world =
     Some (ProgramCancelled, w') \<and> live w' \<noteq> {}"
proof -
  obtain u w where "startup_round live_lib interrupted_env live_config False live_world = (RoundRetry, u, w)"
    using interrupted_round by blast
  then have run: "startup plain_formats (Suc 0) live_lib interrupted_env example_environ live_config [] small_world =
      Some (ProgramCancelled, w)"
    by (simp add: startup_def live_world_startup interrupted_env_def)
  have "working interrupted_env live_config"
    using working_live by (simp add: working_def interrupted_env_def live_env_def)
  moreover have "\<exists>body cs. e_fetch interrupted_env k = Inr body \<and>
      ParseConfigs (lb_lower live_lib) body = Some cs \<and> offered cs \<noteq> {}" for k
    using one_link_offered by (auto simp: interrupted_env_def live_answers simp del: offered_simps)
  ultimately have "live w \<noteq> {}"
    using cancelled_startup_leaks [OF run live_world_startup small_world_clean] by (simp add: live_answers)
  with run show ?thesis by blast
qed

section \<open>The interval of the ticker\<close>

text \<open>FETCH_INTERVAL has no upper bound, but the interval is a product in nanoseconds: an accepted
  setting of more than 9223372036 seconds (up to twice that) makes it negative, and the ticker panics
  after the pool has been filled.\<close>

lemma interval_ok: "30 \<le> n \<Longrightarrow> n \<le> 9223372036 \<Longrightarrow> seconds n = n * second \<and> 0 < seconds n"
  by (simp add: seconds_def second_def wrap64_id min_int64_def max_int64_def)

lemma interval_overflow:
  assumes "9223372037 \<le> c_FetchInterval cfg" and "c_FetchInterval cfg \<le> 18446744073"
  shows "seconds (c_FetchInterval cfg) \<le> 0 \<and> panicked (loop_start E cfg w)"
proof -
  let ?x = "c_FetchInterval cfg * second"
  have "(?x + 2 ^ 63 - 2 ^ 64) mod 2 ^ 64 = ?x + 2 ^ 63 - 2 ^ 64"
    using assms by (intro mod_pos_pos_trivial) (simp_all add: second_def)
  then have "wrap64 ?x = ?x - 2 ^ 64" unfolding wrap64_def minus_mod_self2 by simp
  then show ?thesis using assms by (simp add: seconds_def second_def loop_start_def)
qed

lemma interval_overflow_accepted:
  "\<exists>c. parseConfig id (\<lambda>_. None) id (\<lambda>_. Inr []) (example_environ(''FETCH_INTERVAL'' \<mapsto> ''9223372037'')) = Inr c \<and>
     c_FetchInterval c = 9223372037"
proof -
  have "parseConfig id (\<lambda>_. None) id (\<lambda>_. Inr []) (example_environ(''FETCH_INTERVAL'' \<mapsto> ''9223372037'')) =
      Inr (example_config\<lparr>c_FetchInterval := 9223372037\<rparr>)"
    by code_simp
  then show ?thesis by simp
qed

end
