(* ===== verification/JsonProps.thy ===== *)
theory JsonProps
  imports GoEncode
begin

text \<open>
  Unmarshal after MarshalIndent: the lexer and the automaton of \<open>GoJson\<close> read the text of a value back,
  with the strings as Marshal replaced them.
\<close>

section \<open>Strings\<close>

lemma hex_sum:
  fixes n :: nat
  shows "a * 16 + x = n \<Longrightarrow> b * 16 + y = a \<Longrightarrow> c * 16 + z = b \<Longrightarrow> c * 4096 + z * 256 + y * 16 + x = n"
  by simp

lemma hex4_lower:
  assumes "n < 65536"
  shows "hex4 [hex_lower (n div 4096), hex_lower (n div 256 mod 16), hex_lower (n div 16 mod 16), hex_lower (n mod 16)] = Some n"
proof -
  have d: "(let k = (of_char (hex_lower m) :: nat)
      in if 48 \<le> k \<and> k \<le> 57 then k - 48 else if 97 \<le> k \<and> k \<le> 102 then k - 87
         else if 65 \<le> k \<and> k \<le> 70 then k - 55 else 16) = m" if "m < 16" for m
    using that by (simp add: hex_lower_def Let_def)
  have b: "n div 4096 < 16" "n div 256 mod 16 < 16" "n div 16 mod 16 < 16" "n mod 16 < 16"
    using assms by auto
  have sum: "n div 4096 * 4096 + n div 256 mod 16 * 256 + n div 16 mod 16 * 16 + n mod 16 = n"
  proof -
    have "n div 256 = n div 16 div 16" "n div 4096 = n div 256 div 16"
      by (simp_all add: div_mult2_eq [symmetric])
    then show ?thesis by (intro hex_sum [of "n div 16" _ _ "n div 256"]) (simp_all add: div_mult_mod_eq)
  qed
  show ?thesis
    using b sum by (simp add: hex4_def d [unfolded Let_def] Let_def)
qed

lemma u_escape_take: "take 4 (drop 2 (u_escape n) @ r) = drop 2 (u_escape n)" "drop 4 (drop 2 (u_escape n) @ r) = r"
  by (simp_all add: u_escape_def)

lemma unquote_u_escape:
  assumes "n < 55296 \<or> (57344 \<le> n \<and> n < 65536)"
  shows "unquote (u_escape n @ r) = utf8_bytes n @ unquote r"
proof -
  have "hex4 [hex_lower (n div 4096), hex_lower (n div 256 mod 16), hex_lower (n div 16 mod 16), hex_lower (n mod 16)] = Some n"
    using assms by (intro hex4_lower) auto
  then show ?thesis
    using assms by (subst unquote.simps) (auto simp: u_escape_def Let_def)
qed

lemma scan_u_escape:
  assumes "n < 65536" and "scan_string x = Some (y, r)"
  shows "scan_string (u_escape n @ x) = Some (u_escape n @ y, r)"
proof -
  have plain: "hex_lower k \<noteq> CHR 0x22 \<and> hex_lower k \<noteq> CHR 0x5C \<and> \<not> (of_char (hex_lower k) :: nat) < 32"
    if "k < 16" for k
  proof -
    have "(of_char (hex_lower k) :: nat) = (if k < 10 then k + 48 else k + 87)"
      using that by (simp add: hex_lower_def)
    moreover have "(of_char (CHR 0x22) :: nat) = 34" "(of_char (CHR 0x5C) :: nat) = 92" by simp_all
    ultimately show ?thesis using that by (auto split: if_splits)
  qed
  have b: "n div 4096 < 16" "n div 256 mod 16 < 16" "n div 16 mod 16 < 16" "n mod 16 < 16"
    using assms(1) by auto
  show ?thesis
    using assms(2) hex4_lower [OF assms(1)] plain [OF b(1)] plain [OF b(2)] plain [OF b(3)] plain [OF b(4)]
    by (simp add: u_escape_def)
qed

lemma quote_ascii_plain:
  obtains "quote_ascii c = [c]" "c \<noteq> CHR 0x22" "c \<noteq> CHR 0x5C" "32 \<le> (of_char c :: nat)"
  | e where "quote_ascii c = [CHR 0x5C, e]" "simple_escape e = c" "e \<noteq> CHR ''u''" "e \<in> {CHR 0x22, CHR 0x5C} \<union> set ''nrt''"
  | "quote_ascii c = u_escape (of_char c)"
proof (cases "c \<in> {CHR 0x22, CHR 0x5C, CHR 0x0A, CHR 0x0D, CHR 0x09}")
  case True
  have "\<exists>e. quote_ascii c = [CHR 0x5C, e] \<and> simple_escape e = c \<and> e \<noteq> CHR ''u'' \<and> e \<in> {CHR 0x22, CHR 0x5C} \<union> set ''nrt''"
    using True by (elim insertE emptyE) (simp_all add: quote_ascii_def simple_escape_def)
  then show thesis using that(2) by blast
next
  case False
  then have "quote_ascii c = (if (of_char c :: nat) < 32 \<or> c = CHR ''<'' \<or> c = CHR ''>'' \<or> c = CHR ''&''
      then u_escape (of_char c) else [c])"
    by (simp add: quote_ascii_def)
  then show thesis using False that(1,3) by (metis insert_iff not_less)
qed

lemma utf8_ascii: "is_ascii c \<Longrightarrow> utf8_bytes (of_char c) = [c]"
  by (simp add: utf8_bytes_def is_ascii_def)

lemma unquote_ascii:
  assumes "is_ascii c"
  shows "unquote (quote_ascii c @ r) = c # unquote r"
proof (cases c rule: quote_ascii_plain)
  case 1
  then show ?thesis by (subst unquote.simps) (simp add: rune_length_1 [OF assms])
next
  case (2 e)
  then show ?thesis by (subst unquote.simps) simp
next
  case 3
  have "(of_char c :: nat) < 128" using assms by (simp add: is_ascii_def)
  with 3 unquote_u_escape [of "of_char c" r] show ?thesis by (simp add: utf8_ascii [OF assms])
qed

lemma unquote_rune:
  assumes "\<not> is_ascii c" and "0 < rune_length (c # cs)"
  shows "unquote (take (rune_length (c # cs)) (c # cs) @ r) = take (rune_length (c # cs)) (c # cs) @ unquote r"
proof -
  let ?n = "rune_length (c # cs)" and ?t = "take (rune_length (c # cs)) (c # cs)"
  have n: "rune_length (?t @ r) = ?n" using assms(2) by (intro rune_length_take) simp_all
  have len: "length ?t = ?n" using rune_length_le [of "c # cs"] by simp
  obtain t where t: "?t = c # t" using assms(2) by (cases ?n) simp_all
  have "c \<noteq> CHR 0x5C" using assms(1) by (auto simp: is_ascii_def)
  then have "unquote (?t @ r) = take ?n (?t @ r) @ unquote (drop ?n (?t @ r))"
    using assms(2) n t by (subst unquote.simps) simp
  then show ?thesis using len by simp
qed

lemma scan_chars:
  "list_all (\<lambda>c. \<not> is_ascii c) s \<Longrightarrow> scan_string x = Some (y, r) \<Longrightarrow> scan_string (s @ x) = Some (s @ y, r)"
proof (induction s)
  case (Cons c cs)
  then have "c \<noteq> CHR 0x22" "c \<noteq> CHR 0x5C" "\<not> (of_char c :: nat) < 32" by (auto simp: is_ascii_def)
  with Cons show ?case by simp
qed simp

lemma scan_ascii:
  assumes "is_ascii c" and "scan_string x = Some (y, r)"
  shows "scan_string (quote_ascii c @ x) = Some (quote_ascii c @ y, r)"
proof (cases c rule: quote_ascii_plain)
  case 1
  then show ?thesis using assms(2) by simp
next
  case (2 e)
  then show ?thesis using assms(2) by auto
next
  case 3
  have "(of_char c :: nat) < 65536" using assms(1) by (simp add: is_ascii_def)
  with 3 scan_u_escape assms(2) show ?thesis by simp
qed

lemma utf8_consts:
  "utf8_bytes 8232 = [CHR 0xE2, CHR 0x80, CHR 0xA8]" "utf8_bytes 8233 = [CHR 0xE2, CHR 0x80, CHR 0xA9]"
  "utf8_bytes 65533 = replacement"
  by (simp_all add: utf8_bytes_def replacement_def char_of_eq_iff)

lemma separator_rune:
  assumes "take 3 s \<in> line_separators"
  shows "rune_length s = 3" and "utf8_bytes (8192 + of_char (s ! 2) mod 64) = take 3 s"
    and "8192 + (of_char (s ! 2) :: nat) mod 64 < 55296"
proof -
  obtain d r where s: "s = CHR 0xE2 # CHR 0x80 # d # r" and d: "d = CHR 0xA8 \<or> d = CHR 0xA9"
  proof -
    have "take 3 s = [CHR 0xE2, CHR 0x80, CHR 0xA8] \<or> take 3 s = [CHR 0xE2, CHR 0x80, CHR 0xA9]"
      using assms by (simp add: line_separators_def)
    then have "\<exists>d r. s = CHR 0xE2 # CHR 0x80 # d # r \<and> (d = CHR 0xA8 \<or> d = CHR 0xA9)"
      by (metis append_Cons append_Nil append_take_drop_id)
    then show thesis using that by blast
  qed
  show "rune_length s = 3"
    using d by (auto simp: s rune_length_of byte_at_def rune_of_def)
  show "utf8_bytes (8192 + of_char (s ! 2) mod 64) = take 3 s"
    using d by (auto simp: s utf8_consts)
  show "8192 + (of_char (s ! 2) :: nat) mod 64 < 55296"
    using mod_less_divisor [of 64 "of_char (s ! 2)"] by linarith
qed

lemma to_valid_step:
  "to_valid (c # cs) =
     (if rune_length (c # cs) = 0 then replacement @ to_valid cs
      else take (rune_length (c # cs)) (c # cs) @ to_valid (drop (rune_length (c # cs)) (c # cs)))"
  by (subst to_valid.simps) simp

lemma to_valid_Nil [simp]: "to_valid [] = []" and quoted_Nil [simp]: "quoted [] = []"
  by (subst to_valid.simps, simp) (subst quoted.simps, simp)

lemma to_valid_ascii: "list_all is_ascii s \<Longrightarrow> to_valid s = s"
  by (induction s) (simp_all add: to_valid_step rune_length_1)

lemma quoted_step:
  "quoted (c # cs) =
     (if is_ascii c then quote_ascii c @ quoted cs
      else if rune_length (c # cs) = 0 then u_escape 65533 @ quoted cs
      else if take 3 (c # cs) \<in> line_separators
      then u_escape (8192 + of_char ((c # cs) ! 2) mod 64) @ quoted (drop 3 (c # cs))
      else take (rune_length (c # cs)) (c # cs) @ quoted (drop (rune_length (c # cs)) (c # cs)))"
  by (subst quoted.simps) simp

text \<open>The four cases of a string that Marshal distinguishes.\<close>

lemma quoted_cases:
  obtains (empty) "s = []"
  | (ascii) c cs where "s = c # cs" "is_ascii c" "quoted s = quote_ascii c @ quoted cs" "to_valid s = c # to_valid cs"
  | (escape) n r where "n < 55296 \<or> (57344 \<le> n \<and> n < 65536)" "length r < length s"
      "quoted s = u_escape n @ quoted r" "to_valid s = utf8_bytes n @ to_valid r"
  | (rune) c cs where "s = c # cs" "\<not> is_ascii c" "0 < rune_length s"
      "quoted s = take (rune_length s) s @ quoted (drop (rune_length s) s)"
      "to_valid s = take (rune_length s) s @ to_valid (drop (rune_length s) s)"
proof (cases s)
  case (Cons c cs)
  show thesis
  proof (cases "is_ascii c")
    case True
    then show thesis using ascii [OF Cons] by (simp add: Cons quoted_step to_valid_step rune_length_1)
  next
    case False
    consider "rune_length s = 0" | "take 3 s \<in> line_separators" | "0 < rune_length s" "take 3 s \<notin> line_separators"
      by blast
    then show thesis
    proof cases
      case 1
      then show thesis
        using False escape [of 65533 cs] by (simp add: Cons quoted_step to_valid_step utf8_consts)
    next
      case 2
      note sep = separator_rune [OF 2]
      have "quoted s = u_escape (8192 + of_char (s ! 2) mod 64) @ quoted (drop 3 s)"
        using False 2 sep(1) by (simp add: Cons quoted_step)
      moreover have "to_valid s = take 3 s @ to_valid (drop 3 s)"
        using sep(1) by (simp only: Cons to_valid_step) simp
      moreover have "length (drop 3 s) < length s" by (simp add: Cons)
      ultimately show thesis using escape [of "8192 + of_char (s ! 2) mod 64" "drop 3 s"] sep(2,3) by simp
    next
      case 3
      then show thesis using False rune [OF Cons False] by (simp add: Cons quoted_step to_valid_step)
    qed
  qed
qed (rule empty)

lemma unquote_quoted: "unquote (quoted s) = to_valid s"
proof (induction s rule: length_induct)
  case (1 s)
  show ?case
  proof (cases s rule: quoted_cases)
    case empty
    then show ?thesis by (simp add: unquote.simps [of "[]"])
  next
    case (ascii c cs)
    with 1 show ?thesis by (simp add: unquote_ascii)
  next
    case (escape n r)
    with 1 show ?thesis by (simp add: unquote_u_escape)
  next
    case (rune c cs)
    then have "length (drop (rune_length s) s) < length s" by simp
    with 1 rune unquote_rune [of c cs] show ?thesis by simp
  qed
qed

lemma scan_quoted: "scan_string (quoted s @ CHR 0x22 # r) = Some (quoted s, r)"
proof (induction s rule: length_induct)
  case (1 s)
  show ?case
  proof (cases s rule: quoted_cases)
    case empty
    then show ?thesis by simp
  next
    case (ascii c cs)
    with 1 scan_ascii [OF ascii(2), of "quoted cs @ CHR 0x22 # r"] show ?thesis by simp
  next
    case (escape n x)
    with 1 have "scan_string (quoted x @ CHR 0x22 # r) = Some (quoted x, r)" by blast
    with escape scan_u_escape [of n "quoted x @ CHR 0x22 # r"] show ?thesis by auto
  next
    case (rune c cs)
    then have "length (drop (rune_length s) s) < length s" by simp
    with 1 have "scan_string (quoted (drop (rune_length s) s) @ CHR 0x22 # r) = Some (quoted (drop (rune_length s) s), r)"
      by blast
    moreover have "list_all (\<lambda>d. \<not> is_ascii d) (take (rune_length s) s)"
      using rune_chars [OF rune(2), of _ cs] rune(1) by (auto simp: list_all_iff)
    ultimately show ?thesis using rune(4) scan_chars by simp
  qed
qed

section \<open>Tokens\<close>

definition breaks :: "string \<Rightarrow> bool" where
  "breaks s \<longleftrightarrow> s = [] \<or> \<not> number_char (hd s)"

text \<open>A text that is read as some tokens, whatever follows, if a number cannot go on there.\<close>

definition lexes :: "string \<Rightarrow> jtoken list \<Rightarrow> bool" where
  "lexes x ts \<longleftrightarrow> (\<forall>r us. breaks r \<longrightarrow> tokens r = Some us \<longrightarrow> tokens (x @ r) = Some (ts @ us))"

lemma lexesD: "lexes x ts \<Longrightarrow> breaks r \<Longrightarrow> tokens r = Some us \<Longrightarrow> tokens (x @ r) = Some (ts @ us)"
  by (simp add: lexes_def)

fun commas :: "jtoken list list \<Rightarrow> jtoken list" where
  "commas [] = []"
| "commas [ts] = ts"
| "commas (ts # tss) = ts @ Comma # commas tss"

fun json_tokens :: "json \<Rightarrow> jtoken list" where
  "json_tokens (JStr s) = [Scalar (JStr (to_valid s))]"
| "json_tokens (JArr vs) = OpenArr # commas (map json_tokens vs) @ [CloseArr]"
| "json_tokens (JObj ms) =
     OpenObj # commas (map (\<lambda>m. Scalar (JStr (to_valid (fst m))) # Colon # json_tokens (snd m)) ms) @ [CloseObj]"
| "json_tokens v = [Scalar v]"

fun json_coerced :: "json \<Rightarrow> json" where
  "json_coerced (JStr s) = JStr (to_valid s)"
| "json_coerced (JArr vs) = JArr (map json_coerced vs)"
| "json_coerced (JObj ms) = JObj (map (\<lambda>m. (to_valid (fst m), json_coerced (snd m))) ms)"
| "json_coerced v = v"

fun numbers_ok :: "json \<Rightarrow> bool" where
  "numbers_ok (JNum n) = (valid_number n \<and> list_all number_char n)"
| "numbers_ok (JArr vs) = list_all numbers_ok vs"
| "numbers_ok (JObj ms) = list_all (\<lambda>m. numbers_ok (snd m)) ms"
| "numbers_ok v = True"

text \<open>The nesting of a value is at most the first argument.\<close>

fun fits :: "nat \<Rightarrow> json \<Rightarrow> bool" where
  "fits k (JArr vs) = (k \<noteq> 0 \<and> list_all (fits (k - 1)) vs)"
| "fits k (JObj ms) = (k \<noteq> 0 \<and> list_all (\<lambda>m. fits (k - 1) (snd m)) ms)"
| "fits k v = True"

lemma space_tokens: "json_space c \<Longrightarrow> tokens (c # r) = tokens r"
  by simp

lemma newline_tokens: "tokens (json_newline d @ r) = tokens r"
proof -
  have "tokens (replicate n (CHR '' '') @ r) = tokens r" for n
    by (induction n) (simp_all add: json_space_def)
  then show ?thesis by (simp add: json_newline_def json_space_def)
qed

lemma breaks_Cons: "breaks (c # r) \<longleftrightarrow> \<not> number_char c"
  by (simp add: breaks_def)

lemma breaks_newline: "breaks (json_newline d @ r)"
  by (simp add: json_newline_def breaks_Cons number_char_def is_digit_def)

lemma not_number:
  "\<not> number_char (CHR '','')" "\<not> number_char (CHR '']'')" "\<not> number_char (CHR ''}'')" "\<not> number_char (CHR '':'')"
  by (simp_all add: number_char_def is_digit_def)

lemma punct_tokens:
  "tokens (CHR '','' # r) = map_option ((#) Comma) (tokens r)" "tokens (CHR '':'' # r) = map_option ((#) Colon) (tokens r)"
  "tokens (CHR ''['' # r) = map_option ((#) OpenArr) (tokens r)" "tokens (CHR '']'' # r) = map_option ((#) CloseArr) (tokens r)"
  "tokens (CHR ''{'' # r) = map_option ((#) OpenObj) (tokens r)" "tokens (CHR ''}'' # r) = map_option ((#) CloseObj) (tokens r)"
  by (simp_all add: json_space_def punctuation_def)

declare tokens.simps(2) [simp del]

lemma lexes_string: "lexes (json_quote s) [Scalar (JStr (to_valid s))]"
  unfolding lexes_def json_quote_def
  using scan_quoted unquote_quoted
  by (simp add: tokens.simps(2) json_space_def punctuation_def)

lemma lexes_newline: "lexes x ts \<Longrightarrow> lexes (json_newline d @ x) ts"
  by (simp add: lexes_def newline_tokens)

lemma lexes_joined: "list_all2 lexes xs tss \<Longrightarrow> lexes (joined (json_newline d) xs) (commas tss)"
proof (induction xs arbitrary: tss)
  case Nil
  then show ?case by (simp add: lexes_def)
next
  case (Cons x xs)
  then obtain ts tss' where tss: "tss = ts # tss'" and x: "lexes x ts" and xs: "list_all2 lexes xs tss'"
    by (auto simp: list_all2_Cons1)
  show ?case
  proof (cases xs)
    case Nil
    with tss xs lexes_newline [OF x] show ?thesis by simp
  next
    case (Cons y ys)
    then obtain us uss where tss': "tss' = us # uss" using xs by (auto simp: list_all2_Cons1)
    show ?thesis
      unfolding lexes_def
    proof (intro allI impI)
      fix r vs assume r: "breaks r" "tokens r = Some vs"
      have "tokens (joined (json_newline d) xs @ r) = Some (commas tss' @ vs)"
        using lexesD [OF Cons.IH [OF xs] r] .
      then have "tokens (CHR '','' # joined (json_newline d) xs @ r) = Some (Comma # commas tss' @ vs)"
        by (simp add: punct_tokens)
      from lexesD [OF lexes_newline [OF x] _ this, of d] not_number
      show "tokens (joined (json_newline d) (x # xs) @ r) = Some (commas tss @ vs)"
        by (simp add: Cons tss tss' breaks_Cons)
    qed
  qed
qed

lemma lexes_number:
  assumes "valid_number n" and "list_all number_char n"
  shows "lexes n [Scalar (JNum n)]"
  unfolding lexes_def
proof (intro allI impI)
  fix r us assume r: "breaks r" "tokens r = Some us"
  obtain c cs where n: "n = c # cs" using assms(1) by (cases n) (auto simp: valid_number_def)
  have c: "number_char c" using assms(2) n by simp
  have first: "c = CHR ''-'' \<or> is_digit c"
    using assms(1) by (auto simp: valid_number_def Let_def n split: if_splits)
  have no: "c \<noteq> CHR ''n''" "c \<noteq> CHR ''t''" "c \<noteq> CHR ''f''" "\<not> json_space c" "punctuation c = None" "c \<noteq> CHR 0x22"
    using first by (auto simp: json_space_def punctuation_def is_digit_def)
  have "takeWhile number_char (n @ r) = n"
    using assms(2) r(1) by (cases r) (auto simp: breaks_def takeWhile_append list_all_iff)
  then have "literal (n @ r) = Some (JNum n, r)"
    using assms(1) no by (simp add: literal_def n HasPrefix_byte strings_HasPrefix_def)
  then show "tokens (n @ r) = Some ([Scalar (JNum n)] @ us)"
    using r no by (simp add: n tokens.simps(2))
qed

lemma lexes_literals:
  "lexes ''null'' [Scalar JNull]" "lexes (if b then ''true'' else ''false'') [Scalar (JBool b)]"
  by (auto simp: lexes_def tokens.simps(2) json_space_def punctuation_def literal_def strings_HasPrefix_def)

lemma lexes_member: "lexes x ts \<Longrightarrow> lexes (json_quote k @ '': '' @ x) (Scalar (JStr (to_valid k)) # Colon # ts)"
  unfolding lexes_def
proof (intro allI impI)
  fix r us assume x: "\<forall>r us. breaks r \<longrightarrow> tokens r = Some us \<longrightarrow> tokens (x @ r) = Some (ts @ us)"
    and r: "breaks r" "tokens r = Some us"
  then have "tokens ('': '' @ x @ r) = Some (Colon # ts @ us)"
    by (simp add: punct_tokens space_tokens json_space_def)
  from lexesD [OF lexes_string _ this] not_number
  show "tokens ((json_quote k @ '': '' @ x) @ r) = Some ((Scalar (JStr (to_valid k)) # Colon # ts) @ us)"
    by (simp add: breaks_Cons)
qed

lemma lexes_wrapped:
  assumes "lexes x ts" and "\<And>s. tokens (b # s) = map_option ((#) B) (tokens s)"
    and "\<And>s. tokens (e # s) = map_option ((#) F) (tokens s)"
  shows "lexes (b # x @ json_newline d @ [e]) (B # ts @ [F])"
  unfolding lexes_def
proof (intro allI impI)
  fix r us assume r: "breaks r" "tokens r = Some us"
  have "tokens (json_newline d @ e # r) = Some (F # us)" using r by (simp add: newline_tokens assms(3))
  from lexesD [OF assms(1) breaks_newline this]
  show "tokens ((b # x @ json_newline d @ [e]) @ r) = Some ((B # ts @ [F]) @ us)" by (simp add: assms(2))
qed

lemma lexes_value: "numbers_ok v \<Longrightarrow> lexes (json_indent d v) (json_tokens v)"
proof (induction d v rule: json_indent.induct)
  case (5 d vs)
  show ?case
  proof (cases "vs = []")
    case True
    then show ?thesis by (simp add: lexes_def punct_tokens)
  next
    case False
    have "list_all2 lexes (map (json_indent (d + 1)) vs) (map json_tokens vs)"
      using 5 False by (auto simp: list_all2_map1 list_all2_map2 list_all2_same list_all_iff)
    from lexes_wrapped [OF lexes_joined [OF this] punct_tokens(3,4)] False show ?thesis by simp
  qed
next
  case (6 d ms)
  show ?case
  proof (cases "ms = []")
    case True
    then show ?thesis by (simp add: lexes_def punct_tokens)
  next
    case False
    have "list_all2 lexes (map (\<lambda>m. json_quote (fst m) @ '': '' @ json_indent (d + 1) (snd m)) ms)
        (map (\<lambda>m. Scalar (JStr (to_valid (fst m))) # Colon # json_tokens (snd m)) ms)"
      using 6 False lexes_member
      by (auto simp: list_all2_map1 list_all2_map2 list_all2_same list_all_iff)
    from lexes_wrapped [OF lexes_joined [OF this] punct_tokens(5,6)] False show ?thesis by simp
  qed
qed (simp_all add: lexes_literals lexes_string lexes_number del: if_split)

section \<open>Values\<close>

lemma jrun_append: "jrun st (ts @ us) = (case jrun st ts of None \<Rightarrow> None | Some st' \<Rightarrow> jrun st' us)"
  by (induction ts arbitrary: st) (simp_all split: option.split)

lemma jrun_array:
  assumes "\<And>v fs m ts. v \<in> set vs \<Longrightarrow> length fs \<le> n \<Longrightarrow> m \<in> {WantValue, WantValueOrClose} \<Longrightarrow>
      jrun (fs, m) (json_tokens v @ ts) = jrun (fs, AfterValue (json_coerced v)) ts"
    and "Suc (length fs) \<le> n" and "m \<in> {WantValue, WantValueOrClose}" and "vs \<noteq> []"
  shows "jrun (InArr acc # fs, m) (commas (map json_tokens vs) @ CloseArr # ts) =
    jrun (fs, AfterValue (JArr (rev acc @ map json_coerced vs))) ts"
  using assms
proof (induction vs arbitrary: acc m)
  case (Cons v vs)
  show ?case
  proof (cases vs)
    case Nil
    with Cons.prems(1) [of v "InArr acc # fs" m "CloseArr # ts"] Cons.prems(2,3) show ?thesis by simp
  next
    case (Cons u us)
    have "jrun (InArr acc # fs, m) (json_tokens v @ Comma # commas (map json_tokens vs) @ CloseArr # ts) =
        jrun (InArr (json_coerced v # acc) # fs, WantValue) (commas (map json_tokens vs) @ CloseArr # ts)"
      using Cons.prems(1) [of v "InArr acc # fs" m "Comma # commas (map json_tokens vs) @ CloseArr # ts"] Cons.prems(2,3)
      by simp
    also have "\<dots> = jrun (fs, AfterValue (JArr (rev (json_coerced v # acc) @ map json_coerced vs))) ts"
      using Cons.prems Cons by (intro Cons.IH) simp_all
    finally show ?thesis by (simp add: Cons)
  qed
qed simp

abbreviation member_tokens :: "string \<times> json \<Rightarrow> jtoken list" where
  "member_tokens m \<equiv> Scalar (JStr (to_valid (fst m))) # Colon # json_tokens (snd m)"

lemma jrun_object:
  assumes "\<And>m fs ts. m \<in> set ms \<Longrightarrow> length fs \<le> n \<Longrightarrow>
      jrun (fs, WantValue) (json_tokens (snd m) @ ts) = jrun (fs, AfterValue (json_coerced (snd m))) ts"
    and "Suc (length fs) \<le> n" and "ms \<noteq> []"
  shows "jrun (InObj l k # fs, WantKey acc first) (commas (map member_tokens ms) @ CloseObj # ts) =
    jrun (fs, AfterValue (JObj (rev acc @ map (\<lambda>m. (to_valid (fst m), json_coerced (snd m))) ms))) ts"
  using assms
proof (induction ms arbitrary: acc l k first)
  case (Cons m ms)
  let ?v = "json_coerced (snd m)" and ?k = "to_valid (fst m)"
  have one: "jrun (InObj l k # fs, WantKey acc first) (member_tokens m @ us) = jrun (InObj acc ?k # fs, AfterValue ?v) us" for us
    using Cons.prems(1) [of m "InObj acc ?k # fs" us] Cons.prems(2) by simp
  show ?case
  proof (cases ms)
    case Nil
    with one [of "CloseObj # ts"] show ?thesis by simp
  next
    case (Cons u us)
    have "jrun (InObj l k # fs, WantKey acc first) (member_tokens m @ Comma # commas (map member_tokens ms) @ CloseObj # ts) =
        jrun (InObj [] [] # fs, WantKey ((?k, ?v) # acc) False) (commas (map member_tokens ms) @ CloseObj # ts)"
      using one by simp
    also have "\<dots> = jrun (fs, AfterValue (JObj (rev ((?k, ?v) # acc) @ map (\<lambda>m. (to_valid (fst m), json_coerced (snd m))) ms))) ts"
      using Cons.prems Cons by (intro Cons.IH) simp_all
    finally show ?thesis by (simp add: Cons)
  qed
qed simp

lemma jrun_value:
  "fits k v \<Longrightarrow> length fs + k \<le> json_depth \<Longrightarrow> m \<in> {WantValue, WantValueOrClose} \<Longrightarrow>
     jrun (fs, m) (json_tokens v @ ts) = jrun (fs, AfterValue (json_coerced v)) ts"
proof (induction k v arbitrary: fs m ts rule: fits.induct)
  case (1 k vs)
  have lt: "\<not> json_depth \<le> length fs" using 1(2,3) by simp
  have elem: "jrun (gs, mm) (json_tokens v @ us) = jrun (gs, AfterValue (json_coerced v)) us"
    if "v \<in> set vs" "length gs \<le> json_depth - (k - 1)" "mm \<in> {WantValue, WantValueOrClose}" for v gs mm us
    using 1 that lt by (intro 1(1)) (auto simp: list_all_iff)
  show ?case
  proof (cases "vs = []")
    case True
    then show ?thesis using 1(4) lt by auto
  next
    case False
    have "Suc (length fs) \<le> json_depth - (k - 1)" using 1(2,3) by simp
    from jrun_array [OF elem this _ False, where m = WantValueOrClose and acc = "[]" and ts = ts]
    show ?thesis using 1(4) lt by auto
  qed
next
  case (2 k ms)
  have lt: "\<not> json_depth \<le> length fs" using 2(2,3) by simp
  have elem: "jrun (gs, WantValue) (json_tokens (snd x) @ us) = jrun (gs, AfterValue (json_coerced (snd x))) us"
    if "x \<in> set ms" "length gs \<le> json_depth - (k - 1)" for x gs us
    using 2 that lt by (intro 2(1)) (auto simp: list_all_iff)
  show ?case
  proof (cases "ms = []")
    case True
    then show ?thesis using 2(4) lt by auto
  next
    case False
    have "Suc (length fs) \<le> json_depth - (k - 1)" using 2(2,3) by simp
    from jrun_object [OF elem this False, where l = "[]" and k = "[]" and acc = "[]" and first = True and ts = ts]
    show ?thesis using 2(4) lt by auto
  qed
qed auto

lemma json_roundtrip:
  assumes "numbers_ok v" and "fits json_depth v"
  shows "json_parse (json_MarshalIndent v) = Some (json_coerced v)"
proof -
  have "tokens (json_MarshalIndent v @ []) = Some (json_tokens v @ [])"
    unfolding json_MarshalIndent_def by (rule lexesD [OF lexes_value [OF assms(1)]]) (simp_all add: breaks_def)
  moreover have "jrun ([], WantValue) (json_tokens v @ []) = Some ([], AfterValue (json_coerced v))"
    using jrun_value [OF assms(2), of "[]" WantValue "[]"] by simp
  ultimately show ?thesis by (simp add: json_parse_def)
qed

end
