(* ===== verification/Outbound.thy ===== *)
theory Outbound
  imports Xray JsonProps
begin

text \<open>
  The configuration file of an xray process (xray.go: BuildXrayConfig, buildOutbound,
  buildStreamSettings, and the readers of share links). The structures are the source's; a json.RawMessage
  is the value it was marshalled from. A slice of a text that is too short panics: None.
\<close>

section \<open>Structures\<close>

record LogConfig =
  lg_LogLevel :: string

record InboundConfig =
  ib_Port :: int
  ib_Listen :: string
  ib_Protocol :: string
  ib_Settings :: json

record MuxConfig =
  mu_Enabled :: bool
  mu_Concurrency :: int

record TLSSettings =
  tls_ServerName :: string
  tls_Fingerprint :: string
  tls_ALPN :: "string list"
  tls_AllowInsecure :: bool

record WSSettings =
  ws_Path :: string
  ws_Headers :: "(string \<times> string) list"

record GRPCSettings =
  grpc_ServiceName :: string

record HTTPRequest =
  rq_Version :: string
  rq_Method :: string
  rq_Path :: "string list"
  rq_Headers :: "(string \<times> string list) list"

record TCPHeader =
  th_Type :: string
  th_Request :: "HTTPRequest option"

record TCPSettings =
  tcp_Header :: "TCPHeader option"

record RealitySettings =
  re_ServerName :: string
  re_Fingerprint :: string
  re_PublicKey :: string
  re_ShortID :: string
  re_SpiderX :: string

record StreamSettings =
  ss_Network :: string
  ss_Security :: string
  ss_TLSSettings :: "TLSSettings option"
  ss_WSSettings :: "WSSettings option"
  ss_GRPCSettings :: "GRPCSettings option"
  ss_TCPSettings :: "TCPSettings option"
  ss_RealitySettings :: "RealitySettings option"

record OutboundConfig =
  ob_Protocol :: string
  ob_Settings :: json
  ob_StreamSettings :: "StreamSettings option"
  ob_Mux :: "MuxConfig option"

record XrayConfig =
  xc_Log :: LogConfig
  xc_Inbounds :: "InboundConfig list"
  xc_Outbounds :: "OutboundConfig list"

section \<open>Readers of share links\<close>

text \<open>Without the fragment and without the query.\<close>

definition before_byte :: "char \<Rightarrow> string \<Rightarrow> string" where
  "before_byte c s = (case strings_IndexByte s c of None \<Rightarrow> s | Some i \<Rightarrow> take i s)"

definition cut_colon :: "string \<Rightarrow> string \<times> string" where
  "cut_colon userinfo = (case strings_Cut userinfo '':'' of (mthd, password, _) \<Rightarrow> (mthd, password))"

definition extractSIP002 :: "string \<Rightarrow> (string \<times> string) option" where
  "extractSIP002 raw =
     (if length raw < 5 then None
      else
        let rest = before_byte (CHR ''?'') (before_byte (CHR ''#'') (drop 5 raw))
        in case strings_Cut rest ''@'' of (userinfoB64, _, found) \<Rightarrow>
             if found then
               (case base64Decode userinfoB64 of
                  None \<Rightarrow> Some ([], [])
                | Some userinfo \<Rightarrow> Some (cut_colon userinfo))
             else
               (case base64Decode rest of
                  None \<Rightarrow> Some ([], [])
                | Some decoded \<Rightarrow> Some (cut_colon (fst (strings_Cut decoded ''@'')))))"

definition extractVMessRaw :: "string \<Rightarrow> (string \<rightharpoonup> json) option" where
  "extractVMessRaw raw =
     (if length raw < 8 then None
      else
        let rest = before_byte (CHR ''?'') (before_byte (CHR ''#'') (drop 8 raw))
        in case base64Decode rest of
             None \<Rightarrow> Some Map.empty
           | Some data \<Rightarrow>
               (case unmarshal_map data of None \<Rightarrow> Some Map.empty | Some v \<Rightarrow> Some v))"

text \<open>The parameters that the VLESS and the Trojan reader take from a query; a nil map reads as empty strings.\<close>

definition link_params :: "(string \<times> string) list \<Rightarrow> string \<Rightarrow> string" where
  "link_params q k =
     (if k \<in> {''security'', ''type'', ''path'', ''host'', ''sni'', ''fp'', ''alpn'', ''pbk'', ''sid'', ''spx''}
      then query_Get q k else [])"

definition extractVLessParams :: "string \<Rightarrow> string \<times> string \<times> string \<times> (string \<Rightarrow> string)" where
  "extractVLessParams raw =
     (case url_Parse raw of
        None \<Rightarrow> ([], [], [], \<lambda>_. [])
      | Some u \<Rightarrow>
          let uuid = (case u_User u of None \<Rightarrow> [] | Some (name, _) \<Rightarrow> name); q = url_Query u
          in (uuid, query_Get q ''encryption'', query_Get q ''flow'', link_params q))"

definition extractTrojanParams :: "string \<Rightarrow> string \<times> string \<times> (string \<Rightarrow> string)" where
  "extractTrojanParams raw =
     (case url_Parse raw of
        None \<Rightarrow> ([], [], \<lambda>_. [])
      | Some u \<Rightarrow>
          let password = (case u_User u of
                            None \<Rightarrow> []
                          | Some (name, pw) \<Rightarrow>
                              (let p = (case pw of None \<Rightarrow> [] | Some p \<Rightarrow> p) in if p = [] then name else p));
              q = url_Query u
          in (password, query_Get q ''flow'', link_params q))"

definition extractSocksParams :: "string \<Rightarrow> string \<times> string" where
  "extractSocksParams raw =
     (case url_Parse raw of
        None \<Rightarrow> ([], [])
      | Some u \<Rightarrow>
          (case u_User u of
             None \<Rightarrow> ([], [])
           | Some (name, pw) \<Rightarrow> (name, case pw of None \<Rightarrow> [] | Some p \<Rightarrow> p)))"

definition getInt :: "(string \<rightharpoonup> json) \<Rightarrow> string \<Rightarrow> int" where
  "getInt v key =
     (case v key of
        Some (JNum n) \<Rightarrow> number_trunc n
      | Some (JStr s) \<Rightarrow> fst (strconv_Atoi s)
      | _ \<Rightarrow> 0)"

section \<open>Stream settings\<close>

text \<open>A setting that a share link gives; an absent one is the empty text.\<close>

type_synonym setting = string

definition no_stream :: StreamSettings where
  "no_stream =
     \<lparr>ss_Network = [], ss_Security = [], ss_TLSSettings = None, ss_WSSettings = None, ss_GRPCSettings = None,
      ss_TCPSettings = None, ss_RealitySettings = None\<rparr>"

definition http_header :: "string \<Rightarrow> TCPSettings" where
  "http_header host =
     \<lparr>tcp_Header = Some
        \<lparr>th_Type = ''http'',
         th_Request = Some \<lparr>rq_Version = ''1.1'', rq_Method = ''GET'', rq_Path = [''/''], rq_Headers = [(''Host'', [host])]\<rparr>\<rparr>\<rparr>"

definition transport_settings :: "setting \<Rightarrow> setting \<Rightarrow> setting \<Rightarrow> setting \<Rightarrow> StreamSettings \<Rightarrow> StreamSettings" where
  "transport_settings network headerType path host ss =
     (if network = ''ws'' \<or> network = ''websocket'' then
        ss\<lparr>ss_Network := ''ws'',
           ss_WSSettings := Some \<lparr>ws_Path = path, ws_Headers = (if host \<noteq> [] then [(''Host'', host)] else [])\<rparr>\<rparr>
      else if network = ''grpc'' \<or> network = ''gun'' then
        ss\<lparr>ss_Network := ''grpc'', ss_GRPCSettings := Some \<lparr>grpc_ServiceName = path\<rparr>\<rparr>
      else if network = ''xhttp'' then ss\<lparr>ss_Network := ''xhttp''\<rparr>
      else if network = ''tcp'' \<or> network = ''http'' \<or> network = [] then
        (if headerType = ''http'' \<and> host \<noteq> []
         then ss\<lparr>ss_Network := ''tcp'', ss_TCPSettings := Some (http_header host)\<rparr>
         else ss\<lparr>ss_Network := ''tcp''\<rparr>)
      else ss\<lparr>ss_Network := ''tcp''\<rparr>)"

definition security_settings ::
    "setting \<Rightarrow> setting \<Rightarrow> setting \<Rightarrow> setting \<Rightarrow> setting \<Rightarrow> setting \<Rightarrow> setting \<Rightarrow> StreamSettings \<Rightarrow> StreamSettings" where
  "security_settings security sni fp alpn pbk sid spx ss =
     (if security = ''tls'' then
        ss\<lparr>ss_Security := ''tls'',
           ss_TLSSettings := Some
             \<lparr>tls_ServerName = sni, tls_Fingerprint = fp,
              tls_ALPN = (if alpn \<noteq> [] then strings_Split alpn (CHR '','') else []), tls_AllowInsecure = False\<rparr>\<rparr>
      else if security = ''reality'' then
        ss\<lparr>ss_Security := ''reality'',
           ss_RealitySettings := Some
             \<lparr>re_ServerName = sni, re_Fingerprint = fp, re_PublicKey = pbk, re_ShortID = sid, re_SpiderX = spx\<rparr>\<rparr>
      else ss)"

definition buildStreamSettings ::
    "setting \<Rightarrow> setting \<Rightarrow> setting \<Rightarrow> setting \<Rightarrow> setting \<Rightarrow> setting \<Rightarrow> setting \<Rightarrow> setting \<Rightarrow>
     setting \<Rightarrow> setting \<Rightarrow> setting \<Rightarrow> StreamSettings" where
  "buildStreamSettings network headerType path host security sni fp alpn pbk sid spx =
     security_settings security sni fp alpn pbk sid spx (transport_settings network headerType path host no_stream)"

text \<open>The call that VLESS and Trojan share.\<close>

definition params_stream :: "(string \<Rightarrow> string) \<Rightarrow> StreamSettings" where
  "params_stream p =
     buildStreamSettings (p ''type'') [] (p ''path'') (p ''host'') (p ''security'') (p ''sni'') (p ''fp'') (p ''alpn'')
       (p ''pbk'') (p ''sid'') (p ''spx'')"

section \<open>Outbounds\<close>

definition jint :: "int \<Rightarrow> json" where
  "jint n = JNum (strconv_Itoa n)"

text \<open>The address and port that every proxied outbound is given.\<close>

definition address_members :: "ProxyConfig \<Rightarrow> (string \<times> json) list" where
  "address_members cfg = [(''address'', JStr (pc_Server cfg)), (''port'', jint (pc_Port cfg))]"

definition one_server :: "string \<Rightarrow> (string \<times> json) list \<Rightarrow> json" where
  "one_server key members = json_map [(key, JArr [json_map members])]"

definition mux_config :: "bool \<Rightarrow> MuxConfig option" where
  "mux_config muxEnabled = (if muxEnabled then Some \<lparr>mu_Enabled = True, mu_Concurrency = 8\<rparr> else None)"

definition getXrayProtocol :: "string \<Rightarrow> string" where
  "getXrayProtocol proto =
     (if proto = ''ss'' then ''shadowsocks''
      else if proto = ''vmess'' then ''vmess''
      else if proto = ''vless'' then ''vless''
      else if proto = ''trojan'' then ''trojan''
      else if proto = ''socks5'' then ''socks''
      else ''freedom'')"

definition ss_outbound :: "ProxyConfig \<Rightarrow> MuxConfig option \<Rightarrow> OutboundConfig list option" where
  "ss_outbound cfg mux =
     map_option
       (\<lambda>(mthd, password).
          [\<lparr>ob_Protocol = ''shadowsocks'',
            ob_Settings = one_server ''servers''
              (address_members cfg @
               [(''method'', JStr (if mthd = [] then ''none'' else mthd)), (''password'', JStr password)]),
            ob_StreamSettings = None, ob_Mux = mux\<rparr>])
       (extractSIP002 (pc_Raw cfg))"

definition zero_uuid :: string where
  "zero_uuid = ''00000000-0000-0000-0000-000000000000''"

definition vmess_settings :: "ProxyConfig \<Rightarrow> (string \<rightharpoonup> json) \<Rightarrow> json" where
  "vmess_settings cfg v =
     (let id0 = json_string (v ''id'') in
      one_server ''vnext''
        (address_members cfg @
         [(''users'', JArr [json_map
            [(''id'', JStr (if id0 = [] then zero_uuid else id0)), (''alterId'', jint (getInt v ''aid'')),
             (''security'', JStr ''auto'')]])]))"

definition vmess_stream :: "(string \<rightharpoonup> json) \<Rightarrow> StreamSettings" where
  "vmess_stream v =
     (let s = (\<lambda>k. json_string (v k));
          tlsVal = (if s ''security'' \<noteq> [] then s ''security'' else s ''tls'')
      in buildStreamSettings (s ''net'') (s ''type'') (s ''path'') (s ''host'') tlsVal (s ''sni'') (s ''fp'') (s ''alpn'')
           (s ''pbk'') (s ''sid'') (s ''spx''))"

definition vless_settings :: "ProxyConfig \<Rightarrow> string \<Rightarrow> string \<Rightarrow> string \<Rightarrow> json" where
  "vless_settings cfg uuid encryption flow =
     one_server ''vnext''
       (address_members cfg @
        [(''users'', JArr [json_map
           ([(''id'', JStr uuid), (''encryption'', JStr (if encryption = [] then ''none'' else encryption))] @
            (if flow \<noteq> [] then [(''flow'', JStr flow)] else []))])])"

definition trojan_settings :: "ProxyConfig \<Rightarrow> string \<Rightarrow> string \<Rightarrow> json" where
  "trojan_settings cfg password flow =
     one_server ''servers''
       (address_members cfg @ [(''password'', JStr password)] @ (if flow \<noteq> [] then [(''flow'', JStr flow)] else []))"

definition socks_settings :: "ProxyConfig \<Rightarrow> string \<Rightarrow> string \<Rightarrow> json" where
  "socks_settings cfg username password =
     one_server ''servers''
       (address_members cfg @
        (if username \<noteq> []
         then [(''users'', JArr [json_map [(''user'', JStr username), (''pass'', JStr password)]])] else []))"

definition freedom_outbound :: OutboundConfig where
  "freedom_outbound =
     \<lparr>ob_Protocol = ''freedom'', ob_Settings = json_map [(''domainStrategy'', JStr ''UseIP'')],
      ob_StreamSettings = None, ob_Mux = None\<rparr>"

definition buildOutbound :: "ProxyConfig \<Rightarrow> bool \<Rightarrow> OutboundConfig list option" where
  "buildOutbound cfg muxEnabled =
     (let mux = mux_config muxEnabled;
          proto = pc_Protocol cfg;
          ob = (\<lambda>settings stream.
                  [\<lparr>ob_Protocol = getXrayProtocol proto, ob_Settings = settings, ob_StreamSettings = stream, ob_Mux = mux\<rparr>])
      in if proto = ''ss'' then ss_outbound cfg mux
         else if proto = ''vmess'' then
           map_option (\<lambda>v. ob (vmess_settings cfg v) (Some (vmess_stream v))) (extractVMessRaw (pc_Raw cfg))
         else if proto = ''vless'' then
           (case extractVLessParams (pc_Raw cfg) of (uuid, encryption, flow, params) \<Rightarrow>
              Some (ob (vless_settings cfg uuid encryption flow) (Some (params_stream params))))
         else if proto = ''trojan'' then
           (case extractTrojanParams (pc_Raw cfg) of (password, flow, params) \<Rightarrow>
              Some (ob (trojan_settings cfg password flow) (Some (params_stream params))))
         else if proto = ''socks5'' then
           (case extractSocksParams (pc_Raw cfg) of (username, password) \<Rightarrow>
              Some (ob (socks_settings cfg username password) None))
         else Some [freedom_outbound])"

section \<open>Marshalling\<close>

text \<open>Members with omitempty.\<close>

definition opt_string :: "string \<Rightarrow> string \<Rightarrow> (string \<times> json) list" where
  "opt_string k s = (if s = [] then [] else [(k, JStr s)])"

definition opt_member :: "string \<Rightarrow> ('a \<Rightarrow> json) \<Rightarrow> 'a option \<Rightarrow> (string \<times> json) list" where
  "opt_member k f x = (case x of None \<Rightarrow> [] | Some y \<Rightarrow> [(k, f y)])"

definition mux_json :: "MuxConfig \<Rightarrow> json" where
  "mux_json m =
     JObj ((''enabled'', JBool (mu_Enabled m)) #
       (if mu_Concurrency m = 0 then [] else [(''concurrency'', jint (mu_Concurrency m))]))"

definition tls_json :: "TLSSettings \<Rightarrow> json" where
  "tls_json t =
     JObj (opt_string ''serverName'' (tls_ServerName t) @ opt_string ''fingerprint'' (tls_Fingerprint t) @
       (if tls_ALPN t = [] then [] else [(''alpn'', JArr (map JStr (tls_ALPN t)))]) @
       (if tls_AllowInsecure t then [(''allowInsecure'', JBool True)] else []))"

definition ws_json :: "WSSettings \<Rightarrow> json" where
  "ws_json s =
     JObj (opt_string ''path'' (ws_Path s) @
       (if ws_Headers s = [] then []
        else [(''headers'', json_map (map (\<lambda>(k, v). (k, JStr v)) (ws_Headers s)))]))"

definition grpc_json :: "GRPCSettings \<Rightarrow> json" where
  "grpc_json s = JObj (opt_string ''serviceName'' (grpc_ServiceName s))"

definition request_json :: "HTTPRequest \<Rightarrow> json" where
  "request_json r =
     JObj (opt_string ''version'' (rq_Version r) @ opt_string ''method'' (rq_Method r) @
       (if rq_Path r = [] then [] else [(''path'', JArr (map JStr (rq_Path r)))]) @
       (if rq_Headers r = [] then []
        else [(''headers'', json_map (map (\<lambda>(k, vs). (k, JArr (map JStr vs))) (rq_Headers r)))]))"

definition header_json :: "TCPHeader \<Rightarrow> json" where
  "header_json h = JObj ((''type'', JStr (th_Type h)) # opt_member ''request'' request_json (th_Request h))"

definition tcp_json :: "TCPSettings \<Rightarrow> json" where
  "tcp_json s = JObj (opt_member ''header'' header_json (tcp_Header s))"

definition reality_json :: "RealitySettings \<Rightarrow> json" where
  "reality_json r =
     JObj (opt_string ''serverName'' (re_ServerName r) @ opt_string ''fingerprint'' (re_Fingerprint r) @
       opt_string ''publicKey'' (re_PublicKey r) @ opt_string ''shortId'' (re_ShortID r) @
       opt_string ''spiderX'' (re_SpiderX r))"

definition stream_json :: "StreamSettings \<Rightarrow> json" where
  "stream_json s =
     JObj ([(''network'', JStr (ss_Network s)), (''security'', JStr (ss_Security s))] @
       opt_member ''tlsSettings'' tls_json (ss_TLSSettings s) @ opt_member ''wsSettings'' ws_json (ss_WSSettings s) @
       opt_member ''grpcSettings'' grpc_json (ss_GRPCSettings s) @ opt_member ''tcpSettings'' tcp_json (ss_TCPSettings s) @
       opt_member ''realitySettings'' reality_json (ss_RealitySettings s))"

definition outbound_json :: "OutboundConfig \<Rightarrow> json" where
  "outbound_json ob =
     JObj ([(''protocol'', JStr (ob_Protocol ob)), (''settings'', ob_Settings ob)] @
       opt_member ''streamSettings'' stream_json (ob_StreamSettings ob) @ opt_member ''mux'' mux_json (ob_Mux ob))"

definition inbound_json :: "InboundConfig \<Rightarrow> json" where
  "inbound_json ib =
     JObj [(''port'', jint (ib_Port ib)), (''listen'', JStr (ib_Listen ib)), (''protocol'', JStr (ib_Protocol ib)),
       (''settings'', ib_Settings ib)]"

definition xray_json :: "XrayConfig \<Rightarrow> json" where
  "xray_json c =
     JObj [(''log'', JObj [(''loglevel'', JStr (lg_LogLevel (xc_Log c)))]),
       (''inbounds'', JArr (map inbound_json (xc_Inbounds c))), (''outbounds'', JArr (map outbound_json (xc_Outbounds c)))]"

text \<open>The structure that BuildXrayConfig makes, and its text; no value in it can fail to be marshalled.\<close>

definition xray_config :: "ProxyConfig \<Rightarrow> int \<Rightarrow> bool list \<Rightarrow> XrayConfig option" where
  "xray_config cfg inboundPort muxEnabled =
     map_option
       (\<lambda>obs.
          \<lparr>xc_Log = \<lparr>lg_LogLevel = ''none''\<rparr>,
           xc_Inbounds =
             [\<lparr>ib_Port = inboundPort, ib_Listen = ''127.0.0.1'', ib_Protocol = ''socks'',
               ib_Settings = json_map [(''udp'', JBool False)]\<rparr>],
           xc_Outbounds = obs\<rparr>)
       (buildOutbound cfg (mux_arg muxEnabled))"

definition BuildXrayConfig :: "ProxyConfig \<Rightarrow> int \<Rightarrow> bool list \<Rightarrow> string option" where
  "BuildXrayConfig cfg inboundPort muxEnabled =
     map_option (\<lambda>c. json_MarshalIndent (xray_json c)) (xray_config cfg inboundPort muxEnabled)"

end
