(* ===== verification/ParserProps.thy ===== *)
theory ParserProps
  imports Parser
begin

text \<open>
  Properties of the subscription parser: every configuration it returns is well formed, a rendered
  share link is read back, an encoded subscription means what the plain one means, and the
  lines on which it panics.
\<close>

section \<open>Every configuration is well formed\<close>

definition endpoint_ok :: "ProxyConfig \<Rightarrow> bool" where
  "endpoint_ok c \<longleftrightarrow> pc_Server c \<noteq> [] \<and> 1 \<le> pc_Port c \<and> pc_Port c \<le> 65535"

lemma endpoint_ok_config [simp]:
  "endpoint_ok (endpoint_config host port name) \<longleftrightarrow> host \<noteq> [] \<and> 1 \<le> port \<and> port \<le> 65535"
  by (simp add: endpoint_ok_def endpoint_config_def)

lemma defaultPort_range: "1 \<le> d \<Longrightarrow> d \<le> 65535 \<Longrightarrow> 1 \<le> defaultPort p d \<and> defaultPort p d \<le> 65535"
  by (auto simp: defaultPort_def split: prod.split)

lemma checked_endpoint_ok: "checked_endpoint hp = Some c \<Longrightarrow> endpoint_ok c"
  by (auto simp: checked_endpoint_def split: prod.splits if_splits)

lemma url_endpoint_ok: "url_endpoint d raw = Some c \<Longrightarrow> endpoint_ok c"
  by (auto simp: url_endpoint_def Let_def split: option.splits if_splits)

lemma parseShadowsocks_ok: "parseShadowsocks raw = Some (Some c) \<Longrightarrow> endpoint_ok c"
  using checked_endpoint_ok by (auto simp: parseShadowsocks_def Let_def split: prod.splits option.splits if_splits)

lemma parseVMess_ok:
  assumes "parseVMess raw = Some c"
  shows "endpoint_ok c"
proof -
  obtain data v where "base64Decode (drop 8 raw) = Some data" "unmarshal_map data = Some v"
    using assms by (auto simp: parseVMess_def split: option.splits)
  then show ?thesis using assms by (simp add: parseVMess_def Let_def split: if_splits) auto
qed

lemma parseWireGuard_ok:
  assumes "parseWireGuard raw = Some (Some c)"
  shows "endpoint_ok c"
proof (cases "strings_Contains (drop 12 raw) ''@''")
  case True
  with assms show ?thesis using url_endpoint_ok by (simp add: parseWireGuard_def)
next
  case False
  then obtain host portStr where "c = endpoint_config host (defaultPort portStr 51820) []" "host \<noteq> []"
    using assms by (auto simp: parseWireGuard_def Let_def split: option.splits prod.splits if_splits)
  then show ?thesis using defaultPort_range [of 51820 portStr] by simp
qed

lemma parse_protocol_ok:
  assumes "parse_protocol proto front = Some (Some c)"
  shows "endpoint_ok c \<and> canonical_protocol proto \<in>
    {''ss'', ''vmess'', ''vless'', ''trojan'', ''hysteria2'', ''tuic'', ''wireguard'', ''socks5''}"
  using assms parseShadowsocks_ok parseVMess_ok parseWireGuard_ok checked_endpoint_ok url_endpoint_ok
  unfolding parse_protocol_def parseHysteria2_def parseTUIC_def parseSocks_def parseVLess_def parseTrojan_def
  by (auto simp: canonical_protocol_def split: if_splits option.splits)

lemma ParseSingle_ok:
  assumes "ParseSingle ul raw = Some (Some c)"
  shows "endpoint_ok c \<and> pc_Raw c = strings_TrimSpace raw \<and> pc_Raw c \<noteq> [] \<and> pc_Protocol c \<in>
    {''ss'', ''vmess'', ''vless'', ''trojan'', ''hysteria2'', ''tuic'', ''wireguard'', ''socks5''}"
proof -
  obtain proto front fragment d where "parse_protocol proto front = Some (Some d)" "strings_TrimSpace raw \<noteq> []"
      "c = finish_config (strings_TrimSpace raw) proto fragment d"
    using assms by (auto simp: ParseSingle_def Let_def split: prod.splits if_splits)
  then show ?thesis
    using parse_protocol_ok by (auto simp: finish_config_def endpoint_ok_def)
qed

lemma parse_lines_member:
  "parse_lines ul ls = Some cs \<Longrightarrow> c \<in> set cs \<Longrightarrow> \<exists>l \<in> set ls. parse_line ul l = Some (Some c)"
  by (induction ls arbitrary: cs) (auto split: option.splits)

text \<open>C15. Whatever the subscription holds, every configuration that ParseConfigs returns has a
  server, a port from 1 to 65535, one of the eight canonical protocols, and as its raw text a
  line that the parser was given, trimmed.\<close>

theorem ParseConfigs_valid:
  assumes "ParseConfigs ul body = Some cs" and "c \<in> set cs"
  shows "pc_Server c \<noteq> [] \<and> 1 \<le> pc_Port c \<and> pc_Port c \<le> 65535 \<and>
    pc_Protocol c \<in> {''ss'', ''vmess'', ''vless'', ''trojan'', ''hysteria2'', ''tuic'', ''wireguard'', ''socks5''} \<and>
    (\<exists>line \<in> set (decodeLines (strings_TrimSpace body)).
       pc_Raw c = strings_TrimSpace (strings_TrimSpace line) \<and> pc_Raw c \<noteq> [])"
proof -
  have "parse_lines ul (decodeLines (strings_TrimSpace body)) = Some cs"
    using assms by (auto simp: ParseConfigs_def Let_def split: if_splits)
  then obtain l where l: "l \<in> set (decodeLines (strings_TrimSpace body))" "parse_line ul l = Some (Some c)"
    using parse_lines_member assms(2) by blast
  then have "ParseSingle ul (strings_TrimSpace l) = Some (Some c)"
    by (auto simp: parse_line_def Let_def split: if_splits)
  from ParseSingle_ok [OF this] l show ?thesis by (auto simp: endpoint_ok_def)
qed

lemma ParseConfigs_valid_witness:
  "\<exists>c. ParseConfigs id ''trojan://pw@example.com:443'' = Some [c] \<and> pc_Server c \<noteq> [] \<and> pc_Port c \<le> 65535"
proof -
  obtain c where c: "ParseConfigs id ''trojan://pw@example.com:443'' = Some [c]"
  proof
    show "ParseConfigs id ''trojan://pw@example.com:443'' = Some
        [\<lparr>pc_Protocol = ''trojan'', pc_Server = ''example.com'', pc_Port = 443, pc_Name = [],
          pc_Raw = ''trojan://pw@example.com:443''\<rparr>]" by code_simp
  qed
  from ParseConfigs_valid [OF c, of c] c show ?thesis by auto
qed

section \<open>Panics\<close>

lemma splitHostPort_None: "splitHostPort s = None \<longleftrightarrow> strings_HasPrefix s ''?''"
  by (cases s) (auto simp: splitHostPort_def HasPrefix_byte Let_def split: option.splits prod.splits)

lemma parse_lines_None: "parse_lines ul ls = None \<longleftrightarrow> (\<exists>l \<in> set ls. parse_line ul l = None)"
  by (induction ls) (auto split: option.splits)

lemma panic_line: "parse_line ul ''ss://@?'' = None"
proof -
  have trim: "strings_TrimSpace ''ss://@?'' = ''ss://@?''" by code_simp
  have "extractFragment ''ss://@?'' = (''ss://@?'', [])" by code_simp
  moreover have "strings_Cut ''ss://@?'' ''://'' = (''ss'', ''@?'', True)" by code_simp
  moreover have "parse_protocol ''ss'' ''ss://@?'' = None" by code_simp
  moreover have "list_all is_ascii ''ss''" by code_simp
  moreover have "map ascii_lower ''ss'' = ''ss''" by code_simp
  ultimately have "ParseSingle ul ''ss://@?'' = None"
    by (simp add: ParseSingle_def trim extractProtocol_def strings_ToLower_def Let_def)
  moreover have "\<not> strings_HasPrefix ''ss://@?'' ''#''" by code_simp
  ultimately show ?thesis by (simp add: parse_line_def trim)
qed

text \<open>C29. splitHostPort panics exactly on a string that begins with a question mark, so the
  Shadowsocks link \<open>ss://@?\<close> makes the parser panic, and with it every subscription in which it is
  a line, whatever the other lines are.\<close>

theorem ParseConfigs_panic:
  assumes "strings_TrimSpace body \<noteq> []" and "''ss://@?'' \<in> set (decodeLines (strings_TrimSpace body))"
  shows "ParseConfigs ul body = None \<and> (splitHostPort s = None \<longleftrightarrow> strings_HasPrefix s ''?'')"
  using assms panic_line [of ul] parse_lines_None [of ul "decodeLines (strings_TrimSpace body)"]
  by (auto simp: ParseConfigs_def splitHostPort_None)

lemma ParseConfigs_panic_witness:
  "ParseConfigs id (''vless://u@h:1'' @ [CHR 0x0A] @ ''ss://@?'') = None"
proof -
  let ?body = "''vless://u@h:1'' @ [CHR 0x0A] @ ''ss://@?''"
  have trim: "strings_TrimSpace ?body = ?body" by code_simp
  have "decodeLines ?body = [''vless://u@h:1'', ''ss://@?'']" by code_simp
  then show ?thesis using ParseConfigs_panic [of ?body id "''?''"] trim by simp
qed

section \<open>Encoded subscriptions\<close>

text \<open>Base64 encoding with padding, the reference that decoding is checked against.\<close>

definition b64_char :: "nat \<Rightarrow> char" where
  "b64_char n =
     (if n < 26 then char_of (n + 65) else if n < 52 then char_of (n + 71)
      else if n < 62 then char_of (n - 4) else if n = 62 then CHR ''+'' else CHR ''/'')"

fun b64_encode :: "string \<Rightarrow> string" where
  "b64_encode [] = []"
| "b64_encode [a] =
     (let x = (of_char a :: nat) in [b64_char (x div 4), b64_char (x mod 4 * 16), CHR ''='', CHR ''=''])"
| "b64_encode [a, b] =
     (let x = (of_char a :: nat); y = (of_char b :: nat)
      in [b64_char (x div 4), b64_char (x mod 4 * 16 + y div 16), b64_char (y mod 16 * 4), CHR ''=''])"
| "b64_encode (a # b # c # r) =
     (let x = (of_char a :: nat); y = (of_char b :: nat); z = (of_char c :: nat)
      in b64_char (x div 4) # b64_char (x mod 4 * 16 + y div 16) # b64_char (y mod 16 * 4 + z div 64) #
         b64_char (z mod 64) # b64_encode r)"

lemma b64_value_none:
  "b64_value StdEncoding (CHR ''='') = None" "\<not> is_ascii c \<Longrightarrow> b64_value StdEncoding c = None"
  "ascii_space c \<Longrightarrow> b64_value StdEncoding c = None"
  by (auto simp: b64_value_def is_ascii_def ascii_space_def Let_def)

lemma b64_char_facts:
  assumes "n < 64"
  shows "b64_value StdEncoding (b64_char n) = Some n" and "b64_char n \<noteq> CHR ''=''"
    and "is_ascii (b64_char n)" and "\<not> ascii_space (b64_char n)"
proof -
  consider "n < 26" | "26 \<le> n" "n < 52" | "52 \<le> n" "n < 62" | "n = 62" | "n = 63"
    using assms by linarith
  then show v: "b64_value StdEncoding (b64_char n) = Some n"
    by cases (simp_all add: b64_value_def b64_char_def Let_def, linarith)
  then show "b64_char n \<noteq> CHR ''=''" "is_ascii (b64_char n)" "\<not> ascii_space (b64_char n)"
    using b64_value_none by (metis option.distinct(1))+
qed

lemma byte_parts:
  fixes x :: nat
  assumes "x < 256"
  shows "x div 4 < 64" "x mod 4 < 4" "x div 16 < 16" "x mod 16 < 16" "x div 64 < 4" "x mod 64 < 64"
    "x div 4 * 4 + x mod 4 = x" "x div 16 * 16 + x mod 16 = x" "x div 64 * 64 + x mod 64 = x"
  using assms by auto

lemma b64_roundtrip: "b64_quanta StdEncoding (b64_encode s) = Some s"
proof (induction s rule: b64_encode.induct)
  case (2 a)
  then show ?case
    using byte_parts [OF nat_of_char_less_256 [of a]] by (simp add: Let_def b64_char_facts)
next
  case (3 a b)
  then show ?case
    using byte_parts [OF nat_of_char_less_256 [of a]] byte_parts [OF nat_of_char_less_256 [of b]]
    by (simp add: Let_def b64_char_facts)
next
  case (4 a b c r)
  then show ?case
    using byte_parts [OF nat_of_char_less_256 [of a]] byte_parts [OF nat_of_char_less_256 [of b]] byte_parts [OF nat_of_char_less_256 [of c]]
    by (simp add: Let_def b64_char_facts)
qed simp

lemma b64_encode_chars: "list_all (\<lambda>c. is_ascii c \<and> \<not> ascii_space c) (b64_encode s)"
proof (induction s rule: b64_encode.induct)
  case (2 a)
  then show ?case
    using byte_parts [OF nat_of_char_less_256 [of a]]
    by (simp add: Let_def b64_char_facts) (simp add: is_ascii_def ascii_space_def)
next
  case (3 a b)
  then show ?case
    using byte_parts [OF nat_of_char_less_256 [of a]] byte_parts [OF nat_of_char_less_256 [of b]]
    by (simp add: Let_def b64_char_facts) (simp add: is_ascii_def ascii_space_def)
next
  case (4 a b c r)
  then show ?case
    using byte_parts [OF nat_of_char_less_256 [of a]] byte_parts [OF nat_of_char_less_256 [of b]] byte_parts [OF nat_of_char_less_256 [of c]]
    by (simp add: Let_def b64_char_facts)
qed simp

lemma b64_quanta_chars:
  "b64_quanta enc s = Some r \<Longrightarrow> c \<in> set s \<Longrightarrow> b64_value enc c \<noteq> None \<or> c = CHR ''=''"
  by (induction enc s arbitrary: r rule: b64_quanta.induct) (auto split: option.splits if_splits)

lemma base64Decode_colon: "CHR '':'' \<in> set s \<Longrightarrow> base64Decode s = None"
proof -
  have "b64_DecodeString enc t = None" if "CHR '':'' \<in> set t" for enc t
  proof (rule ccontr)
    assume "b64_DecodeString enc t \<noteq> None"
    then obtain r where "b64_quanta enc (filter (\<lambda>c. c \<noteq> CHR 0x0A \<and> c \<noteq> CHR 0x0D) t) = Some r"
      by (auto simp: b64_DecodeString_def)
    moreover have "CHR '':'' \<in> set (filter (\<lambda>c. c \<noteq> CHR 0x0A \<and> c \<noteq> CHR 0x0D) t)" using that by simp
    ultimately have "b64_value enc (CHR '':'') \<noteq> None" using b64_quanta_chars by fastforce
    then show False by (cases enc) (simp_all add: b64_value_def)
  qed
  then show "CHR '':'' \<in> set s \<Longrightarrow> base64Decode s = None"
    by (simp add: base64Decode_def first_decoding_def addBase64Padding_def)
qed

lemma base64Decode_encode: "base64Decode (b64_encode s) = Some s"
proof -
  have "filter (\<lambda>c. c \<noteq> CHR 0x0A \<and> c \<noteq> CHR 0x0D) (b64_encode s) = b64_encode s"
    using b64_encode_chars [of s] by (intro filter_True) (auto simp: list_all_iff ascii_space_def)
  then show ?thesis
    by (simp add: base64Decode_def first_decoding_def b64_DecodeString_def b64_roundtrip)
qed

lemma b64_encode_ne: "s \<noteq> [] \<Longrightarrow> b64_encode s \<noteq> []"
  by (induction s rule: b64_encode.induct) (simp_all add: Let_def)

text \<open>C16. Encoding a subscription as a whole changes nothing: a trimmed subscription that holds a
  colon (every share link does) and its base64 encoding parse to the same configurations.\<close>

theorem encoded_subscription:
  assumes "strings_TrimSpace body = body" and "CHR '':'' \<in> set body"
  shows "ParseConfigs ul (b64_encode body) = ParseConfigs ul body"
proof -
  have "body \<noteq> []" using assms(2) by auto
  have "strings_TrimSpace (b64_encode body) = b64_encode body"
    using b64_encode_chars [of body]
    by (intro TrimSpace_id) (auto simp: list_all_iff)
  then show ?thesis
    using assms \<open>body \<noteq> []\<close> b64_encode_ne [OF \<open>body \<noteq> []\<close>]
    by (simp add: ParseConfigs_def decodeLines_def base64Decode_encode base64Decode_colon)
qed

lemma encoded_subscription_witness:
  "ParseConfigs id ''dHJvamFuOi8vcHdAaDoxMA=='' = ParseConfigs id ''trojan://pw@h:10'' \<and>
   ParseConfigs id ''trojan://pw@h:10'' \<noteq> Some []"
proof -
  have "strings_TrimSpace ''trojan://pw@h:10'' = ''trojan://pw@h:10''" by code_simp
  moreover have "b64_encode ''trojan://pw@h:10'' = ''dHJvamFuOi8vcHdAaDoxMA==''" by code_simp
  moreover have "ParseConfigs id ''trojan://pw@h:10'' \<noteq> Some []" by code_simp
  ultimately show ?thesis using encoded_subscription [of "''trojan://pw@h:10''" id] by simp
qed

section \<open>Share links\<close>

text \<open>Bytes that stand for themselves in every part of a link.\<close>

definition plain_char :: "char \<Rightarrow> bool" where
  "plain_char c \<longleftrightarrow> is_alpha c \<or> is_digit c \<or> c = CHR ''-'' \<or> c = CHR ''.''"

lemma plain_char_facts:
  assumes "plain_char c"
  shows "c \<noteq> CHR '':''" "c \<noteq> CHR ''@''" "c \<noteq> CHR ''/''" "c \<noteq> CHR ''?''" "c \<noteq> CHR ''#''" "c \<noteq> CHR ''%''"
    "c \<noteq> CHR ''[''" "c \<noteq> CHR '']''" "c \<noteq> CHR ''+''" "is_ascii c" "\<not> is_ctl c" "\<not> shouldEscapeHost c" "\<not> ascii_space c"
  using assms
  by (auto simp: plain_char_def is_alpha_def is_digit_def is_ascii_def is_ctl_def shouldEscapeHost_def ascii_space_def)

lemma plain_digit: "is_digit c \<Longrightarrow> plain_char c"
  by (simp add: plain_char_def)

lemma unescape_plain:
  "list_all (\<lambda>c. plain_char c \<or> c = CHR '':'') s \<Longrightarrow> url_unescape m s = Some s"
proof (induction s)
  case (Cons c cs)
  have colon: "\<not> shouldEscapeHost (CHR '':'')" by (simp add: shouldEscapeHost_def)
  have IH: "url_unescape m cs = Some cs" and c: "plain_char c \<or> c = CHR '':''" using Cons by simp_all
  have "c \<noteq> CHR ''%''" "c \<noteq> CHR ''+''" "\<not> shouldEscapeHost c"
    using c plain_char_facts(6,9,12) colon by blast+
  with IH show ?case by simp
qed simp

definition hex_digit :: "nat \<Rightarrow> char" where
  "hex_digit n = (if n < 10 then char_of (n + 48) else char_of (n + 55))"

definition percent_encode :: "string \<Rightarrow> string" where
  "percent_encode s =
     concat (map (\<lambda>c. [CHR ''%'', hex_digit (of_char c div 16), hex_digit (of_char c mod 16)]) s)"

lemma unhex_hex_digit: "n < 16 \<Longrightarrow> unhex (hex_digit n) = Some n"
  by (simp add: unhex_def hex_digit_def Let_def)

lemma hex_digit_plain: "n < 16 \<Longrightarrow> plain_char (hex_digit n)"
  by (auto simp: hex_digit_def plain_char_def is_alpha_def is_digit_def)

lemma unescape_percent: "url_unescape encodeQueryComponent (percent_encode s) = Some s"
proof (induction s)
  case (Cons c cs)
  then show ?case
    using byte_parts [OF nat_of_char_less_256 [of c]]
    by (simp add: percent_encode_def unhex_hex_digit bad_escape_def mult.commute)
qed (simp add: percent_encode_def)

lemma percent_encode_chars: "list_all (\<lambda>c. plain_char c \<or> c = CHR ''%'') (percent_encode s)"
  using byte_parts [OF nat_of_char_less_256]
  by (induction s) (simp_all add: percent_encode_def hex_digit_plain)

definition vless_front :: "string \<Rightarrow> string \<Rightarrow> nat \<Rightarrow> string \<Rightarrow> string" where
  "vless_front uuid host port query =
     ''vless://'' @ uuid @ ''@'' @ host @ '':'' @ nat_digits port @ ''?'' @ query"

lemma nat_digits_plain: "list_all plain_char (nat_digits n)"
  using nat_digits_digit plain_digit by (auto simp: list_all_iff)

lemma host_port_split:
  assumes "list_all plain_char host"
  shows "url_splitHostPort (host @ '':'' @ nat_digits p) = (host, nat_digits p)"
proof -
  have "CHR '':'' \<notin> set (nat_digits p)"
    using nat_digits_plain [of p] plain_char_facts(1) by (auto simp: list_all_iff)
  then have "strings_LastIndexByte (host @ '':'' @ nat_digits p) (CHR '':'') = Some (length host)"
    using LastIndexByte_append by simp
  moreover have "\<not> strings_HasPrefix host ''[''"
    using assms plain_char_facts(7) by (cases host) (auto simp: HasPrefix_byte)
  moreover have "list_all is_digit (nat_digits p)" using nat_digits_digit by (simp add: list_all_iff)
  ultimately show ?thesis by (simp add: url_splitHostPort_def validOptionalPort_def)
qed

lemma parseHost_plain:
  assumes "list_all plain_char host"
  shows "parseHost (host @ '':'' @ nat_digits p) = Some (host @ '':'' @ nat_digits p)"
proof -
  have "CHR '':'' \<notin> set (nat_digits p)"
    using nat_digits_plain [of p] plain_char_facts(1) by (auto simp: list_all_iff)
  then have "strings_LastIndexByte (host @ '':'' @ nat_digits p) (CHR '':'') = Some (length host)"
    using LastIndexByte_append by simp
  moreover have "\<not> strings_HasPrefix (host @ '':'' @ nat_digits p) ''[''"
    using assms plain_char_facts(7) by (cases host) (auto simp: HasPrefix_byte)
  moreover have "list_all is_digit (nat_digits p)" using nat_digits_digit by (simp add: list_all_iff)
  moreover have "url_unescape encodeHost (host @ '':'' @ nat_digits p) = Some (host @ '':'' @ nat_digits p)"
    using assms nat_digits_plain [of p] by (intro unescape_plain) (auto simp: list_all_iff)
  ultimately show ?thesis by (simp add: parseHost_def validOptionalPort_def)
qed

lemma parseUserinfo_plain:
  assumes "list_all plain_char u"
  shows "parseUserinfo u = Some (u, None)"
proof -
  have "validUserinfo u" "\<not> strings_Contains u '':''"
    using assms plain_char_facts(1) by (auto simp: validUserinfo_def plain_char_def list_all_iff Contains_byte)
  moreover have "url_unescape encodeUserPassword u = Some u"
    using assms by (intro unescape_plain) (auto simp: list_all_iff)
  ultimately show ?thesis by (simp add: parseUserinfo_def)
qed

lemma parseAuthority_plain:
  assumes "list_all plain_char u" "list_all plain_char host"
  shows "parseAuthority (u @ ''@'' @ host @ '':'' @ nat_digits p) = Some (Some (u, None), host @ '':'' @ nat_digits p)"
proof -
  have "CHR ''@'' \<notin> set (host @ '':'' @ nat_digits p)"
    using assms(2) nat_digits_plain [of p] plain_char_facts(2) by (auto simp: list_all_iff)
  then have "strings_LastIndexByte (u @ ''@'' @ host @ '':'' @ nat_digits p) (CHR ''@'') = Some (length u)"
    using LastIndexByte_append by simp
  then show ?thesis
    using parseHost_plain [OF assms(2), of p] parseUserinfo_plain [OF assms(1)]
    by (simp add: parseAuthority_def)
qed

definition vless_link :: "string \<Rightarrow> string \<Rightarrow> nat \<Rightarrow> string \<Rightarrow> string \<Rightarrow> string" where
  "vless_link uuid host port query name = vless_front uuid host port query @ ''#'' @ percent_encode name"

definition query_char :: "char \<Rightarrow> bool" where
  "query_char c \<longleftrightarrow> plain_char c \<or> c \<in> set ''=&%+''"

lemma query_char_facts:
  assumes "query_char c"
  shows "c \<noteq> CHR ''?''" "c \<noteq> CHR ''#''" "\<not> is_ctl c" "is_ascii c" "\<not> ascii_space c"
  using assms plain_char_facts [of c] unfolding query_char_def
  by (cases "plain_char c"; auto simp: is_ctl_def is_ascii_def ascii_space_def)+

definition link_authority :: "string \<Rightarrow> string \<Rightarrow> nat \<Rightarrow> string" where
  "link_authority uuid host port = uuid @ ''@'' @ host @ '':'' @ nat_digits port"

lemma authority_chars:
  assumes "list_all plain_char uuid" and "list_all plain_char host"
  shows "list_all (\<lambda>c. plain_char c \<or> c = CHR ''@'' \<or> c = CHR '':'') (link_authority uuid host port)"
  using assms nat_digits_plain [of port] by (auto simp: link_authority_def list_all_iff)

lemma authority_free:
  assumes "list_all plain_char uuid" and "list_all plain_char host"
  shows "CHR ''/'' \<notin> set (link_authority uuid host port)" "CHR ''?'' \<notin> set (link_authority uuid host port)"
    "CHR ''#'' \<notin> set (link_authority uuid host port)"
proof -
  have no: "\<not> plain_char (CHR ''/'')" "\<not> plain_char (CHR ''?'')" "\<not> plain_char (CHR ''#'')"
    by code_simp+
  have "c \<notin> set (link_authority uuid host port)"
    if "\<not> plain_char c" "c \<noteq> CHR ''@''" "c \<noteq> CHR '':''" for c
    using authority_chars [OF assms, of port] that unfolding list_all_iff by blast
  with no show "CHR ''/'' \<notin> set (link_authority uuid host port)" "CHR ''?'' \<notin> set (link_authority uuid host port)"
    "CHR ''#'' \<notin> set (link_authority uuid host port)" by simp_all
qed

lemma url_Parse_vless:
  assumes "list_all plain_char uuid" "list_all plain_char host" "list_all query_char query" "query \<noteq> []"
  shows "\<exists>u. url_Parse (vless_front uuid host port query) = Some u \<and> u_Host u = host @ '':'' @ nat_digits port \<and>
    u_User u = Some (uuid, None) \<and> u_RawQuery u = query"
proof -
  let ?A = "link_authority uuid host port"
  let ?raw = "''vless://'' @ ?A @ ''?'' @ query"
  have raw: "vless_front uuid host port query = ?raw" by (simp add: vless_front_def link_authority_def)
  note free = authority_free [OF assms(1,2), of port]
  have q: "CHR ''?'' \<notin> set query" "CHR ''#'' \<notin> set query"
    using assms(3) query_char_facts(1,2) by (auto simp: list_all_iff)
  have "CHR ''#'' \<notin> set ?raw" using free q by simp
  then have cut: "strings_Cut ?raw ''#'' = (?raw, [], False)" by (rule Cut_byte_none)
  have ctl: "\<not> list_ex is_ctl ?raw"
  proof -
    have "list_all (\<lambda>c. \<not> is_ctl c) ''vless://''" by code_simp
    moreover have "list_all (\<lambda>c. \<not> is_ctl c) ?A"
      using authority_chars [OF assms(1,2), of port] plain_char_facts(11)
      by (auto simp: list_all_iff is_ctl_def)
    moreover have "list_all (\<lambda>c. \<not> is_ctl c) (''?'' @ query)"
      using assms(3) query_char_facts(3) by (auto simp: list_all_iff is_ctl_def)
    ultimately have "list_all (\<lambda>c. \<not> is_ctl c) ?raw" unfolding list_all_append by blast
    then show ?thesis by (simp add: list_all_iff list_ex_iff)
  qed
  have scheme: "getScheme ?raw = SchemeIs ''vless'' (''//'' @ ?A @ ''?'' @ query)"
    by (simp add: getScheme_def is_alpha_def is_digit_def)
  have suffix: "\<not> strings_HasSuffix (''//'' @ ?A @ ''?'' @ query) ''?''"
  proof
    assume "strings_HasSuffix (''//'' @ ?A @ ''?'' @ query) ''?''"
    then obtain r where "''//'' @ ?A @ ''?'' @ query = r @ ''?''" unfolding HasSuffix_iff by blast
    then have "last (''//'' @ ?A @ ''?'' @ query) = last (r @ ''?'')" by (rule arg_cong)
    with assms(4) have "last query = CHR ''?''" by simp
    with q(1) assms(4) show False using last_in_set [of query] by simp
  qed
  have "CHR ''?'' \<notin> set (''//'' @ ?A)" using free by simp
  then have cutq: "strings_Cut (''//'' @ ?A @ ''?'' @ query) ''?'' = (''//'' @ ?A, query, True)"
    using Cut_byte [of "CHR ''?''" "''//'' @ ?A" query] by simp
  have tw: "takeWhile (\<lambda>c. c \<noteq> CHR ''/'') ?A = ?A" "dropWhile (\<lambda>c. c \<noteq> CHR ''/'') ?A = []"
    using free(1) by (auto simp: takeWhile_eq_all_conv dropWhile_eq_Nil_conv)
  have auth: "parseAuthority ?A = Some (Some (uuid, None), host @ '':'' @ nat_digits port)"
    using parseAuthority_plain [OF assms(1,2)] by (simp add: link_authority_def)
  have rest: "parse_rest (empty_url\<lparr>u_Scheme := ''vless'', u_RawQuery := query\<rparr>) (''//'' @ ?A) =
      Some (empty_url\<lparr>u_Scheme := ''vless'', u_RawQuery := query, u_User := Some (uuid, None),
        u_Host := host @ '':'' @ nat_digits port, u_Path := []\<rparr>)"
    by (simp add: parse_rest_def strings_HasPrefix_def tw auth Let_def)
  have lower: "map ascii_lower ''vless'' = ''vless''" by code_simp
  have "parse_url ?raw = Some (empty_url\<lparr>u_Scheme := ''vless'', u_RawQuery := query, u_User := Some (uuid, None),
        u_Host := host @ '':'' @ nat_digits port, u_Path := []\<rparr>)"
    unfolding parse_url_def using ctl scheme suffix cutq rest lower by simp
  then show ?thesis unfolding raw url_Parse_def cut by simp
qed

lemma TrimSpace_vless:
  assumes "list_all plain_char uuid" "list_all plain_char host" "list_all query_char query"
    and "list_all (\<lambda>c. is_ascii c \<and> \<not> ascii_space c) frag"
  shows "strings_TrimSpace (vless_front uuid host port query @ ''#'' @ frag) =
    vless_front uuid host port query @ ''#'' @ frag"
proof -
  let ?s = "''vless://'' @ link_authority uuid host port @ ''?'' @ query @ ''#'' @ frag"
  have "list_all (\<lambda>c. is_ascii c \<and> \<not> ascii_space c) ''vless://''" by code_simp
  moreover have "list_all (\<lambda>c. is_ascii c \<and> \<not> ascii_space c) (link_authority uuid host port)"
    using authority_chars [OF assms(1,2), of port] plain_char_facts(10,13)
    by (auto simp: list_all_iff is_ascii_def ascii_space_def)
  moreover have "list_all (\<lambda>c. is_ascii c \<and> \<not> ascii_space c) (''?'' @ query @ ''#'')"
    using assms(3) query_char_facts(4,5) by (auto simp: list_all_iff is_ascii_def ascii_space_def)
  ultimately have "list_all (\<lambda>c. is_ascii c \<and> \<not> ascii_space c) ?s"
    using assms(4) unfolding list_all_append by blast
  then have all: "\<forall>c \<in> set ?s. is_ascii c \<and> \<not> ascii_space c" unfolding list_all_iff .
  have "strings_TrimSpace ?s = ?s"
  proof (rule TrimSpace_id)
    show "list_all is_ascii ?s" using all unfolding list_all_iff by blast
    have "hd ?s \<in> set ?s" "last ?s \<in> set ?s" by (rule hd_in_set, simp, rule last_in_set, simp)
    with all show "\<not> ascii_space (hd ?s) \<and> \<not> ascii_space (last ?s)" by blast
  qed
  then show ?thesis by (simp add: vless_front_def link_authority_def)
qed

text \<open>A VLESS link with any fragment: the name is the fragment when it can be unescaped.\<close>

lemma vless_parsed_fragment:
  assumes "list_all plain_char uuid" "list_all plain_char host" "host \<noteq> []" "1 \<le> port" "port \<le> 65535"
    and "list_all query_char query" "query \<noteq> []" "list_all (\<lambda>c. is_ascii c \<and> \<not> ascii_space c) frag"
  shows "ParseSingle ul (vless_front uuid host port query @ ''#'' @ frag) =
    Some (Some \<lparr>pc_Protocol = ''vless'', pc_Server = host, pc_Port = int port,
      pc_Name = (case url_QueryUnescape frag of None \<Rightarrow> [] | Some n \<Rightarrow> n),
      pc_Raw = vless_front uuid host port query @ ''#'' @ frag\<rparr>)"
proof -
  let ?f = "vless_front uuid host port query"
  define link where "link = ?f @ ''#'' @ frag"
  have trim: "strings_TrimSpace link = link"
    unfolding link_def by (rule TrimSpace_vless [OF assms(1,2,6,8)])
  have "link \<noteq> []" by (simp add: link_def)
  have "CHR ''#'' \<notin> set ?f"
    using authority_free(3) [OF assms(1,2), of port] assms(6) query_char_facts(2)
    by (auto simp: vless_front_def link_authority_def list_all_iff)
  then have frag: "extractFragment link = (?f, frag)"
    using Cut_byte by (simp add: extractFragment_def link_def)
  have "strings_Cut ?f ''://'' = (''vless'', uuid @ ''@'' @ host @ '':'' @ nat_digits port @ ''?'' @ query, True)"
    by (simp add: vless_front_def strings_HasPrefix_def)
  moreover have "strings_ToLower ul ''vless'' = ''vless''"
  proof -
    have "list_all is_ascii ''vless''" "map ascii_lower ''vless'' = ''vless''" by code_simp+
    then show ?thesis by (simp add: strings_ToLower_def)
  qed
  ultimately have proto: "extractProtocol ul ?f = ''vless''" by (simp add: extractProtocol_def)
  obtain u where u: "url_Parse ?f = Some u" "u_Host u = host @ '':'' @ nat_digits port"
    using url_Parse_vless [OF assms(1,2,6,7)] by blast
  have "strconv_Atoi (nat_digits port) = (int port, None)" using assms(5) by (intro Atoi_nat_digits) simp
  then have "parseVLess ?f = Some (endpoint_config host (int port) [])"
    using u assms(3-5) host_port_split [OF assms(2)]
    by (simp add: parseVLess_def url_Hostname_def url_Port_def checked_endpoint_def)
  then show ?thesis
    unfolding link_def [symmetric] using \<open>link \<noteq> []\<close>
    by (simp add: ParseSingle_def trim frag proto parse_protocol_def finish_config_def endpoint_config_def
        canonical_protocol_def Let_def)
qed

lemma vless_parsed:
  assumes "list_all plain_char uuid" "list_all plain_char host" "host \<noteq> []" "1 \<le> port" "port \<le> 65535"
    and "list_all query_char query" "query \<noteq> []"
  shows "ParseSingle ul (vless_link uuid host port query name) =
    Some (Some \<lparr>pc_Protocol = ''vless'', pc_Server = host, pc_Port = int port, pc_Name = name,
      pc_Raw = vless_link uuid host port query name\<rparr>)"
proof -
  have "list_all (\<lambda>c. is_ascii c \<and> \<not> ascii_space c) (percent_encode name)"
    using percent_encode_chars [of name] plain_char_facts(10,13)
    by (auto simp: list_all_iff is_ascii_def ascii_space_def)
  from vless_parsed_fragment [OF assms this] show ?thesis
    by (simp add: vless_link_def url_QueryUnescape_def unescape_percent)
qed

text \<open>A VLESS link rendered from an identifier, a host, a port, a query and a name is read back
  exactly, whatever bytes the name holds.\<close>

theorem vless_link_roundtrip:
  assumes "list_all plain_char uuid" "list_all plain_char host" "host \<noteq> []" "1 \<le> port" "port \<le> 65535"
    and "list_all query_char query" "query \<noteq> []"
  shows "ParseSingle ul (vless_link uuid host port query name) =
    Some (Some \<lparr>pc_Protocol = ''vless'', pc_Server = host, pc_Port = int port, pc_Name = name,
      pc_Raw = vless_link uuid host port query name\<rparr>)"
  by (rule vless_parsed [OF assms])

lemma vless_link_roundtrip_witness:
  "ParseSingle id ''vless://u1@example.com:443?type=ws#%53%20%E2'' =
     Some (Some \<lparr>pc_Protocol = ''vless'', pc_Server = ''example.com'', pc_Port = 443,
       pc_Name = [CHR ''S'', CHR '' '', CHR 0xE2], pc_Raw = ''vless://u1@example.com:443?type=ws#%53%20%E2''\<rparr>)"
proof -
  have "list_all plain_char ''u1''" "list_all plain_char ''example.com''" "list_all query_char ''type=ws''"
    by code_simp+
  moreover have "vless_link ''u1'' ''example.com'' 443 ''type=ws'' [CHR ''S'', CHR '' '', CHR 0xE2] =
      ''vless://u1@example.com:443?type=ws#%53%20%E2''" by code_simp
  ultimately show ?thesis
    using vless_link_roundtrip [where uuid = "''u1''" and host = "''example.com''" and port = 443
        and query = "''type=ws''" and name = "[CHR ''S'', CHR '' '', CHR 0xE2]" and ul = id]
    by simp
qed

end
