(* ===== verification/OutboundProps.thy ===== *)
theory OutboundProps
  imports Outbound ParserProps
begin

text \<open>
  Properties of the configuration file: an outbound goes to the endpoint of its configuration or is the
  direct one, exactly as IsXraySupported says; the text of the file means the structure it was made
  from; a rendered VLESS link keeps its identifier and parameters; and a link whose name is badly escaped
  loses them.
\<close>

section \<open>Where an outbound goes\<close>

text \<open>The address and the port of the only server of the settings of a proxied outbound.\<close>

definition member :: "string \<Rightarrow> json \<Rightarrow> json option" where
  "member k v = (case v of JObj ms \<Rightarrow> map_of ms k | _ \<Rightarrow> None)"

definition only_element :: "json option \<Rightarrow> json option" where
  "only_element v = (case v of Some (JArr [x]) \<Rightarrow> Some x | _ \<Rightarrow> None)"

definition goes_to :: "json \<Rightarrow> (json \<times> json) option" where
  "goes_to settings =
     (let servers = (case member ''servers'' settings of None \<Rightarrow> member ''vnext'' settings | Some v \<Rightarrow> Some v)
      in case only_element servers of
           None \<Rightarrow> None
         | Some s \<Rightarrow>
             (case (member ''address'' s, member ''port'' s) of (Some a, Some p) \<Rightarrow> Some (a, p) | _ \<Rightarrow> None))"

lemma map_of_sort: "distinct (map fst ms) \<Longrightarrow> map_of (sort_key fst ms) k = map_of ms k"
proof -
  assume d: "distinct (map fst ms)"
  have "mset (map fst (sort_key fst ms)) = mset (map fst ms)" by simp
  then have "distinct (map fst (sort_key fst ms))" using d by (metis mset_eq_imp_distinct_iff)
  with d have "map_of (sort_key fst ms) = map_of ms" by (simp add: map_of_inject_set)
  then show ?thesis by simp
qed

lemma goes_to_one_server:
  assumes "key = ''servers'' \<or> key = ''vnext''" and "distinct (map fst (address_members cfg @ ms))"
  shows "goes_to (one_server key (address_members cfg @ ms)) = Some (JStr (pc_Server cfg), jint (pc_Port cfg))"
proof -
  have "member ''address'' (json_map (address_members cfg @ ms)) = Some (JStr (pc_Server cfg))"
    "member ''port'' (json_map (address_members cfg @ ms)) = Some (jint (pc_Port cfg))"
    using map_of_sort [OF assms(2)] by (simp_all add: member_def json_map_def address_members_def)
  with assms(1) show ?thesis
    by (auto simp: goes_to_def one_server_def json_map_def member_def only_element_def)
qed

lemma settings_go_to:
  "goes_to (vmess_settings cfg v) = Some (JStr (pc_Server cfg), jint (pc_Port cfg))"
  "goes_to (vless_settings cfg uuid enc flow) = Some (JStr (pc_Server cfg), jint (pc_Port cfg))"
  "goes_to (trojan_settings cfg password flow) = Some (JStr (pc_Server cfg), jint (pc_Port cfg))"
  "goes_to (socks_settings cfg name password) = Some (JStr (pc_Server cfg), jint (pc_Port cfg))"
  unfolding vmess_settings_def vless_settings_def trojan_settings_def socks_settings_def Let_def
  by (rule goes_to_one_server; simp add: address_members_def)+

text \<open>Where the protocol of a configuration is one of those that xray speaks.\<close>

definition proxied :: "string \<Rightarrow> bool" where
  "proxied proto \<longleftrightarrow> proto \<in> {''ss'', ''vmess'', ''vless'', ''trojan'', ''socks5''}"

lemma buildOutbound_proxied:
  assumes "buildOutbound cfg mux = Some obs" and "proxied (pc_Protocol cfg)"
  shows "\<exists>ob. obs = [ob] \<and> ob_Protocol ob = getXrayProtocol (pc_Protocol cfg) \<and> ob_Protocol ob \<noteq> ''freedom'' \<and>
    goes_to (ob_Settings ob) = Some (JStr (pc_Server cfg), jint (pc_Port cfg)) \<and> ob_Mux ob = mux_config mux"
proof -
  have "goes_to (one_server ''servers'' (address_members cfg @ [(''method'', m), (''password'', p)])) =
      Some (JStr (pc_Server cfg), jint (pc_Port cfg))" for m p
    by (rule goes_to_one_server) (simp_all add: address_members_def)
  with assms settings_go_to show ?thesis
    unfolding proxied_def
    by (elim insertE emptyE)
      (auto simp: buildOutbound_def ss_outbound_def getXrayProtocol_def Let_def split: prod.splits)
qed

lemma buildOutbound_direct:
  "\<not> proxied (pc_Protocol cfg) \<Longrightarrow> buildOutbound cfg mux = Some [freedom_outbound]"
  by (simp add: buildOutbound_def proxied_def Let_def)

text \<open>What a Shadowsocks or a VMess parser accepts is long enough to be cut again.\<close>

lemma parse_protocol_length:
  assumes "parse_protocol proto front = Some (Some c)"
  shows "(proto = ''ss'' \<longrightarrow> 5 < length front) \<and> (proto = ''vmess'' \<longrightarrow> 8 < length front)"
proof (intro conjI impI)
  assume "proto = ''ss''"
  then have ss: "parseShadowsocks front = Some (Some c)" using assms by (simp add: parse_protocol_def)
  have "strings_Cut [] ''@'' = ([], [], False)" "base64Decode [] = Some []" by code_simp+
  then have "parseShadowsocks front = Some None" if "drop 5 front = []"
    using that by (simp add: parseShadowsocks_def)
  with ss show "5 < length front" by fastforce
next
  assume "proto = ''vmess''"
  then have vm: "parseVMess front = Some c" using assms by (simp add: parse_protocol_def)
  have "base64Decode [] = Some []" "unmarshal_map [] = None" by code_simp+
  then have "parseVMess front = None" if "drop 8 front = []" using that by (simp add: parseVMess_def)
  with vm show "8 < length front" by fastforce
qed

lemma Cut_shorter: "strings_Cut s sep = (b, a, f) \<Longrightarrow> length b \<le> length s"
  by (induction s arbitrary: b) (auto split: if_splits prod.splits)

lemma parsed_outbound:
  assumes "ParseSingle ul raw = Some (Some cfg)"
  shows "buildOutbound cfg mux \<noteq> None" and "proxied (pc_Protocol cfg) \<longleftrightarrow> IsXraySupported (Some cfg)"
proof -
  obtain front fragment d where front: "extractFragment (strings_TrimSpace raw) = (front, fragment)"
      and d: "parse_protocol (extractProtocol ul front) front = Some (Some d)"
      and cfg: "cfg = finish_config (strings_TrimSpace raw) (extractProtocol ul front) fragment d"
    using assms by (auto simp: ParseSingle_def Let_def split: prod.splits if_splits)
  have "length front \<le> length (strings_TrimSpace raw)"
    using front by (auto simp: extractFragment_def split: prod.splits dest: Cut_shorter)
  then have "(pc_Protocol cfg = ''ss'' \<longrightarrow> 5 < length (pc_Raw cfg)) \<and> (pc_Protocol cfg = ''vmess'' \<longrightarrow> 8 < length (pc_Raw cfg))"
    using parse_protocol_length [OF d] cfg by (auto simp: finish_config_def canonical_protocol_def split: if_splits)
  then show "buildOutbound cfg mux \<noteq> None"
    by (auto simp: buildOutbound_def ss_outbound_def extractSIP002_def extractVMessRaw_def Let_def
        split: prod.splits option.splits)
  show "proxied (pc_Protocol cfg) \<longleftrightarrow> IsXraySupported (Some cfg)"
    using ParseSingle_ok [OF assms] by (auto simp: proxied_def IsXraySupported_def)
qed

text \<open>C8. Every configuration that the parser returns has exactly one outbound and no panic; when
  IsXraySupported accepts it, the outbound is not the direct one and its only server is the address and
  port of the configuration; otherwise it is the direct outbound, without mux.\<close>

theorem outbound_no_leak:
  assumes "ParseSingle ul raw = Some (Some cfg)"
  shows "\<exists>ob. buildOutbound cfg mux = Some [ob] \<and>
    (if IsXraySupported (Some cfg)
     then ob_Protocol ob \<noteq> ''freedom'' \<and> goes_to (ob_Settings ob) = Some (JStr (pc_Server cfg), jint (pc_Port cfg)) \<and>
       ob_Mux ob = mux_config mux
     else ob = freedom_outbound)"
  using parsed_outbound(1) [OF assms, of mux] parsed_outbound(2) [OF assms] buildOutbound_proxied [of cfg mux] buildOutbound_direct [of cfg mux]
  by fastforce

definition linked_config :: ProxyConfig where
  "linked_config =
     \<lparr>pc_Protocol = ''trojan'', pc_Server = ''example.com'', pc_Port = 443, pc_Name = [],
      pc_Raw = ''trojan://pw@example.com:443''\<rparr>"

lemma outbound_no_leak_witness:
  "\<exists>cfg ob. ParseSingle id ''trojan://pw@example.com:443'' = Some (Some cfg) \<and> buildOutbound cfg True = Some [ob] \<and>
     goes_to (ob_Settings ob) = Some (JStr ''example.com'', JNum ''443'')"
proof -
  have "ParseSingle id ''trojan://pw@example.com:443'' = Some (Some linked_config)"
    "IsXraySupported (Some linked_config)" "jint (pc_Port linked_config) = JNum ''443''"
    "pc_Server linked_config = ''example.com''"
    by code_simp+
  with outbound_no_leak [of id "''trojan://pw@example.com:443''" linked_config True] show ?thesis by auto
qed

section \<open>The text of the file\<close>

lemma nat_digits_lead: "n \<noteq> 0 \<Longrightarrow> hd (nat_digits n) \<noteq> CHR ''0''"
proof (induction n rule: nat_digits.induct)
  case (1 n)
  show ?case
  proof (cases "n < 10")
    case True
    have "char_of (48 + n) \<noteq> CHR ''0''"
    proof
      assume "char_of (48 + n) = CHR ''0''"
      then have "(of_char (char_of (48 + n) :: char) :: nat) = of_char (CHR ''0'')" by (rule arg_cong)
      with True 1(2) show False by simp
    qed
    with True show ?thesis by (subst nat_digits.simps) simp
  next
    case False
    then have "hd (nat_digits (n div 10)) \<noteq> CHR ''0''" using 1 by simp
    with False show ?thesis by (subst nat_digits.simps) simp
  qed
qed

lemma valid_digits: "valid_number (nat_digits n) \<and> valid_number (CHR ''-'' # nat_digits n)"
proof -
  have all: "takeWhile is_digit (nat_digits n) = nat_digits n" "dropWhile is_digit (nat_digits n) = []"
    using nat_digits_digit by (auto simp: takeWhile_eq_all_conv dropWhile_eq_Nil_conv)
  have zero: "nat_digits 0 = ''0''" by code_simp
  have lead: "hd (nat_digits n) = CHR ''0'' \<longrightarrow> length (nat_digits n) = 1"
    using nat_digits_lead [of n] zero by (cases "n = 0") simp_all
  have "is_digit (hd (nat_digits n))" using nat_digits_digit nat_digits_ne hd_in_set by blast
  then have "hd (nat_digits n) \<noteq> CHR ''-''" by (auto simp: is_digit_def)
  with lead show ?thesis by (auto simp: all valid_number_def valid_exponent_def Let_def dest: nat_digits_digit)
qed

lemma numbers_ok_jint [simp]: "numbers_ok (jint n)"
proof -
  have "list_all number_char (nat_digits k)" for k
    using nat_digits_digit by (auto simp: list_all_iff number_char_def)
  with valid_digits show ?thesis by (simp add: jint_def strconv_Itoa_def number_char_def)
qed

text \<open>The values in a configuration: valid numbers, and no nesting beyond twelve levels.\<close>

definition small :: "nat \<Rightarrow> json \<Rightarrow> bool" where
  "small k v \<longleftrightarrow> numbers_ok v \<and> fits k v"

lemma fits_jint [simp]: "fits k (jint n)"
  by (simp add: jint_def)

lemma small_simps [simp]:
  "small k (JStr s)" "small k (JBool b)" "small k (jint n)"
  "small (Suc k) (JArr vs) = list_all (small k) vs"
  "small (Suc k) (JObj ms) = list_all (\<lambda>m. small k (snd m)) ms"
  by (auto simp: small_def list_all_iff)

lemma small_map [simp]: "small (Suc k) (json_map ms) = list_all (\<lambda>m. small k (snd m)) ms"
  by (simp add: json_map_def list_all_iff)

lemma small_opt [simp]:
  "list_all (\<lambda>m. small k (snd m)) (opt_string key s)"
  "list_all (\<lambda>m. small k (snd m)) (opt_member key f x) = (case x of None \<Rightarrow> True | Some y \<Rightarrow> small k (f y))"
  by (auto simp: opt_string_def opt_member_def split: option.split)

lemma small_one_server:
  "list_all (\<lambda>m. small k (snd m)) ms \<Longrightarrow> small (Suc (Suc (Suc k))) (one_server key (address_members cfg @ ms))"
  by (simp add: one_server_def address_members_def)

lemma small_settings:
  "small (Suc (Suc (Suc (Suc (Suc k))))) (vmess_settings cfg v)"
  "small (Suc (Suc (Suc (Suc (Suc k))))) (vless_settings cfg uuid enc flow)"
  "small (Suc (Suc (Suc (Suc (Suc k))))) (trojan_settings cfg password flow)"
  "small (Suc (Suc (Suc (Suc (Suc k))))) (socks_settings cfg name password)"
  "small (Suc (Suc (Suc (Suc (Suc k))))) (one_server ''servers'' (address_members cfg @ [(''method'', JStr m), (''password'', JStr p)]))"
  unfolding vmess_settings_def vless_settings_def trojan_settings_def socks_settings_def Let_def
  by (rule small_one_server; simp)+

lemma small_strings [simp]:
  "list_all (small k) (map JStr xs)"
  "list_all (\<lambda>m. small k (snd m)) (map (\<lambda>(key, v). (key, JStr v)) ys)"
  "list_all (\<lambda>m. small (Suc k) (snd m)) (map (\<lambda>(key, vs). (key, JArr (map JStr vs))) zs)"
  by (auto simp: list_all_iff)

lemma small_stream: "small (Suc (Suc (Suc (Suc (Suc (Suc k)))))) (stream_json s)"
  unfolding stream_json_def tls_json_def ws_json_def grpc_json_def tcp_json_def header_json_def request_json_def
    reality_json_def
  by (simp split: option.split)

lemma small_mux: "small (Suc k) (mux_json m)"
  by (simp add: mux_json_def)

lemma small_outbound:
  assumes "buildOutbound cfg mux = Some obs"
  shows "list_all (\<lambda>ob. small (Suc (Suc (Suc (Suc (Suc (Suc (Suc k))))))) (outbound_json ob)) obs"
proof -
  have "small (Suc (Suc (Suc (Suc (Suc k))))) (ob_Settings freedom_outbound)"
    by (simp add: freedom_outbound_def)
  then have "list_all (\<lambda>ob. small (Suc (Suc (Suc (Suc (Suc (Suc k)))))) (ob_Settings ob)) obs"
    using assms small_settings
    by (auto simp: buildOutbound_def ss_outbound_def freedom_outbound_def Let_def split: if_splits prod.splits)
  then have "small (Suc (Suc (Suc (Suc (Suc (Suc (Suc k))))))) (outbound_json ob)" if "ob \<in> set obs" for ob
    using that by (simp add: list_all_iff [of _ obs] outbound_json_def small_stream small_mux split: option.split)
  then show ?thesis by (simp add: list_all_iff)
qed

lemma small_config:
  assumes "xray_config cfg port m = Some c"
  shows "small json_depth (xray_json c)"
proof -
  obtain obs where obs: "buildOutbound cfg (mux_arg m) = Some obs" and c: "xc_Outbounds c = obs"
      "xc_Inbounds c = [\<lparr>ib_Port = port, ib_Listen = ''127.0.0.1'', ib_Protocol = ''socks'',
         ib_Settings = json_map [(''udp'', JBool False)]\<rparr>]"
    using assms by (auto simp: xray_config_def)
  have "small (Suc (Suc (Suc (Suc (Suc (Suc (Suc (Suc (Suc k))))))))) (xray_json c)" for k
    using small_outbound [OF obs, of k]
    by (simp add: xray_json_def c inbound_json_def list_all_iff [of _ "map outbound_json obs"] list_all_iff [of _ obs])
  from this [of 9991] show ?thesis by (simp add: json_depth_def)
qed

text \<open>C7. The file handed to xray is well formed whatever the share link holds: read as JSON, the text
  that BuildXrayConfig renders is the structure it was made from, up to bytes that are not valid UTF-8. So
  no field of a link can add to or change the structure, and the only inbound listens on the loopback
  address at the given port.\<close>

theorem config_file_roundtrip:
  assumes "BuildXrayConfig cfg port m = Some text"
  shows "\<exists>c. xray_config cfg port m = Some c \<and> json_parse text = Some (json_coerced (xray_json c)) \<and>
    map ib_Listen (xc_Inbounds c) = [''127.0.0.1''] \<and> map ib_Port (xc_Inbounds c) = [port] \<and>
    buildOutbound cfg (mux_arg m) = Some (xc_Outbounds c)"
proof -
  obtain c where c: "xray_config cfg port m = Some c" "text = json_MarshalIndent (xray_json c)"
    using assms by (auto simp: BuildXrayConfig_def)
  have "numbers_ok (xray_json c)" "fits json_depth (xray_json c)"
    using small_config [OF c(1)] by (simp_all add: small_def)
  from json_roundtrip [OF this] c show ?thesis by (auto simp: xray_config_def)
qed

lemma config_file_roundtrip_witness:
  "\<exists>text c. BuildXrayConfig linked_config 10700 [True] = Some text \<and>
     json_parse text = Some (json_coerced (xray_json c)) \<and> map ib_Port (xc_Inbounds c) = [10700]"
proof -
  have "buildOutbound linked_config True \<noteq> None" by code_simp
  then obtain out where t: "BuildXrayConfig linked_config 10700 [True] = Some out"
    by (auto simp: BuildXrayConfig_def xray_config_def mux_arg_def)
  obtain c where "json_parse out = Some (json_coerced (xray_json c))" "map ib_Port (xc_Inbounds c) = [10700]"
    using config_file_roundtrip [OF t] by auto
  with t show ?thesis by auto
qed

section \<open>VLESS links\<close>

text \<open>A query of settings with plain names and values of any bytes.\<close>

definition render_query :: "(string \<times> string) list \<Rightarrow> string" where
  "render_query ps = strings_Join (map (\<lambda>(k, v). k @ ''='' @ percent_encode v) ps) ''&''"

definition plain_keys :: "(string \<times> string) list \<Rightarrow> bool" where
  "plain_keys ps \<longleftrightarrow> ps \<noteq> [] \<and> list_all (\<lambda>p. fst p \<noteq> [] \<and> list_all plain_char (fst p)) ps"

lemma setting_chars:
  assumes "list_all plain_char k"
  shows "list_all (\<lambda>c. query_char c \<and> c \<noteq> CHR ''&'') (k @ ''='' @ percent_encode v)"
proof -
  have amp: "\<not> plain_char (CHR ''&'')" by code_simp
  have q: "query_char c \<and> c \<noteq> CHR ''&''" if "plain_char c \<or> c = CHR ''%'' \<or> c = CHR ''=''" for c
    using that amp by (auto simp: query_char_def)
  have "list_all (\<lambda>c. plain_char c \<or> c = CHR ''%'' \<or> c = CHR ''='') (k @ ''='' @ percent_encode v)"
    using assms percent_encode_chars [of v] by (auto simp: list_all_iff)
  then show ?thesis using q unfolding list_all_iff by blast
qed

lemma query_setting_render:
  assumes "k \<noteq> []" and "list_all plain_char k"
  shows "query_setting (k @ ''='' @ percent_encode v) = Some (k, v)"
proof -
  have no: "\<not> plain_char (CHR '';'')" "\<not> plain_char (CHR ''='')" by code_simp+
  have "CHR '';'' \<notin> set (k @ ''='' @ percent_encode v)"
    using assms(2) no percent_encode_chars [of v] by (auto simp: list_all_iff)
  then have semi: "\<not> strings_Contains (k @ ''='' @ percent_encode v) '';''" by (simp add: Contains_byte)
  have "CHR ''='' \<notin> set k" using assms(2) no by (auto simp: list_all_iff)
  then have "strings_Cut (k @ ''='' @ percent_encode v) ''='' = (k, percent_encode v, True)" using Cut_byte by simp
  moreover have "url_QueryUnescape k = Some k"
    unfolding url_QueryUnescape_def using assms(2) by (intro unescape_plain) (auto simp: list_all_iff)
  ultimately show ?thesis
    using assms(1) semi unescape_percent [of v] by (simp add: query_setting_def url_QueryUnescape_def)
qed

lemma Join_list_all:
  "list_all P sep \<Longrightarrow> list_all (list_all P) xs \<Longrightarrow> list_all P (strings_Join xs sep)"
  by (induction xs sep rule: strings_Join.induct) simp_all

lemma render_query_facts:
  assumes "plain_keys ps"
  shows "render_query ps \<noteq> []" and "list_all query_char (render_query ps)"
    and "strings_Split (render_query ps) (CHR ''&'') = map (\<lambda>(k, v). k @ ''='' @ percent_encode v) ps"
proof -
  let ?xs = "map (\<lambda>(k, v). k @ ''='' @ percent_encode v) ps"
  have c: "list_all (\<lambda>c. query_char c \<and> c \<noteq> CHR ''&'') x" if x: "x \<in> set ?xs" for x
  proof -
    obtain k v where kv: "(k, v) \<in> set ps" and xkv: "x = k @ ''='' @ percent_encode v"
      using x by auto
    have "list_all plain_char k" using assms kv by (auto simp: plain_keys_def list_all_iff)
    then show ?thesis unfolding xkv by (rule setting_chars)
  qed
  then have "list_all (list_all query_char) ?xs" by (simp add: list_all_iff)
  moreover have "query_char (CHR ''&'')" by (simp add: query_char_def)
  ultimately show "list_all query_char (render_query ps)"
    unfolding render_query_def by (intro Join_list_all) simp_all
  show split: "strings_Split (render_query ps) (CHR ''&'') = ?xs"
    unfolding render_query_def
  proof (rule Split_Join)
    show "?xs \<noteq> []" using assms by (simp add: plain_keys_def)
    show "\<forall>x \<in> set ?xs. CHR ''&'' \<notin> set x"
    proof
      fix x assume "x \<in> set ?xs"
      from c [OF this] show "CHR ''&'' \<notin> set x" by (auto simp: list_all_iff)
    qed
  qed
  show "render_query ps \<noteq> []"
  proof
    assume "render_query ps = []"
    then have "?xs = [[]]" using split by simp
    then show False by (cases ps) auto
  qed
qed

lemma url_Query_render:
  assumes "plain_keys ps" and "u_RawQuery u = render_query ps"
  shows "url_Query u = ps"
proof -
  have "List.map_filter query_setting (map (\<lambda>(k, v). k @ ''='' @ percent_encode v) qs) = qs"
    if "list_all (\<lambda>p. fst p \<noteq> [] \<and> list_all plain_char (fst p)) qs" for qs
    using that query_setting_render by (induction qs) (auto simp: List.map_filter_simps)
  then show ?thesis
    using assms render_query_facts(3) [OF assms(1)] by (simp add: url_Query_def plain_keys_def)
qed

lemma unescape_fragment: "url_unescape encodeFragment (percent_encode s) = Some s"
proof (induction s)
  case (Cons c cs)
  then show ?case
    using byte_parts [OF nat_of_char_less_256 [of c]]
    by (simp add: percent_encode_def unhex_hex_digit bad_escape_def mult.commute)
qed (simp add: percent_encode_def)

lemma url_Parse_fragment:
  assumes "url_Parse front = Some u" and "CHR ''#'' \<notin> set front"
  shows "url_Parse (front @ ''#'' @ frag) =
    (if frag = [] then Some u else map_option (\<lambda>f. u\<lparr>u_Fragment := f\<rparr>) (url_unescape encodeFragment frag))"
proof -
  have "parse_url front = Some u"
    using assms Cut_byte_none [OF assms(2)] by (simp add: url_Parse_def split: option.splits)
  with Cut_byte [OF assms(2)] show ?thesis by (simp add: url_Parse_def)
qed

text \<open>C9. A VLESS link keeps its credentials and its parameters on the way through the parser into the
  outbound: the identifier, host, port and every setting of the query, whatever bytes the values
  hold, are those of the link, whatever the name is.\<close>

theorem vless_outbound:
  assumes "list_all plain_char uuid" "list_all plain_char host" "host \<noteq> []" "1 \<le> port" "port \<le> 65535"
    and "plain_keys ps"
  shows "\<exists>cfg. ParseSingle ul (vless_link uuid host port (render_query ps) name) = Some (Some cfg) \<and>
    pc_Server cfg = host \<and> pc_Port cfg = int port \<and>
    buildOutbound cfg mux = Some [\<lparr>ob_Protocol = ''vless'',
      ob_Settings = vless_settings cfg uuid (query_Get ps ''encryption'') (query_Get ps ''flow''),
      ob_StreamSettings = Some (params_stream (link_params ps)), ob_Mux = mux_config mux\<rparr>]"
proof -
  let ?q = "render_query ps" and ?front = "vless_front uuid host port (render_query ps)"
  note q = render_query_facts [OF assms(6)]
  obtain cfg where cfg: "ParseSingle ul (vless_link uuid host port ?q name) = Some (Some cfg)"
      "cfg = \<lparr>pc_Protocol = ''vless'', pc_Server = host, pc_Port = int port, pc_Name = name,
        pc_Raw = vless_link uuid host port ?q name\<rparr>"
    using vless_parsed [OF assms(1-5) q(2,1)] by blast
  obtain u where u: "url_Parse ?front = Some u" "u_User u = Some (uuid, None)" "u_RawQuery u = ?q"
    using url_Parse_vless [OF assms(1,2) q(2,1)] by blast
  have "CHR ''#'' \<notin> set ?front"
    using authority_free(3) [OF assms(1,2), of port] q(2) query_char_facts(2)
    by (auto simp: vless_front_def link_authority_def list_all_iff)
  from url_Parse_fragment [OF u(1) this, of "percent_encode name"]
  obtain v where v: "url_Parse (vless_link uuid host port ?q name) = Some v" "u_User v = u_User u" "u_RawQuery v = u_RawQuery u"
    by (auto simp: vless_link_def unescape_fragment split: if_splits)
  have "url_Query v = ps" using url_Query_render [OF assms(6)] v(3) u(3) by simp
  then have "extractVLessParams (pc_Raw cfg) = (uuid, query_Get ps ''encryption'', query_Get ps ''flow'', link_params ps)"
    using v u(2) cfg(2) by (simp add: extractVLessParams_def)
  with cfg show ?thesis by (simp add: buildOutbound_def getXrayProtocol_def Let_def)
qed

lemma vless_outbound_witness:
  "\<exists>cfg ob s. ParseSingle id (vless_link ''u1'' ''example.com'' 443 (render_query [(''type'', ''ws''), (''path'', ''/a&b'')]) ''n'') =
     Some (Some cfg) \<and> buildOutbound cfg True = Some [ob] \<and> ob_StreamSettings ob = Some s \<and>
     ss_WSSettings s = Some \<lparr>ws_Path = ''/a&b'', ws_Headers = []\<rparr>"
proof -
  let ?ps = "[(''type'', ''ws''), (''path'', ''/a&b'')]"
  have h: "list_all plain_char ''u1''" "list_all plain_char ''example.com''" "plain_keys ?ps" by code_simp+
  have s: "ss_WSSettings (params_stream (link_params ?ps)) = Some \<lparr>ws_Path = ''/a&b'', ws_Headers = []\<rparr>" by code_simp
  have "\<exists>cfg. ParseSingle id (vless_link ''u1'' ''example.com'' 443 (render_query ?ps) ''n'') = Some (Some cfg) \<and>
    pc_Server cfg = ''example.com'' \<and> pc_Port cfg = int 443 \<and>
    buildOutbound cfg True = Some [\<lparr>ob_Protocol = ''vless'',
      ob_Settings = vless_settings cfg ''u1'' (query_Get ?ps ''encryption'') (query_Get ?ps ''flow''),
      ob_StreamSettings = Some (params_stream (link_params ?ps)), ob_Mux = mux_config True\<rparr>]"
    by (rule vless_outbound [OF h(1,2) _ _ _ h(3)]) simp_all
  with s show ?thesis by auto
qed

text \<open>C28. The readers parse the whole link again, with the fragment that the parser has cut off: when the
  name of a VLESS link cannot be unescaped (a percent sign that is not an escape is enough), the link is
  accepted and promoted, but its outbound has an empty identifier and none of the parameters - no
  TLS and no transport.\<close>

theorem bad_name_loses_credentials:
  assumes "list_all plain_char uuid" "list_all plain_char host" "host \<noteq> []" "1 \<le> port" "port \<le> 65535"
    and "list_all query_char query" "query \<noteq> []" "list_all (\<lambda>c. is_ascii c \<and> \<not> ascii_space c) frag"
    and "url_unescape encodeFragment frag = None"
  shows "\<exists>cfg. ParseSingle ul (vless_front uuid host port query @ ''#'' @ frag) = Some (Some cfg) \<and>
    IsXraySupported (Some cfg) \<and>
    buildOutbound cfg mux = Some [\<lparr>ob_Protocol = ''vless'', ob_Settings = vless_settings cfg [] [] [],
      ob_StreamSettings = Some (no_stream\<lparr>ss_Network := ''tcp''\<rparr>), ob_Mux = mux_config mux\<rparr>]"
proof -
  let ?front = "vless_front uuid host port query"
  obtain cfg where cfg: "ParseSingle ul (?front @ ''#'' @ frag) = Some (Some cfg)" "pc_Protocol cfg = ''vless''"
      "pc_Raw cfg = ?front @ ''#'' @ frag"
    using vless_parsed_fragment [OF assms(1-8)] by auto
  obtain u where u: "url_Parse ?front = Some u" using url_Parse_vless [OF assms(1,2,6,7)] by blast
  have "CHR ''#'' \<notin> set ?front"
    using authority_free(3) [OF assms(1,2), of port] assms(6) query_char_facts(2)
    by (auto simp: vless_front_def link_authority_def list_all_iff)
  from url_Parse_fragment [OF u this, of frag] assms(9) have "url_Parse (pc_Raw cfg) = None"
    by (auto simp: cfg(3))
  then have "extractVLessParams (pc_Raw cfg) = ([], [], [], \<lambda>_. [])" by (simp add: extractVLessParams_def)
  moreover have "params_stream (\<lambda>_. []) = no_stream\<lparr>ss_Network := ''tcp''\<rparr>"
    by (simp add: params_stream_def buildStreamSettings_def transport_settings_def security_settings_def)
  ultimately have "buildOutbound cfg mux = Some [\<lparr>ob_Protocol = ''vless'', ob_Settings = vless_settings cfg [] [] [],
      ob_StreamSettings = Some (no_stream\<lparr>ss_Network := ''tcp''\<rparr>), ob_Mux = mux_config mux\<rparr>]"
    using cfg(2) by (simp add: buildOutbound_def getXrayProtocol_def Let_def)
  with cfg show ?thesis by (auto simp: IsXraySupported_def)
qed

lemma bad_name_loses_credentials_witness:
  "\<exists>cfg ob. ParseSingle id ''vless://u1@example.com:443?type=ws#100%'' = Some (Some cfg) \<and>
     IsXraySupported (Some cfg) \<and> buildOutbound cfg True = Some [ob] \<and> ob_Settings ob = vless_settings cfg [] [] []"
proof -
  have h: "list_all plain_char ''u1''" "list_all plain_char ''example.com''" "list_all query_char ''type=ws''"
    "list_all (\<lambda>c. is_ascii c \<and> \<not> ascii_space c) ''100%''" "url_unescape encodeFragment ''100%'' = None"
    "vless_front ''u1'' ''example.com'' 443 ''type=ws'' @ ''#'' @ ''100%'' = ''vless://u1@example.com:443?type=ws#100%''"
    by code_simp+
  have "\<exists>cfg. ParseSingle id (vless_front ''u1'' ''example.com'' 443 ''type=ws'' @ ''#'' @ ''100%'') = Some (Some cfg) \<and>
    IsXraySupported (Some cfg) \<and>
    buildOutbound cfg True = Some [\<lparr>ob_Protocol = ''vless'', ob_Settings = vless_settings cfg [] [] [],
      ob_StreamSettings = Some (no_stream\<lparr>ss_Network := ''tcp''\<rparr>), ob_Mux = mux_config True\<rparr>]"
    by (rule bad_name_loses_credentials [OF h(1,2) _ _ _ h(3) _ h(4,5)]) simp_all
  then show ?thesis unfolding h(6) by auto
qed

end
