(* ===== verification/Provenance.thy ===== *)
theory Provenance
  imports System OutboundProps
begin

text \<open>
  Where the configurations come from: whatever the pool serves and whatever is kept as a candidate was
  parsed from a subscription and is supported, drops included. With the facts about outbounds this
  is the leak guard of the whole program: no xray process ever gets a direct outbound.
\<close>

section \<open>The invariant\<close>

definition from_link :: "golib \<Rightarrow> ProxyConfig set" where
  "from_link L = {c. IsXraySupported (Some c) \<and> (\<exists>raw. ParseSingle (lb_lower L) raw = Some (Some c))}"

definition serves_from :: "ProxyConfig set \<Rightarrow> WANSlot list \<Rightarrow> bool" where
  "serves_from C xs \<longleftrightarrow> (\<forall>x \<in> set xs. serving x \<longrightarrow> (\<exists>c \<in> C. sConfig x = Some c))"

definition keeps_from :: "ProxyConfig set \<Rightarrow> CandidatePool option \<Rightarrow> bool" where
  "keeps_from C cp \<longleftrightarrow> (case cp of None \<Rightarrow> True | Some p \<Rightarrow> tr_Config ` set (cp_candidates p) \<subseteq> C)"

definition sourced :: "ProxyConfig set \<Rightarrow> world \<Rightarrow> bool" where
  "sourced C w \<longleftrightarrow> serves_from C (Slots (pool w)) \<and> keeps_from C (candidates w)"

lemma serves_from_update:
  "serves_from C xs \<Longrightarrow> (serving y \<Longrightarrow> \<exists>c \<in> C. sConfig y = Some c) \<Longrightarrow> serves_from C (xs[k := y])"
  unfolding serves_from_def by (metis set_update_nth)

lemma serves_from_nth:
  "serves_from C xs \<longleftrightarrow> (\<forall>k < length xs. serving (xs ! k) \<longrightarrow> (\<exists>c \<in> C. sConfig (xs ! k) = Some c))"
  unfolding serves_from_def all_set_conv_all_nth ..

lemma serves_from_fills:
  "fills v0 D xs ys \<Longrightarrow> {c \<in> D. IsXraySupported (Some c)} \<subseteq> C \<Longrightarrow> serves_from C xs \<Longrightarrow> serves_from C ys"
proof (induction rule: fills.induct)
  case (fills_clear xs k ys)
  have "serves_from C (xs[k := cleared (xs ! k)])"
    using fills_clear.prems(2) by (rule serves_from_update) (simp add: serving_def)
  with fills_clear show ?case by blast
next
  case (fills_serve xs k c cm path v n ys)
  have "serves_from C (xs[k := filled c cm path v n (xs ! k)])"
    using fills_serve.prems(2) by (rule serves_from_update) (use fills_serve in auto)
  with fills_serve show ?case by blast
qed simp

lemma sourced_same: "sourced C w \<Longrightarrow> pool w' = pool w \<Longrightarrow> candidates w' = candidates w \<Longrightarrow> sourced C w'"
  by (simp add: sourced_def)

lemma serves_from_ResetEmpty: "serves_from C (Slots (pool w)) \<Longrightarrow> serves_from C (Slots (pool (snd (ResetEmpty i w))))"
  by (auto simp: Slots_ResetEmpty serving_def elim!: in_rangeE intro!: serves_from_update)

lemma serves_from_MarkDraining:
  "serves_from C (Slots (pool w)) \<Longrightarrow> serves_from C (Slots (pool (snd (MarkDraining E i w))))"
  by (auto simp: MarkDraining_def Let_def Slots_set_slot elim!: in_rangeE intro!: serves_from_update)
    (simp add: serves_from_nth serving_def)

lemma candidates_steps [simp]:
  "candidates (snd (ResetEmpty i w)) = candidates w" "candidates (snd (MarkDraining E i w)) = candidates w"
  "candidates (set_slot i x w) = candidates w"
  by (simp_all add: ResetEmpty_def reset_clear_def reset_stop_def MarkDraining_def set_slot_def StopXray_def
      set_pstate_def remove_file_def Let_def split: option.split cmd.split)

lemma sourced_steps:
  assumes "sourced C w"
  shows "sourced C (snd (ResetEmpty i w))" "sourced C (reset_all is w)" "sourced C (snd (MarkDraining E i w))"
proof -
  have R: "sourced C (snd (ResetEmpty i v))" if "sourced C v" for i v
    using that by (simp add: sourced_def serves_from_ResetEmpty)
  then show "sourced C (snd (ResetEmpty i w))" using assms .
  show "sourced C (snd (MarkDraining E i w))" using assms by (simp add: sourced_def serves_from_MarkDraining)
  show "sourced C (reset_all is w)"
    using assms by (induction "is" arbitrary: w) (simp_all add: reset_all_def R)
qed

lemma sourced_same_service:
  assumes "sourced C w" and "same_service w w'"
  shows "sourced C w'"
proof -
  have "serves_from C (Slots (pool w'))"
    unfolding serves_from_nth
  proof (intro allI impI)
    fix k assume k: "k < length (Slots (pool w'))" "serving (Slots (pool w') ! k)"
    have "k < length (Slots (pool w))" using k(1) same_service_length [OF assms(2)] by simp
    from core_eqD(1,2) [OF same_service_slots(2) [OF assms(2) this]] k assms(1) same_service_length [OF assms(2)]
    show "\<exists>c \<in> C. sConfig (Slots (pool w') ! k) = Some c"
      by (auto simp: sourced_def serves_from_nth serving_def)
  qed
  with assms show ?thesis by (simp add: sourced_def same_service_def)
qed

lemma sourced_set_slot:
  assumes "sourced C w" and "in_range i w" and "sState x = sState (slot_at i w)" and "sConfig x = sConfig (slot_at i w)"
  shows "sourced C (set_slot i x w)"
  using assms
  by (auto simp: sourced_def Slots_set_slot elim!: in_rangeE intro!: serves_from_update)
    (auto simp: serves_from_nth serving_def)

section \<open>The control loops\<close>

lemma parsed_from_link:
  assumes "ParseConfigs (lb_lower L) body = Some cs" and "c \<in> set cs" and "IsXraySupported (Some c)"
  shows "c \<in> from_link L"
proof -
  have "parse_lines (lb_lower L) (decodeLines (strings_TrimSpace body)) = Some cs"
    using assms(1,2) by (auto simp: ParseConfigs_def Let_def split: if_splits)
  then obtain l where "parse_line (lb_lower L) l = Some (Some c)" using parse_lines_member assms(2) by blast
  then have "ParseSingle (lb_lower L) (strings_TrimSpace l) = Some (Some c)"
    by (auto simp: parse_line_def Let_def split: if_splits)
  with assms(3) show ?thesis by (auto simp: from_link_def)
qed

lemma fetched_from_link:
  assumes "fetchSubscription L E w = (Some cs, w')"
  shows "{c \<in> set cs. IsXraySupported (Some c)} \<subseteq> from_link L"
  using fetchSubscription_frame(8) [OF assms] parsed_from_link [OF sym] by (auto split: sum.splits)

lemma keeps_from_update:
  assumes "slice_sorter srt" and "keeps_from C (Some p)" and "tr_Config ` set rs \<subseteq> C"
  shows "keeps_from C (Some (Update srt rs p))"
proof -
  have "set (srt result_less (cp_candidates p @ rs)) = set (cp_candidates p @ rs)"
    using slice_sorter.sort_perm [OF assms(1) strict_weak_result_less] by (metis set_mset_mset)
  then have "set (cp_candidates (Update srt rs p)) \<subseteq> set (cp_candidates p) \<union> set rs"
    by (auto simp: Update_def Let_def dest: in_set_takeD)
  with assms(2,3) show ?thesis by (simp add: keeps_from_def) blast
qed

lemma sourced_runCycle:
  assumes "slice_sorter (lb_sort L)" and "sourced (from_link L) w" and "pool_between cfg w"
  shows "sourced (from_link L) (runCycle L E cfg g w)"
proof -
  let ?C = "from_link L"
  define u where "u = markCycleStarted (e_now E (tick w)) w"
  define v where "v = cycle_cleanup E g u"
  have u: "sourced ?C u" "pool_between cfg u"
    using assms(2,3) pool_between_same [of cfg w u] sourced_same [of ?C w u] by (simp_all add: u_def markCycleStarted_def)
  have "pool_between cfg (reset_all (DrainExpired E g u) u)"
    using pool_safe_steps(2) [of False cfg u] u(2) by (simp add: pool_safe_def)
  from HealthCheckAll_idle [OF pool_between_owned [OF this]] sourced_steps(2) [OF u(1)]
  have v: "sourced ?C v" by (simp add: v_def cycle_cleanup_def Let_def reset_all_def)
  have pv: "pool_between cfg v" using pool_safe_cleanup [of False cfg u E g] u(2) by (simp add: v_def pool_safe_def)
  obtain cs w1 where f: "fetchSubscription L E v = (cs, w1)" by fastforce
  note fr = fetchSubscription_frame [OF f]
  have w1: "sourced ?C w1" "pool_between cfg w1"
    using v pv fr sourced_same pool_between_same by metis+
  have finish: "sourced ?C (markCycleComplete t n x) = sourced ?C x" for t n x
    by (simp add: sourced_def markCycleComplete_def)
  show ?thesis
  proof (cases cs)
    case None
    with f w1 show ?thesis by (simp add: runCycle_def Let_def u_def [symmetric] v_def [symmetric] sourced_def)
  next
    case (Some cs')
    obtain rs w2 where run: "cycle_loop E cfg cs' [] 0 w1 = (rs, w2)" by fastforce
    have from_C: "{c \<in> set cs'. IsXraySupported (Some c)} \<subseteq> ?C" using fetched_from_link f Some by blast
    note lp = cycle_loop_fills [OF w1(2) run subset_refl]
    have w2: "sourced ?C w2"
      using lp w1(1) serves_from_fills [OF _ from_C] by (auto simp: sourced_def)
    have "tr_Config ` set rs \<subseteq> ?C"
    proof -
      have "subseq (map tr_Config rs) cs'" "list_all (\<lambda>r. IsXraySupported (Some (tr_Config r))) rs"
        using cycle_loop_bounds [of E cfg cs' "[]" w1 rs w2] run by simp_all
      moreover from this(1) have "x \<in> set cs'" if "x \<in> set (map tr_Config rs)" for x
        using that list_emb_set [of "(=)"] by metis
      ultimately show ?thesis using from_C by (auto simp: list_all_iff)
    qed
    then have "keeps_from ?C (candidates (update_candidates L rs w2))"
      using w2 keeps_from_update [OF assms(1)] by (auto simp: sourced_def update_candidates_def split: option.split)
    then have "sourced ?C (update_candidates L rs (writeSortedTxt L E rs w2))"
      using w2 by (simp add: sourced_def update_candidates_def split: option.splits)
    then have "sourced ?C (mark_replacement E cfg rs (update_candidates L rs (writeSortedTxt L E rs w2)))"
      by (simp add: mark_replacement_def Let_def sourced_steps split: option.split)
    with f w1 run Some show ?thesis
      by (simp add: runCycle_def Let_def u_def [symmetric] v_def [symmetric] finish)
  qed
qed

lemma sourced_startup_round:
  assumes "sourced (from_link L) w" and "pool_between cfg w" and "startup_round L E cfg up w = (r, up', w')"
  shows "sourced (from_link L) w'"
proof -
  obtain cs w1 where f: "fetchSubscription L E w = (cs, w1)" by fastforce
  note fr = fetchSubscription_frame [OF f]
  have w1: "sourced (from_link L) w1" "pool_between cfg w1"
    using assms(1,2) fr sourced_same pool_between_same by metis+
  show ?thesis
  proof (cases cs)
    case None
    with f w1 assms(3) show ?thesis by (auto simp: startup_round_def sourced_def)
  next
    case (Some cs')
    obtain u w2 where run: "startup_loop E cfg cs' 0 up w1 = (u, w2)" by fastforce
    have "{c \<in> set cs'. IsXraySupported (Some c)} \<subseteq> from_link L" using fetched_from_link f Some by blast
    then have "sourced (from_link L) w2"
      using startup_loop_fills [OF w1(2) run subset_refl] w1(1) serves_from_fills by (auto simp: sourced_def)
    with assms(3) f w1 run Some show ?thesis
      by (auto simp: startup_round_def sourced_steps split: if_splits)
  qed
qed

lemma sourced_probe_slot:
  assumes "sourced C w" and "in_range i w"
  shows "sourced C (probe_slot E cfg i w) \<and> slot_count (probe_slot E cfg i w) = slot_count w"
proof -
  obtain err w1 where p: "ProbeWAN E w = (err, w1)" by fastforce
  have w1: "sourced C w1" "slot_count w1 = slot_count w" "in_range i w1"
    using assms probe_answers [OF p] sourced_same [of C w w1] by (simp_all add: slot_count_def in_range_def)
  have count: "slot_count (RecordFailure i w1) = slot_count w" "slot_count (RecordSuccess i w1) = slot_count w"
    using same_service_length [OF same_service_counters(1)] same_service_length [OF same_service_counters(2)] w1(2)
    by (simp_all add: slot_count_def)
  show ?thesis
  proof (cases err)
    case (Some e)
    then show ?thesis
      using p count sourced_same_service [OF w1(1) same_service_counters(1)]
      by (simp add: probe_slot_def Let_def sourced_steps) (simp add: MarkDraining_def Let_def)
  next
    case None
    obtain r w2 where q: "probeExitIP E (RecordSuccess i w1) = (r, w2)" by fastforce
    have w2: "sourced C w2" "slot_count w2 = slot_count w"
      using sourced_same_service [OF w1(1) same_service_counters(2)] probe_ip_answers [OF q] count(2) sourced_same
      by (metis, simp add: slot_count_def)
    moreover have "in_range i w2" using w2(2) assms(2) by (simp add: in_range_def)
    ultimately show ?thesis
      using None p q by (auto simp: probe_slot_def set_probe_def intro!: sourced_set_slot split: sum.split)
  qed
qed

lemma sourced_probeAllWANs: "sourced C w \<Longrightarrow> sourced C (probeAllWANs E cfg w)"
proof -
  have "sourced C (fold (probe_slot E cfg) is v)" if "sourced C v" "\<forall>i \<in> set is. in_range i v" for "is" v
    using that
  proof (induction "is" arbitrary: v)
    case (Cons i "is")
    with sourced_probe_slot [of C v i E cfg] show ?case by (simp add: in_range_def)
  qed simp
  then show "sourced C w \<Longrightarrow> sourced C (probeAllWANs E cfg w)"
    by (simp add: probeAllWANs_def GetSlotsByState_in_range)
qed

lemma sourced_ShutdownAll: "sourced C w \<Longrightarrow> sourced C (ShutdownAll E w)"
proof -
  assume s: "sourced C w"
  have drain: "sourced C (drain_slot E v i)" if "sourced C v" "i < length (Slots (pool v))" for v i
    using that sourced_steps(3) [OF that(1), of E "int i"] by (simp add: drain_slot_def MarkDraining_def Let_def split: if_splits)
  have "sourced C (foldl (drain_slot E) v is)" if "sourced C v" "set is \<subseteq> {..<length (Slots (pool v))}" for "is" v
    using that
  proof (induction "is" arbitrary: v)
    case (Cons i "is")
    with drain [of v i] show ?case by (simp add: drain_slot_length)
  qed simp
  from this [OF s, of "[0..<length (Slots (pool w))]"] show ?thesis
    by (simp add: ShutdownAll_def Let_def sourced_steps lessThan_atLeast0)
qed

section \<open>Drops\<close>

lemma keeps_from_exclude: "keeps_from C (candidates w) \<Longrightarrow> keeps_from C (candidates (exclude_current i w))"
  by (cases "candidates w"; cases "sConfig (slot_at i w)") (simp_all add: exclude_current_def keeps_from_def Exclude_def)

lemma sourced_DropAndReplace:
  assumes "sourced C w" and "owned w" and "in_range i w"
    and "do_TestCandidate opts = None" "do_StartCandidate opts = None"
    and "DropAndReplace E opts i w = (res, w')"
  shows "sourced C w'"
proof -
  have spec: "replaced i w w' res"
    using xray.DropAndReplace_spec [OF assms(2,3) _ _ assms(6)]
    by (simp add: test_candidate_def start_candidate_def assms(4,5))
  have keeps: "keeps_from C (candidates w')"
    using spec assms(1) keeps_from_exclude by (simp add: replaced_def sourced_def)
  obtain k where k: "i = int k" "k < length (Slots (pool w))" using assms(3) by (rule in_rangeE)
  have slot: "\<exists>c \<in> C. sConfig (slot_at i w') = Some c" if "serving (slot_at i w')"
  proof (cases res)
    case (Inl e)
    with spec that show ?thesis by (simp add: replaced_def serving_def)
  next
    case (Inr r)
    obtain cp cand c path where cand: "candidates w' = Some cp" "Best cp = Some cand"
        "slot_at i w' = (cleared (slot_at i w))
           \<lparr>sConfig := Some (tr_Config cand), sState := StateActive, sCmd := c, sConfigPath := path,
            sSpeedMbps := tr_Speed r, sStabilityScore := tr_StabilityScore r\<rparr>"
      using spec [unfolded replaced_def Inr sum.case] by blast
    have "cand \<in> set (cp_candidates cp)" using best_of_Some cand(2) by (force simp: Best_def)
    with keeps cand show ?thesis by (auto simp: keeps_from_def)
  qed
  have "\<exists>c \<in> C. sConfig (Slots (pool w') ! j) = Some c"
    if "j < length (Slots (pool w))" "serving (Slots (pool w') ! j)" for j
    using slot that spec assms(1) k
    by (cases "j = k") (auto simp: replaced_def sourced_def serves_from_nth)
  with keeps spec show ?thesis by (simp add: sourced_def serves_from_nth replaced_def)
qed

lemma sourced_api:
  assumes "sourced C w" and "owned w"
  shows "sourced C (snd (api_handler fmt fmtNano E (Some cfg) mthd path w))"
proof -
  have trigger: "sourced C (snd (send_trigger v))" if "sourced C v" for v
    using that send_trigger_same by (rule sourced_same_service)
  have drop: "sourced C (snd (handleDropWAN fmt E (api_drop_options (Some cfg)) mthd path w))"
  proof (cases "mthd = ''POST'' \<and> (\<exists>i. parseDropWANIndex path = Inr i \<and> in_range i w)")
    case True
    then obtain i where i: "mthd = ''POST''" "parseDropWANIndex path = Inr i" "in_range i w" by blast
    obtain res w' where run: "DropAndReplace E (api_drop_options (Some cfg)) i w = (res, w')" by fastforce
    have "sourced C w'"
      by (rule sourced_DropAndReplace [OF assms i(3) _ _ run]) (simp_all add: api_drop_options_def)
    with i run trigger [of w'] show ?thesis by (auto simp: handleDropWAN_def in_range_def split: sum.split)
  next
    case False
    then show ?thesis using assms(1) by (auto simp: handleDropWAN_def in_range_def split: sum.split)
  qed
  have "sourced C (snd (handleTriggerCycle mthd w))"
    using trigger [OF assms(1)] assms(1) by (simp add: handleTriggerCycle_def case_prod_beta)
  with drop assms(1) show ?thesis by (simp add: api_handler_def)
qed

section \<open>The leak guard\<close>

lemma sourced_step:
  assumes "sys_step drops L E cfg w w'" and "slice_sorter (lb_sort L)"
    and "sourced (from_link L) w" and "pool_between cfg w"
  shows "sourced (from_link L) w'"
  using assms(1)
proof (cases rule: sys_step.cases)
  case step_startup
  with assms(3,4) sourced_startup_round show ?thesis by blast
next
  case (step_loop ev)
  have "sourced (from_link L) (w\<lparr>trigger := False\<rparr>)" "pool_between cfg (w\<lparr>trigger := False\<rparr>)"
    using assms(3,4) sourced_same [of _ w] pool_between_same [of cfg w] by simp_all
  with step_loop assms(3,4) sourced_runCycle [OF assms(2)] sourced_ShutdownAll show ?thesis
    by (auto simp: loop_step_def split: loop_event.splits if_splits)
next
  case step_loop_start
  with assms(3) sourced_same_service same_service_loop_start show ?thesis by blast
next
  case step_keepalive
  with assms(3) sourced_probeAllWANs show ?thesis by blast
next
  case step_api
  with assms(3) sourced_api [OF _ pool_between_owned [OF assms(4)]] show ?thesis by blast
next
  case step_observe
  with assms(3) sourced_same_service same_service_observability show ?thesis by blast
next
  case step_socks
  with assms(3) sourced_same_service same_service_handleSocksConn show ?thesis by blast
next
  case step_connect
  with assms(3) sourced_same_service [OF assms(3) same_service_handleConnect] show ?thesis
    by (simp add: proxy_handler_def split: if_splits)
next
  case (step_exit pid)
  have "pool (proc_exits pid w) = pool w" "candidates (proc_exits pid w) = candidates w"
    by (simp_all add: proc_exits_def set_pstate_def)
  with step_exit assms(3) sourced_same show ?thesis by simp
qed

lemma reachable_sourced:
  assumes "reachable drops L E cfg w" and "slice_sorter (lb_sort L)"
  shows "sourced (from_link L) w \<and> pool_between cfg w"
proof -
  obtain w0 v where v: "startup_world cfg w0 = Some v" "live w0 = {}" "files w0 = []"
      and run: "(sys_step drops L E cfg)\<^sup>*\<^sup>* v w" using assms(1) unfolding reachable_def by blast
  note init = startup_world_between [OF v, of "c_MinimumSpeed cfg"]
  have "sourced (from_link L) v"
    using init by (auto simp: sourced_def serves_from_def serving_def keeps_from_def NewCandidatePool_def)
  then have "sourced (from_link L) v \<and> pool_safe (\<not> drops) cfg v" using init by (simp add: pool_safe_def)
  with run have "sourced (from_link L) w \<and> pool_safe (\<not> drops) cfg w"
    by (induction rule: rtranclp_induct) (auto simp: pool_safe_def intro: sourced_step [OF _ assms(2)] dest: pool_safe_step)
  then show ?thesis by (simp add: pool_safe_def)
qed

text \<open>C1. The leak guard of the whole program: in every reachable state, drop requests included, every
  xray process that has not been reaped runs a configuration that was parsed from a subscription; its
  configuration file has exactly one outbound, which is not the direct one and goes to the address and port
  of that configuration; and that configuration is the one of a slot in service.\<close>

theorem no_direct_traffic:
  assumes "reachable drops L E cfg w" and "slice_sorter (lb_sort L)" and "pid \<in> live w"
    and "c = la_config (pr_launch (procs w ! pid))"
  shows "(\<exists>raw. ParseSingle (lb_lower L) raw = Some (Some c)) \<and>
    (\<exists>x \<in> set (Slots (pool w)). serving x \<and> sConfig x = Some c) \<and>
    (\<exists>ob. buildOutbound c mux = Some [ob] \<and> ob_Protocol ob \<noteq> ''freedom'' \<and>
       goes_to (ob_Settings ob) = Some (JStr (pc_Server c), jint (pc_Port c)))"
proof -
  note inv = reachable_sourced [OF assms(1,2)]
  obtain k where k: "k < length (Slots (pool w))" "serving (Slots (pool w) ! k)" "sConfig (Slots (pool w) ! k) = Some c"
    using owned_pid [OF pool_between_owned [OF conjunct2 [OF inv]] assms(3)] assms(4) by metis
  then have "c \<in> from_link L" using inv by (auto simp: sourced_def serves_from_nth)
  then obtain raw where c: "ParseSingle (lb_lower L) raw = Some (Some c)" "IsXraySupported (Some c)"
    by (auto simp: from_link_def)
  note parsed = parsed_outbound [OF c(1)]
  obtain obs where obs: "buildOutbound c mux = Some obs" using parsed(1) by blast
  from buildOutbound_proxied [OF this] parsed(2) c obs k nth_mem [OF k(1)] show ?thesis by blast
qed

lemma no_direct_traffic_witness:
  "\<exists>w pid ob. reachable False live_lib live_env live_config w \<and> pid \<in> live w \<and>
     buildOutbound (la_config (pr_launch (procs w ! pid))) True = Some [ob] \<and> ob_Protocol ob \<noteq> ''freedom''"
proof -
  obtain w where w: "reachable False live_lib live_env live_config w" "ActiveCount w = 2"
    using reachable_full by blast
  have "int (card (live w)) = 2"
    using w(2) owned_counts(1) [OF pool_between_owned, of live_config w] reachable_safe [OF w(1)]
    by (simp add: pool_safe_def)
  then obtain pid where pid: "pid \<in> live w" by fastforce
  have "slice_sorter (lb_sort live_lib)" by (simp add: live_lib_def ins.slice_sorter_axioms)
  from no_direct_traffic [OF w(1) this pid refl, of True] w pid show ?thesis by blast
qed

end
