(* ===== verification/ApiProps.thy ===== *)
theory ApiProps
  imports Api CycleProps
begin

text \<open>
  Properties of the control API: the drop path, what the status of a drop says about the slot, and
  the coalescing of triggers; and the endpoint that a drop can serve twice.
\<close>

section \<open>The drop path\<close>

lemma not_digit_slash: "\<not> is_digit (CHR ''/'')"
  by code_simp

lemma digits_no_slash: "CHR ''/'' \<notin> set (strconv_Itoa n)"
  using nat_digits_digit not_digit_slash by (auto simp: strconv_Itoa_def split: if_splits)

text \<open>The index in a drop path is read back exactly, for every index of Go's int, and a path
  that parses always has the form prefix, index, /drop.\<close>

theorem parseDropWANIndex_roundtrip:
  "(min_int64 \<le> n \<and> n \<le> max_int64 \<longrightarrow>
      parseDropWANIndex (drop_prefix @ strconv_Itoa n @ ''/drop'') = Inr n) \<and>
   (parseDropWANIndex path = Inr m \<longrightarrow>
      (\<exists>s. path = drop_prefix @ s @ ''/drop'' \<and> CHR ''/'' \<notin> set s \<and> strconv_Atoi s = (m, None)))"
proof (intro conjI impI)
  assume "min_int64 \<le> n \<and> n \<le> max_int64"
  then have n: "strconv_Atoi (strconv_Itoa n) = (n, None)" by (intro Atoi_Itoa) simp_all
  have "strings_Split (strconv_Itoa n @ CHR ''/'' # ''drop'') (CHR ''/'') = strconv_Itoa n # strings_Split ''drop'' (CHR ''/'')"
    by (rule Split_append) (rule digits_no_slash)
  then have "strings_Split (strconv_Itoa n @ ''/drop'') (CHR ''/'') = [strconv_Itoa n, ''drop'']" by simp
  moreover have "strings_HasPrefix (drop_prefix @ strconv_Itoa n @ ''/drop'') drop_prefix"
    unfolding HasPrefix_iff by blast
  moreover from this have "strings_TrimPrefix (drop_prefix @ strconv_Itoa n @ ''/drop'') drop_prefix = strconv_Itoa n @ ''/drop''"
    by (simp add: strings_TrimPrefix_def)
  moreover have "strconv_Itoa n \<noteq> []" by (simp add: strconv_Itoa_def)
  ultimately show "parseDropWANIndex (drop_prefix @ strconv_Itoa n @ ''/drop'') = Inr n"
    using n by (simp add: parseDropWANIndex_def Let_def)
next
  assume ok: "parseDropWANIndex path = Inr m"
  then have pre: "strings_HasPrefix path drop_prefix" by (auto simp: parseDropWANIndex_def split: if_splits)
  then obtain r where path: "path = drop_prefix @ r" unfolding HasPrefix_iff by blast
  have r: "strings_TrimPrefix path drop_prefix = r" using pre by (simp add: strings_TrimPrefix_def path)
  define parts where "parts = strings_Split r (CHR ''/'')"
  have parts: "length parts = 2" "parts ! 1 = ''drop''" "strconv_Atoi (parts ! 0) = (m, None)"
    using ok pre unfolding parseDropWANIndex_def r parts_def
    by (auto simp: Let_def split: if_splits prod.splits option.splits)
  then obtain s where s: "parts = [s, ''drop'']" by (auto simp: numeral_2_eq_2 length_Suc_conv)
  have "strings_Join parts [CHR ''/''] = r" unfolding parts_def by (rule Join_Split)
  then have "r = s @ ''/drop''" using s by simp
  moreover have "CHR ''/'' \<notin> set s" using Split_no_sep [of s r "CHR ''/''"] s by (simp add: parts_def)
  ultimately show "\<exists>s. path = drop_prefix @ s @ ''/drop'' \<and> CHR ''/'' \<notin> set s \<and> strconv_Atoi s = (m, None)"
    using path parts(3) s by auto
qed

lemma parseDropWANIndex_roundtrip_witness:
  "parseDropWANIndex (drop_prefix @ strconv_Itoa 3 @ ''/drop'') = Inr 3"
  using parseDropWANIndex_roundtrip [of 3] by (simp add: min_int64_def max_int64_def)

section \<open>The drop endpoint\<close>

lemma send_trigger_frame [simp]:
  "pool (snd (send_trigger w)) = pool w" "trigger (snd (send_trigger w))"
  "procs (snd (send_trigger w)) = procs w" "files (snd (send_trigger w)) = files w"
  "file_seq (snd (send_trigger w)) = file_seq w"
  by (simp_all add: send_trigger_def)

lemma owned_send_trigger: "owned w \<Longrightarrow> owned (snd (send_trigger w))"
  by (erule owned_same) simp_all

lemma GetState_pool: "pool w' = pool w \<Longrightarrow> GetState i w' = GetState i w"
  by (simp add: GetState_def in_range_def slot_count_def slot_at_def)

text \<open>C25. The status of a drop request says what became of the slot: 400 and 405 leave the state of
  the program as it was; otherwise only the slot of the path changes, and it serves again on 200, is
  empty with a cycle queued on 202, and is empty on 502. Every process still belongs to one slot.\<close>

theorem drop_endpoint:
  assumes "owned w" and "do_TestCandidate opts = None" and "do_StartCandidate opts = None"
    and "handleDropWAN fmt E opts mthd path w = (resp, w')"
  shows "owned w' \<and>
    ((hr_code resp = 405 \<and> mthd \<noteq> ''POST'' \<and> w' = w) \<or> (hr_code resp = 400 \<and> mthd = ''POST'' \<and> w' = w) \<or>
     (\<exists>i. mthd = ''POST'' \<and> parseDropWANIndex path = Inr i \<and> in_range i w \<and>
        length (Slots (pool w')) = length (Slots (pool w)) \<and>
        list_all (\<lambda>k. int k = i \<or> Slots (pool w') ! k = Slots (pool w) ! k) [0..<length (Slots (pool w))] \<and>
        ((hr_code resp = 200 \<and> GetState i w' = StateActive) \<or>
         (hr_code resp = 202 \<and> GetState i w' = StateEmpty \<and> trigger w') \<or>
         (hr_code resp = 502 \<and> GetState i w' = StateEmpty))))"
proof (cases "mthd = ''POST'' \<and> (\<exists>i. parseDropWANIndex path = Inr i \<and> in_range i w)")
  case False
  then show ?thesis
    using assms(1,4) by (auto simp: handleDropWAN_def in_range_def http_json_def split: sum.splits if_splits)
next
  case True
  then obtain i where i: "mthd = ''POST''" "parseDropWANIndex path = Inr i" "in_range i w" by blast
  obtain res v where run: "DropAndReplace E opts i w = (res, v)" by fastforce
  have spec: "owned v \<and> replaced i w v res"
    by (rule xray.DropAndReplace_spec [OF assms(1) i(3) _ _ run])
      (simp_all add: test_candidate_def start_candidate_def assms(2,3))
  have iv: "in_range i v" using spec i(3) by (simp add: replaced_def in_range_def slot_count_def)
  have frame: "length (Slots (pool v)) = length (Slots (pool w))"
      "list_all (\<lambda>k. int k = i \<or> Slots (pool v) ! k = Slots (pool w) ! k) [0..<length (Slots (pool w))]"
    using spec by (auto simp: replaced_def list_all_iff)
  have range: "\<not> (i < 0 \<or> i \<ge> slot_count w)" using i(3) by (simp add: in_range_def)
  show ?thesis
  proof (cases res)
    case (Inr r)
    then have "GetState i v = StateActive" using spec iv by (auto simp: replaced_def GetState_def)
    moreover have "hr_code resp = 200" "w' = v"
      using assms(4) i run Inr range by (auto simp: handleDropWAN_def http_json_def)
    ultimately show ?thesis using i frame spec by blast
  next
    case (Inl e)
    then have empty: "GetState i v = StateEmpty" using spec iv by (simp add: replaced_def GetState_def)
    have pool: "GetState i (snd (send_trigger v)) = StateEmpty"
      using empty GetState_pool [OF send_trigger_frame(1)] by simp
    consider "hr_code resp = 202" "w' = snd (send_trigger v)" | "hr_code resp = 502" "w' = v"
      using assms(4) i run Inl range
      by (auto simp: handleDropWAN_def http_json_def split: if_splits)
    then show ?thesis
    proof cases
      case 1
      then show ?thesis using i frame spec pool owned_send_trigger [of v] by simp
    next
      case 2
      then show ?thesis using i frame spec empty by blast
    qed
  qed
qed

lemma drop_endpoint_witness:
  "\<exists>resp w'. handleDropWAN (\<lambda>_. []) calm_env drop_options ''POST'' ''/api/viberoxy/wans/1/drop'' stocked_world = (resp, w') \<and>
     hr_code resp = 200 \<and> GetState 1 w' = StateActive"
proof -
  obtain r v where run: "DropAndReplace calm_env drop_options 1 stocked_world = (Inr r, v)"
    and i: "in_range 1 stocked_world" using drop_example by blast
  have path: "parseDropWANIndex ''/api/viberoxy/wans/1/drop'' = Inr 1" by code_simp
  obtain resp w' where h: "handleDropWAN (\<lambda>_. []) calm_env drop_options ''POST'' ''/api/viberoxy/wans/1/drop'' stocked_world = (resp, w')"
    by (metis surj_pair)
  have "hr_code resp = 200"
    using h run i path by (auto simp: handleDropWAN_def in_range_def http_json_def)
  with drop_endpoint [OF owned_stocked_world _ _ h] path h show ?thesis
    by (auto simp: drop_options_fields)
qed

section \<open>A drop does not compare endpoints\<close>

text \<open>C33. Unlike the loops of the cycle, a drop does not ask whether the endpoint is already served:
  when the best candidate has the endpoint of another serving slot, a successful drop leaves two
  slots on one endpoint.\<close>

theorem drop_duplicates_endpoint:
  assumes "owned w" and "in_range i w" and "do_TestCandidate opts = None" and "do_StartCandidate opts = None"
    and "DropAndReplace E opts i w = (Inr r, w')"
    and "candidates (exclude_current i w) = Some cp" and "Best cp = Some cand"
    and "in_range j w" and "j \<noteq> i" and "serving (slot_at j w)"
    and "map_option endpoint (sConfig (slot_at j w)) = Some (endpoint (tr_Config cand))"
  shows "\<not> distinct (endpoints (Slots (pool w')))"
proof -
  have spec: "replaced i w w' (Inr r)"
    using xray.DropAndReplace_spec [OF assms(1,2) _ _ assms(5)]
    by (simp add: test_candidate_def start_candidate_def assms(3,4))
  obtain k l where kl: "i = int k" "k < length (Slots (pool w))" "j = int l" "l < length (Slots (pool w))"
    using assms(2,8) by (elim in_rangeE)
  let ?S = "Slots (pool w')" and ?e = "\<lambda>x. map_option endpoint (sConfig x)"
  have len: "length ?S = length (Slots (pool w))" using spec by (simp add: replaced_def)
  have l: "?S ! l = Slots (pool w) ! l" using spec kl assms(9) by (simp add: replaced_def)
  have k: "serving (?S ! k)" "?e (?S ! k) = Some (endpoint (tr_Config cand))"
    using spec kl assms(6,7) by (auto simp: replaced_def serving_def)
  have two: "k \<noteq> l" "serving (?S ! l)" "?e (?S ! l) = Some (endpoint (tr_Config cand))"
    using assms(9-11) kl l by auto
  show ?thesis
  proof
    assume "distinct (endpoints ?S)"
    then have inj: "distinct (map ?e (filter serving ?S))" by (simp add: endpoints_def)
    have "\<not> distinct (map ?e (filter serving ?S))" if "a < b" "b < length ?S" "serving (?S ! a)" "serving (?S ! b)"
      "?e (?S ! a) = ?e (?S ! b)" for a b
    proof -
      have split: "?S = take b ?S @ ?S ! b # drop (Suc b) ?S" using that(2) by (rule id_take_nth_drop)
      have "?S ! a \<in> set (take b ?S)" using that(1,2) by (auto simp: in_set_conv_nth)
      then have "?e (?S ! b) \<in> ?e ` set (filter serving (take b ?S))" using that(3,5) by (auto simp: image_iff)
      then show ?thesis using that(4) by (subst split) auto
    qed
    from this [of k l] this [of l k] show False using inj k two kl len by (cases "k < l") auto
  qed
qed

lemma drop_duplicates_endpoint_witness:
  "\<exists>w r w'. owned w \<and> DropAndReplace calm_env drop_options 0 w = (Inr r, w') \<and> \<not> distinct (endpoints (Slots (pool w')))"
proof -
  obtain r w where run: "DropAndReplace calm_env drop_options 1 stocked_world = (Inr r, w)"
    and i: "in_range 1 stocked_world" using drop_example by blast
  have cand: "candidates (exclude_current 1 stocked_world) = Some one_candidate"
    by (simp add: exclude_current_def stocked_world_def small_world_def slot_at_def new_slot_def)
  have spec: "owned w \<and> replaced 1 stocked_world w (Inr r)"
    by (rule xray.DropAndReplace_spec [OF owned_stocked_world i _ _ run])
      (simp_all add: drop_options_fields start_candidate_def)
  have at1: "serving (slot_at 1 w)" "sConfig (slot_at 1 w) = Some sample_config"
    using spec cand by (auto simp: replaced_def serving_def one_candidate_best)
  have len: "length (Slots (pool w)) = 2" using spec by (simp add: replaced_def stocked_world_def small_world_def)
  have at0: "sConfig (slot_at 0 w) = None"
    using spec by (simp add: replaced_def slot_at_def stocked_world_def small_world_def new_slot_def)
  have cand0: "candidates (exclude_current 0 w) = Some one_candidate"
    using spec cand at0 by (simp add: replaced_def exclude_current_def split: option.split)
  have range: "in_range 0 w" "in_range 1 w" using len by (simp_all add: in_range_def slot_count_def)
  obtain r' w' where run0: "DropAndReplace calm_env drop_options 0 w = (Inr r', w')"
    using drop_succeeds [OF _ range(1) cand0] spec by blast
  have "\<not> distinct (endpoints (Slots (pool w')))"
    by (rule drop_duplicates_endpoint [OF _ range(1) _ _ run0 cand0 one_candidate_best range(2)])
      (use spec at1 in \<open>simp_all add: drop_options_fields\<close>)
  with spec run0 show ?thesis by blast
qed

end
