(* ===== verification/ApiJson.thy ===== *)
theory ApiJson
  imports Api OutboundProps
begin

text \<open>
  The bodies of the control API as text (api.go): the JSON structures with their field names, and the
  encoder of encoding/json, which writes them on one line. The text of a float is the argument \<open>fm\<close>.
\<close>

section \<open>The encoder\<close>

fun comma_joined :: "string list \<Rightarrow> string" where
  "comma_joined [] = []"
| "comma_joined [x] = x"
| "comma_joined (x # xs) = x @ '','' @ comma_joined xs"

fun json_compact :: "json \<Rightarrow> string" where
  "json_compact JNull = ''null''"
| "json_compact (JBool b) = (if b then ''true'' else ''false'')"
| "json_compact (JNum n) = n"
| "json_compact (JStr s) = json_quote s"
| "json_compact (JArr vs) = ''['' @ comma_joined (map json_compact vs) @ '']''"
| "json_compact (JObj ms) =
     ''{'' @ comma_joined (map (\<lambda>m. json_quote (fst m) @ '':'' @ json_compact (snd m)) ms) @ ''}''"

definition json_Encode :: "json \<Rightarrow> string" where
  "json_Encode v = json_compact v @ newline"

section \<open>Bodies\<close>

definition wan_json :: "(real \<Rightarrow> string) \<Rightarrow> WANSlotInfo \<Rightarrow> json" where
  "wan_json fm i =
     JObj [(''index'', jint (wi_Index i)), (''state'', JStr (wi_State i)), (''speed_mbps'', JNum (fm (wi_SpeedMbps i))),
       (''conns'', jint (wi_Conns i)), (''exit_ip'', JStr (wi_ExitIP i)), (''last_probe'', JStr (wi_LastProbe i)),
       (''consecutive_fails'', jint (wi_ConsecutiveFails i))]"

definition timing_json :: "CycleTimingInfo \<Rightarrow> json" where
  "timing_json t =
     JObj [(''last_cycle'', JStr (ct_LastCycle t)), (''next_cycle'', JStr (ct_NextCycle t)),
       (''seconds_until_next'', jint (ct_SecondsUntilNext t))]"

definition drop_json :: "(real \<Rightarrow> string) \<Rightarrow> dropWANResponse \<Rightarrow> json" where
  "drop_json fm r =
     JObj ((''status'', JStr (dr_Status r)) # opt_string ''message'' (dr_Message r) @
       opt_member ''wan'' (wan_json fm) (dr_WAN r))"

definition candidate_json :: "(real \<Rightarrow> string) \<Rightarrow> candidateView \<Rightarrow> json" where
  "candidate_json fm c =
     JObj ([(''name'', JStr (cv_Name c)), (''server'', JStr (cv_Server c)), (''port'', jint (cv_Port c)),
       (''protocol'', JStr (cv_Protocol c)), (''raw'', JStr (cv_Raw c)), (''speed_mbps'', JNum (fm (cv_Speed c)))] @
       opt_string ''error'' (cv_Error c))"

text \<open>A body that is plain text has no JSON value.\<close>

fun body_json :: "(real \<Rightarrow> string) \<Rightarrow> api_body \<Rightarrow> json option" where
  "body_json fm (TextBody s) = None"
| "body_json fm (TimingBody t) = Some (timing_json t)"
| "body_json fm (TriggerBody status queued) =
     Some (json_map [(''status'', JStr status), (''queued'', JBool queued)])"
| "body_json fm (DropBody r) = Some (drop_json fm r)"
| "body_json fm (CandidatesBody cs) = Some (JArr (map (candidate_json fm) cs))"
| "body_json fm (WansBody ws) = Some (JArr (map (wan_json fm) ws))"

fun body_text :: "(real \<Rightarrow> string) \<Rightarrow> api_body \<Rightarrow> string" where
  "body_text fm (TextBody s) = s"
| "body_text fm b = json_Encode (the (body_json fm b))"

section \<open>The text is read back\<close>

declare tokens.simps(2) [simp del]

lemma lexes_comma_joined: "list_all2 lexes xs tss \<Longrightarrow> lexes (comma_joined xs) (commas tss)"
proof (induction xs arbitrary: tss rule: comma_joined.induct)
  case 1
  then show ?case by (simp add: lexes_def)
next
  case (2 x)
  then show ?case by (auto simp: list_all2_Cons1)
next
  case (3 x y ys)
  then obtain ts us uss where tss: "tss = ts # us # uss" and x: "lexes x ts" and xs: "list_all2 lexes (y # ys) (us # uss)"
    by (auto simp: list_all2_Cons1)
  show ?case
    unfolding lexes_def
  proof (intro allI impI)
    fix r vs assume r: "breaks r" "tokens r = Some vs"
    have "tokens (CHR '','' # comma_joined (y # ys) @ r) = Some (Comma # commas (us # uss) @ vs)"
      using lexesD [OF 3(1) [OF xs] r] by (simp add: punct_tokens)
    from lexesD [OF x _ this] not_number
    show "tokens (comma_joined (x # y # ys) @ r) = Some (commas tss @ vs)"
      by (simp add: tss breaks_Cons)
  qed
qed

lemma lexes_compact_member:
  "lexes x ts \<Longrightarrow> lexes (json_quote k @ '':'' @ x) (Scalar (JStr (to_valid k)) # Colon # ts)"
  unfolding lexes_def
proof (intro allI impI)
  fix r us assume x: "\<forall>r us. breaks r \<longrightarrow> tokens r = Some us \<longrightarrow> tokens (x @ r) = Some (ts @ us)"
    and r: "breaks r" "tokens r = Some us"
  then have "tokens ('':'' @ x @ r) = Some (Colon # ts @ us)" by (simp add: punct_tokens)
  from lexesD [OF lexes_string _ this] not_number
  show "tokens ((json_quote k @ '':'' @ x) @ r) = Some ((Scalar (JStr (to_valid k)) # Colon # ts) @ us)"
    by (simp add: breaks_Cons)
qed

lemma lexes_closed:
  assumes "lexes x ts" and "\<And>s. tokens (b # s) = map_option ((#) B) (tokens s)"
    and "\<And>s. tokens (e # s) = map_option ((#) F) (tokens s)" and "\<not> number_char e"
  shows "lexes (b # x @ [e]) (B # ts @ [F])"
  unfolding lexes_def
proof (intro allI impI)
  fix r us assume r: "breaks r" "tokens r = Some us"
  have "tokens (e # r) = Some (F # us)" using r by (simp add: assms(3))
  from lexesD [OF assms(1) _ this] assms(4)
  show "tokens ((b # x @ [e]) @ r) = Some ((B # ts @ [F]) @ us)" by (simp add: assms(2) breaks_Cons)
qed

lemma lexes_compact: "numbers_ok v \<Longrightarrow> lexes (json_compact v) (json_tokens v)"
proof (induction v rule: json_compact.induct)
  case (5 vs)
  then have "list_all2 lexes (map json_compact vs) (map json_tokens vs)"
    by (auto simp: list_all2_map1 list_all2_map2 list_all2_same list_all_iff)
  from lexes_closed [OF lexes_comma_joined [OF this] punct_tokens(3,4)] not_number show ?case by simp
next
  case (6 ms)
  then have "list_all2 lexes (map (\<lambda>m. json_quote (fst m) @ '':'' @ json_compact (snd m)) ms)
      (map (\<lambda>m. Scalar (JStr (to_valid (fst m))) # Colon # json_tokens (snd m)) ms)"
    using lexes_compact_member
    by (auto simp: list_all2_map1 list_all2_map2 list_all2_same list_all_iff)
  from lexes_closed [OF lexes_comma_joined [OF this] punct_tokens(5,6)] not_number show ?case by simp
qed (simp_all add: lexes_literals lexes_string lexes_number del: if_split)

lemma json_Encode_roundtrip:
  assumes "numbers_ok v" and "fits json_depth v"
  shows "json_parse (json_Encode v) = Some (json_coerced v)"
proof -
  have "tokens newline = Some []" by (simp add: newline_def space_tokens json_space_def)
  moreover have "breaks newline" by (simp add: newline_def breaks_Cons number_char_def is_digit_def)
  ultimately have "tokens (json_compact v @ newline) = Some (json_tokens v @ [])"
    using lexesD [OF lexes_compact [OF assms(1)]] by blast
  moreover have "jrun ([], WantValue) (json_tokens v @ []) = Some ([], AfterValue (json_coerced v))"
    using jrun_value [OF assms(2), of "[]" WantValue "[]"] by simp
  ultimately show ?thesis by (simp add: json_parse_def json_Encode_def)
qed

section \<open>The responses\<close>

definition number_text :: "(real \<Rightarrow> string) \<Rightarrow> bool" where
  "number_text fm \<longleftrightarrow> (\<forall>v. valid_number (fm v) \<and> list_all number_char (fm v))"

lemma numbers_ok_opt [simp]:
  "list_all (\<lambda>m. numbers_ok (snd m)) (opt_string k s)"
  "list_all (\<lambda>m. numbers_ok (snd m)) (opt_member k f x) \<longleftrightarrow> (case x of None \<Rightarrow> True | Some y \<Rightarrow> numbers_ok (f y))"
  by (simp_all add: opt_string_def opt_member_def split: option.split)

lemma fits_opt [simp]:
  "list_all (\<lambda>m. fits k (snd m)) (opt_string key s)"
  "list_all (\<lambda>m. fits k (snd m)) (opt_member key f x) \<longleftrightarrow> (case x of None \<Rightarrow> True | Some y \<Rightarrow> fits k (f y))"
  by (simp_all add: opt_string_def opt_member_def split: option.split)

lemma views_ok:
  assumes "number_text fm"
  shows "numbers_ok (wan_json fm i)" "0 < k \<Longrightarrow> fits k (wan_json fm i)"
    and "numbers_ok (candidate_json fm c)" "0 < k \<Longrightarrow> fits k (candidate_json fm c)"
  using assms by (simp_all add: wan_json_def candidate_json_def number_text_def)

lemma views_list_ok:
  assumes "number_text fm" and "1 < k"
  shows "numbers_ok (JArr (map (wan_json fm) is)) \<and> fits k (JArr (map (wan_json fm) is))"
    and "numbers_ok (JArr (map (candidate_json fm) cs)) \<and> fits k (JArr (map (candidate_json fm) cs))"
  using assms(2) by (simp_all add: list_all_length views_ok [OF assms(1)])

lemma body_ok_depth:
  assumes num: "number_text fm" and v: "body_json fm b = Some v" and k: "1 < k"
  shows "numbers_ok v \<and> fits k v"
proof (cases b)
  case (TimingBody t)
  with v k show ?thesis by (auto simp: timing_json_def)
next
  case (TriggerBody status queued)
  have "small (Suc (k - 1)) (json_map [(''status'', JStr status), (''queued'', JBool queued)])"
    unfolding small_map by (simp add: small_def)
  with TriggerBody v k show ?thesis by (simp add: small_def)
next
  case (DropBody r)
  with v k views_ok [OF num] show ?thesis by (auto simp: drop_json_def split: option.split)
next
  case (CandidatesBody cs)
  with v views_list_ok(2) [OF num k] show ?thesis by auto
next
  case (WansBody ws)
  with v views_list_ok(1) [OF num k] show ?thesis by auto
qed (use v in simp)

lemma body_ok: "number_text fm \<Longrightarrow> body_json fm b = Some v \<Longrightarrow> numbers_ok v \<and> fits json_depth v"
  by (rule body_ok_depth) (simp_all add: json_depth_def)

text \<open>The responses that are plain text.\<close>

lemma http_json_sel [simp]: "hr_body (http_json code b) = b" "hr_code (http_json code b) = code"
  by (simp_all add: http_json_def)

lemma drop_body: "\<exists>r. hr_body (fst (handleDropWAN fmt E opts mthd path w)) = DropBody r"
  by (simp add: handleDropWAN_def drop_response_def case_prod_beta split: sum.split)

lemma trigger_body:
  "mthd = ''POST'' \<Longrightarrow> \<exists>s q. hr_body (fst (handleTriggerCycle mthd w)) = TriggerBody s q"
  "mthd \<noteq> ''POST'' \<Longrightarrow> hr_code (fst (handleTriggerCycle mthd w)) = 405"
  by (simp_all add: handleTriggerCycle_def method_not_allowed_def case_prod_beta)

lemma timing_body:
  "mthd = ''GET'' \<Longrightarrow> \<exists>t. hr_body (handleGetCycleTiming fmtNano E mthd w) = TimingBody t"
  "mthd \<noteq> ''GET'' \<Longrightarrow> hr_code (handleGetCycleTiming fmtNano E mthd w) = 405"
  by (simp_all add: handleGetCycleTiming_def method_not_allowed_def case_prod_beta)

lemma candidates_body:
  "mthd = ''GET'' \<Longrightarrow> candidates w = None \<Longrightarrow> hr_body (handleGetCandidates mthd w) = TextBody ''[]''"
  "mthd = ''GET'' \<Longrightarrow> candidates w = Some cp \<Longrightarrow> \<exists>cs. hr_body (handleGetCandidates mthd w) = CandidatesBody cs"
  "mthd \<noteq> ''GET'' \<Longrightarrow> hr_code (handleGetCandidates mthd w) = 405"
  by (simp_all add: handleGetCandidates_def method_not_allowed_def)

lemma text_bodies:
  "hr_body (handleGetWANSlots fmt w) \<noteq> TextBody s"
  "hr_body (fst (handleDropWAN fmt E opts mthd path w)) \<noteq> TextBody s"
  "hr_body (handleGetCycleTiming fmtNano E mthd w) = TextBody s \<Longrightarrow> hr_code (handleGetCycleTiming fmtNano E mthd w) = 405"
  "hr_body (fst (handleTriggerCycle mthd w)) = TextBody s \<Longrightarrow> hr_code (fst (handleTriggerCycle mthd w)) = 405"
  "hr_body (handleGetCandidates mthd w) = TextBody s \<Longrightarrow>
     hr_code (handleGetCandidates mthd w) = 405 \<or> (s = ''[]'' \<and> candidates w = None)"
proof -
  show "hr_body (handleGetWANSlots fmt w) \<noteq> TextBody s" by (simp add: handleGetWANSlots_def)
  show "hr_body (fst (handleDropWAN fmt E opts mthd path w)) \<noteq> TextBody s" by (metis drop_body api_body.distinct(5))
qed (metis timing_body api_body.distinct(1), metis trigger_body api_body.distinct(3),
    metis candidates_body api_body.distinct(7) api_body.inject(1) not_None_eq)

text \<open>C26. Whatever names, links and errors the candidates and the slots hold, a response of the control
  API is one well-formed JSON text, and reading it gives back exactly the structure that was encoded,
  up to bytes that are not valid UTF-8: no subscription can add a field or an entry to a response. The
  only bodies that are not encoded are those of 404 and 405 and the empty list of a pool that is missing.\<close>

theorem api_body_roundtrip:
  assumes "number_text fm" and "resp = fst (api_handler fmt fmtNano E cfg mthd path w)"
  shows "case body_json fm (hr_body resp) of
      Some v \<Rightarrow> json_parse (body_text fm (hr_body resp)) = Some (json_coerced v)
    | None \<Rightarrow> hr_code resp \<in> {404, 405} \<or> (body_text fm (hr_body resp) = ''[]'' \<and> candidates w = None)"
proof (cases "body_json fm (hr_body resp)")
  case None
  then obtain s where s: "hr_body resp = TextBody s" by (cases "hr_body resp") simp_all
  have "hr_code resp \<in> {404, 405} \<or> (s = ''[]'' \<and> candidates w = None)"
    using s text_bodies unfolding assms(2) api_handler_def by (auto simp: http_json_def split: if_splits)
  with s None show ?thesis by simp
next
  case (Some v)
  then have "body_text fm (hr_body resp) = json_Encode v" by (cases "hr_body resp") simp_all
  with Some json_Encode_roundtrip [OF conjunct1 conjunct2, OF body_ok body_ok, OF assms(1) Some assms(1) Some]
  show ?thesis by simp
qed

lemma api_body_roundtrip_witness:
  "json_parse (body_text (\<lambda>_. ''0'') (hr_body (fst (api_handler (\<lambda>_. ''never'') (\<lambda>_. []) calm_env None ''GET''
      ''/api/viberoxy/wans'' small_world)))) =
   Some (JArr (map (\<lambda>i. json_coerced (wan_json (\<lambda>_. ''0'') (wanSlotInfo (\<lambda>_. ''never'') small_world i))) [0, 1]))"
proof -
  let ?resp = "fst (api_handler (\<lambda>_. ''never'') (\<lambda>_. []) calm_env None ''GET'' ''/api/viberoxy/wans'' small_world)"
  have "valid_number ''0'' \<and> list_all number_char ''0''" by code_simp
  then have num: "number_text (\<lambda>_. ''0'')" by (simp add: number_text_def)
  have slots: "[0..<length (Slots (pool small_world))] = [0, 1]" by (simp add: small_world_def upt_rec)
  have "hr_body ?resp = WansBody (map (\<lambda>i. wanSlotInfo (\<lambda>_. ''never'') small_world (int i)) [0, 1])"
    unfolding slots [symmetric] by (simp add: api_handler_def handleGetWANSlots_def http_json_def)
  with api_body_roundtrip [OF num refl, of "\<lambda>_. ''never''" "\<lambda>_. []" calm_env None "''GET''" "''/api/viberoxy/wans''" small_world]
  show ?thesis by simp
qed

end
