(* ===== verification/GoNetProps.thy ===== *)
theory GoNetProps
  imports GoNet
begin

text \<open>
  Round trips of the address forms: bytes and strings, 16-bit values, dotted IPv4 addresses, and
  IPv6 addresses with their longest run of zeros compressed, which net.ParseIP reads back exactly;
  SplitHostPort undoes JoinHostPort.
\<close>

section \<open>Bytes\<close>

lemma byte_bound: "unat (b :: byte) < 256"
  using unsigned_less [of b, where 'a = nat] by simp

lemma string_of_bytes_inverse [simp]: "bytes_of_string (string_of_bytes bs) = bs"
proof -
  have "(of_nat (of_char (char_of (unat b) :: char) :: nat) :: byte) = b" for b :: byte
    using byte_bound [of b] by (simp add: of_char_of)
  then show ?thesis by (simp add: bytes_of_string_def string_of_bytes_def map_idI)
qed

lemma bytes_of_string_inverse [simp]: "string_of_bytes (bytes_of_string s) = s"
proof -
  have "char_of (unat (of_nat (of_char c) :: byte)) = c" for c :: char
    using nat_of_char_less_256 [of c] by (simp add: unat_of_nat take_bit_eq_mod)
  then show ?thesis by (simp add: bytes_of_string_def string_of_bytes_def map_idI)
qed

lemma length_of_bytes [simp]:
  "length (string_of_bytes bs) = length bs" "length (bytes_of_string s) = length s"
  by (simp_all add: bytes_of_string_def string_of_bytes_def)

lemma of_be16_eq: "of_be16 hi lo = 256 * uint hi + uint lo"
proof -
  have lo: "uint lo = take_bit 8 (uint lo)" using take_bit_int_eq_self [of "uint lo" 8] uint_lt2p [of lo] by simp
  have "of_be16 hi lo = concat_bit 8 (uint lo) (uint hi)"
    unfolding of_be16_def concat_bit_def using lo by (simp add: or.commute)
  also have "\<dots> = take_bit 8 (uint lo) + push_bit 8 (uint hi)" by (rule concat_bit_eq)
  finally show ?thesis using lo by (simp add: push_bit_eq_mult)
qed

lemma of_be16_range: "0 \<le> of_be16 hi lo \<and> of_be16 hi lo < 65536"
  using uint_lt2p [of hi] uint_lt2p [of lo] by (simp add: of_be16_eq)

lemma be16_of_be16 [simp]: "be16 (of_be16 hi lo) = [hi, lo]"
proof -
  have "drop_bit 8 (of_be16 hi lo) = uint hi"
    using uint_lt2p [of lo] by (simp add: of_be16_eq drop_bit_eq_div)
  moreover have "(word_of_int (of_be16 hi lo) :: byte) = lo"
  proof -
    have "(word_of_int (of_be16 hi lo) :: byte) = word_of_int (uint lo)"
      by (simp only: of_be16_eq word_of_int_eq_iff take_bit_eq_mod) simp
    then show ?thesis by simp
  qed
  ultimately show ?thesis by (simp add: be16_def)
qed

lemma length_be16 [simp]: "length (be16 n) = 2"
  by (simp add: be16_def)

section \<open>IPv4\<close>

lemma nat_digits_hd: "0 < n \<Longrightarrow> hd (nat_digits n) \<noteq> CHR ''0''"
proof (induction n rule: nat_digits.induct)
  case (1 n)
  show ?case
  proof (cases "n < 10")
    case True
    with "1.prems" show ?thesis by (subst nat_digits.simps) (auto simp: char_of_eq_iff take_bit_eq_mod)
  next
    case False
    with 1 show ?thesis by (subst nat_digits.simps) simp
  qed
qed

lemma parse_octet_digits [simp]: "parse_octet (nat_digits (unat b)) = Some b"
proof -
  have b: "unat b < 256" by (rule byte_bound)
  have "\<not> (hd (nat_digits (unat b)) = CHR ''0'' \<and> length (nat_digits (unat b)) > 1)"
  proof (cases "unat b = 0")
    case True
    have "length (nat_digits 0) = 1" by (subst nat_digits.simps) simp
    with True show ?thesis by simp
  qed (use nat_digits_hd in blast)
  then show ?thesis
    using b nat_digits_digit by (auto simp: parse_octet_def digits_value_nat_digits list_all_iff)
qed

lemma digit_not_special: "is_digit c \<Longrightarrow> c \<noteq> CHR ''.'' \<and> c \<noteq> CHR '':'' \<and> c \<noteq> CHR ''%'' \<and> c \<noteq> CHR 0x5B \<and> c \<noteq> CHR 0x5D"
  by (auto simp: is_digit_def)

lemma all_some_map: "all_some (map Some xs) = Some xs"
  by (induction xs) simp_all

lemma parseIPv4_dotted: "length bs = 4 \<Longrightarrow> parseIPv4 (dotted bs) = Some bs"
proof -
  assume len: "length bs = 4"
  have "strings_Split (dotted bs) (CHR ''.'') = map (\<lambda>b. nat_digits (unat b)) bs"
    unfolding dotted_def using len digit_not_special nat_digits_digit by (intro Split_Join) auto
  moreover have "map parse_octet (map (\<lambda>b. nat_digits (unat b)) bs) = map Some bs" by simp
  ultimately show ?thesis using len by (simp add: parseIPv4_def Let_def all_some_map del: map_map)
qed

lemma ParseIP_dotted:
  assumes "length bs = 4"
  shows "ParseIP (dotted bs) = Some (v4_prefix @ bs)"
proof -
  obtain a b c d where bs: "bs = [a, b, c, d]"
    using assms by (auto simp: numeral_eq_Suc length_Suc_conv)
  let ?P = "\<lambda>c. c \<noteq> CHR ''.'' \<and> c \<noteq> CHR '':'' \<and> c \<noteq> CHR ''%''"
  have "dropWhile ?P (dotted bs) =
      CHR ''.'' # strings_Join (map (\<lambda>b. nat_digits (unat b)) [b, c, d]) ''.''"
    unfolding bs dotted_def using digit_not_special nat_digits_digit
    by (simp add: dropWhile_append2)
  then show ?thesis using parseIPv4_dotted [OF assms] by (simp add: ParseIP_def)
qed

section \<open>IPv6\<close>

lemma hex_char_facts:
  assumes "n < 16"
  shows "unhex (hex_char n) = Some n" "is_hex (hex_char n)"
    "hex_char n \<noteq> CHR ''.''" "hex_char n \<noteq> CHR '':''" "hex_char n \<noteq> CHR ''%''"
    "hex_char n \<noteq> CHR 0x5B" "hex_char n \<noteq> CHR 0x5D"
  using assms by (auto simp: unhex_def hex_char_def is_hex_def Let_def char_of_eq_iff take_bit_eq_mod)

lemma hex_value_appendHex: "x < 65536 \<Longrightarrow> hex_value (appendHex x) = x"
proof -
  assume x: "x < 65536"
  have "x div 4096 < 16" using x by (simp add: div_less_iff_less_mult)
  then have "hex_value (appendHex x) =
      4096 * (if 4096 \<le> x then x div 4096 else 0) + 256 * (if 256 \<le> x then x div 256 mod 16 else 0) +
      16 * (if 16 \<le> x then x div 16 mod 16 else 0) + x mod 16"
    by (simp add: hex_value_def appendHex_def hex_char_facts)
  also have "\<dots> = 4096 * (x div 4096) + 256 * (x div 256 mod 16) + 16 * (x div 16 mod 16) + x mod 16"
    by simp
  also have "\<dots> = x"
  proof -
    have "x div 16 div 16 = x div 256" "x div 256 div 16 = x div 4096"
      by (simp_all flip: div_mult2_eq)
    then show ?thesis
      using div_mult_mod_eq [of x 16] div_mult_mod_eq [of "x div 16" 16] div_mult_mod_eq [of "x div 256" 16]
      by linarith
  qed
  finally show ?thesis .
qed

lemma appendHex_length: "appendHex x \<noteq> [] \<and> length (appendHex x) \<le> 4"
  by (simp add: appendHex_def)

lemma appendHex_chars: "x < 65536 \<Longrightarrow> c \<in> set (appendHex x) \<Longrightarrow> \<exists>n < 16. c = hex_char n"
proof -
  assume "x < 65536" "c \<in> set (appendHex x)"
  moreover have "y mod 16 < 16" for y :: nat by simp
  moreover have "x div 4096 < 16" using \<open>x < 65536\<close> by (simp add: div_less_iff_less_mult)
  ultimately show ?thesis unfolding appendHex_def by (auto split: if_splits simp del: mod_less_divisor)
qed

definition bytes_of_groups :: "nat list \<Rightarrow> byte list" where
  "bytes_of_groups gs = concat (map (\<lambda>g. be16 (int g)) gs)"

definition group_ok :: "nat \<Rightarrow> bool" where
  "group_ok g \<longleftrightarrow> g < 65536"

lemma bytes_of_groups_simps [simp]:
  "bytes_of_groups [] = []" "bytes_of_groups (g # gs) = be16 (int g) @ bytes_of_groups gs"
  "bytes_of_groups (gs @ hs) = bytes_of_groups gs @ bytes_of_groups hs"
  "length (bytes_of_groups gs) = 2 * length gs"
  by (simp_all add: bytes_of_groups_def length_concat sum_list_triv comp_def)

lemma bytes_of_zeros: "bytes_of_groups (replicate n 0) = replicate (2 * n) 0"
  by (induction n) (simp_all add: be16_def)

lemma group_scan:
  assumes "group_ok g" and "r = [] \<or> \<not> is_hex (hd r)"
  shows "takeWhile is_hex (appendHex g @ r) = appendHex g" "dropWhile is_hex (appendHex g @ r) = r"
proof -
  have "\<forall>c \<in> set (appendHex g). is_hex c"
    using assms(1) appendHex_chars hex_char_facts(2) unfolding group_ok_def by blast
  moreover have "takeWhile is_hex r = []" "dropWhile is_hex r = r"
    using assms(2) by (cases r; simp)+
  ultimately show "takeWhile is_hex (appendHex g @ r) = appendHex g" "dropWhile is_hex (appendHex g @ r) = r"
    by (simp_all add: takeWhile_append2 dropWhile_append2)
qed

lemma colon_not_hex: "\<not> is_hex (CHR '':'')"
  by code_simp

lemma v6_group:
  assumes "group_ok g"
  shows v6_group_end: "v6_loop (Suc k) (appendHex g) acc el = v6_finish [] (acc @ be16 (int g)) el"
    and v6_group_colon: "s \<noteq> [] \<Longrightarrow> hd s \<noteq> CHR '':'' \<Longrightarrow>
      v6_loop (Suc k) (appendHex g @ CHR '':'' # s) acc el = v6_loop k s (acc @ be16 (int g)) el"
    and v6_group_gap: "v6_loop (Suc k) (appendHex g @ ''::'' @ t) acc None =
      (if t = [] then v6_finish [] (acc @ be16 (int g)) (Some (length acc + 2))
       else v6_loop k t (acc @ be16 (int g)) (Some (length acc + 2)))"
proof -
  note len = appendHex_length [of g] and val = hex_value_appendHex [of g]
  show "v6_loop (Suc k) (appendHex g) acc el = v6_finish [] (acc @ be16 (int g)) el"
    using len val assms by (simp add: group_scan [OF assms, of "[]", unfolded append_Nil2] group_ok_def Let_def)
  show "v6_loop (Suc k) (appendHex g @ CHR '':'' # s) acc el = v6_loop k s (acc @ be16 (int g)) el"
    if "s \<noteq> []" "hd s \<noteq> CHR '':''"
    using group_scan [OF assms, of "CHR '':'' # s"] len val assms that
    by (cases s) (simp_all add: group_ok_def colon_not_hex Let_def)
  show "v6_loop (Suc k) (appendHex g @ ''::'' @ t) acc None =
      (if t = [] then v6_finish [] (acc @ be16 (int g)) (Some (length acc + 2))
       else v6_loop k t (acc @ be16 (int g)) (Some (length acc + 2)))"
    using group_scan [OF assms, of "''::'' @ t"] len val assms
    by (simp add: group_ok_def colon_not_hex Let_def)
qed

declare v6_loop.simps [simp del]

lemma colon_hex_simps [simp]:
  "colon_hex [] = []" "colon_hex [g] = appendHex g"
  "colon_hex (g # h # gs) = appendHex g @ CHR '':'' # colon_hex (h # gs)"
  by (simp_all add: colon_hex_def)

lemma appendHex_hd: "group_ok g \<Longrightarrow> hd (appendHex g @ r) \<noteq> CHR '':''"
proof -
  assume "group_ok g"
  moreover have "hd (appendHex g) \<in> set (appendHex g)" using appendHex_length [of g] by simp
  ultimately obtain n where "n < 16" "hd (appendHex g) = hex_char n"
    using appendHex_chars [of g "hd (appendHex g)"] unfolding group_ok_def by blast
  with appendHex_length [of g] hex_char_facts(4) [of n] show ?thesis by (simp add: hd_append)
qed

lemma colon_hex_start:
  assumes "gs \<noteq> []" "list_all group_ok gs"
  shows "colon_hex gs \<noteq> []" "hd (colon_hex gs @ r) \<noteq> CHR '':''"
proof -
  obtain g hs where gs: "gs = g # hs" using assms(1) by (cases gs) auto
  have "group_ok g" using assms(2) gs by simp
  then show "colon_hex gs \<noteq> []" "hd (colon_hex gs @ r) \<noteq> CHR '':''"
    using appendHex_length [of g] appendHex_hd [of g] unfolding gs by (cases hs; simp)+
qed

lemma v6_loop_plain:
  "gs \<noteq> [] \<Longrightarrow> list_all group_ok gs \<Longrightarrow> length gs \<le> k \<Longrightarrow>
     v6_loop k (colon_hex gs) acc el = v6_finish [] (acc @ bytes_of_groups gs) el"
proof (induction gs arbitrary: k acc)
  case (Cons g gs)
  obtain j where k: "k = Suc j" using Cons.prems(3) by (cases k) auto
  show ?case
  proof (cases gs)
    case Nil
    with Cons.prems show ?thesis by (simp add: k v6_group_end)
  next
    case (Cons h hs)
    have ok: "list_all group_ok gs" "group_ok g" using Cons.prems(2) by simp_all
    with Cons.IH [of j "acc @ be16 (int g)"] Cons.prems(3) show ?thesis
      using v6_group_colon [OF ok(2)] colon_hex_start(1) [of gs] colon_hex_start(2) [of gs "[]"] by (simp add: k Cons)
  qed
qed simp

lemma v6_loop_gap:
  "gs \<noteq> [] \<Longrightarrow> list_all group_ok gs \<Longrightarrow> length gs \<le> k \<Longrightarrow>
     v6_loop k (colon_hex gs @ ''::'' @ t) acc None =
       (if t = [] then v6_finish [] (acc @ bytes_of_groups gs) (Some (length acc + 2 * length gs))
        else v6_loop (k - length gs) t (acc @ bytes_of_groups gs) (Some (length acc + 2 * length gs)))"
proof (induction gs arbitrary: k acc)
  case (Cons g gs)
  obtain j where k: "k = Suc j" using Cons.prems(3) by (cases k) auto
  show ?case
  proof (cases gs)
    case Nil
    with Cons.prems v6_group_gap [of g j t acc] show ?thesis by (simp add: k)
  next
    case (Cons h hs)
    have ok: "list_all group_ok gs" "group_ok g" using Cons.prems(2) by simp_all
    with Cons.IH [of j "acc @ be16 (int g)"] Cons.prems(3) show ?thesis
      using v6_group_colon [OF ok(2)] colon_hex_start(1) [of gs] colon_hex_start(2) [of gs "''::'' @ t"] by (simp add: k Cons)
  qed
qed simp

lemma zero_run_zeros:
  "i \<le> length gs \<Longrightarrow> i + zero_run gs i \<le> length gs \<and> (\<forall>j. i \<le> j \<longrightarrow> j < i + zero_run gs i \<longrightarrow> gs ! j = 0)"
proof -
  assume i: "i \<le> length gs"
  have len: "zero_run gs i \<le> length (drop i gs)" unfolding zero_run_def by (rule length_takeWhile_le)
  moreover have "gs ! j = 0" if "i \<le> j" "j < i + zero_run gs i" for j
  proof -
    have j: "j - i < length (takeWhile (\<lambda>g. g = 0) (drop i gs))" using that unfolding zero_run_def by linarith
    have "takeWhile (\<lambda>g. g = 0) (drop i gs) ! (j - i) = 0" using set_takeWhileD [OF nth_mem [OF j]] by simp
    then have "drop i gs ! (j - i) = 0" using takeWhile_nth [OF j] by simp
    with i that len show ?thesis by simp
  qed
  ultimately show ?thesis using i by simp
qed

lemma longest_zeros_run:
  assumes "longest_zeros gs = Some (s, e)"
  shows "s + 2 \<le> e \<and> e \<le> length gs \<and> gs = take s gs @ replicate (e - s) 0 @ drop e gs"
proof -
  let ?P = "\<lambda>b. case b of None \<Rightarrow> True | Some (s, e) \<Rightarrow> s + 2 \<le> e \<and> e \<le> length gs \<and> (\<forall>j. s \<le> j \<longrightarrow> j < e \<longrightarrow> gs ! j = 0)"
  have "?P (longest_zeros gs)"
    unfolding longest_zeros_def
  proof (rule foldl_invariant)
    fix b i
    assume "?P b" "i \<in> set [0..<length gs]"
    with zero_run_zeros [of i gs] show "?P (longer_run gs b i)"
      by (auto simp: longer_run_def Let_def split: option.splits prod.splits)
  qed simp
  with assms have run: "s + 2 \<le> e" "e \<le> length gs" "\<forall>j. s \<le> j \<longrightarrow> j < e \<longrightarrow> gs ! j = 0" by auto
  have "drop s (take e gs) = replicate (e - s) 0"
    using run by (intro nth_equalityI) auto
  moreover have "gs = take s (take e gs) @ drop s (take e gs) @ drop e gs"
    by (metis append.assoc append_take_drop_id)
  ultimately show ?thesis using run by (simp add: min_def)
qed

lemma not_prefix_hd: "s \<noteq> [] \<Longrightarrow> hd s \<noteq> CHR '':'' \<Longrightarrow> \<not> strings_HasPrefix s ''::''"
  by (cases s) (simp_all add: strings_HasPrefix_def)

lemma colon_hex_chars:
  "list_all group_ok gs \<Longrightarrow> c \<in> set (colon_hex gs) \<Longrightarrow> c = CHR '':'' \<or> (\<exists>n < 16. c = hex_char n)"
proof (induction gs)
  case (Cons g gs)
  then show ?case using appendHex_chars [of g c] by (cases gs) (auto simp: group_ok_def)
qed simp

lemma appendTo6_chars:
  assumes "list_all group_ok gs" and "c \<in> set (appendTo6 gs)"
  shows "c = CHR '':'' \<or> (\<exists>n < 16. c = hex_char n)"
  using assms colon_hex_chars [of gs c] colon_hex_chars [of "take s gs" c for s] colon_hex_chars [of "drop e gs" c for e]
  by (auto simp: appendTo6_def list_all_iff dest: in_set_takeD in_set_dropD split: option.splits)

lemma parseIPv6_appendTo6:
  assumes len: "length gs = 8" and ok: "list_all group_ok gs"
  shows "parseIPv6 (appendTo6 gs) = Some (bytes_of_groups gs)"
proof -
  have no: "CHR ''%'' \<notin> set (appendTo6 gs)"
    using appendTo6_chars [OF ok] hex_char_facts(5) by fastforce
  show ?thesis
  proof (cases "longest_zeros gs")
    case None
    have "gs \<noteq> []" using len by auto
    note st = colon_hex_start [OF this ok]
    have "\<not> strings_HasPrefix (colon_hex gs) ''::''"
      using st(1) st(2) [of "[]"] by (intro not_prefix_hd) simp_all
    then show ?thesis
      using no None v6_loop_plain [OF \<open>gs \<noteq> []\<close> ok, of 8 "[]" None] len
      by (simp add: parseIPv6_def appendTo6_def v6_finish_def)
  next
    case (Some r)
    obtain s e where r: "r = (s, e)" by fastforce
    let ?pre = "take s gs" and ?post = "drop e gs"
    have run: "s + 2 \<le> e" "e \<le> 8" "gs = ?pre @ replicate (e - s) 0 @ ?post"
      using longest_zeros_run [of gs s e] Some r len by simp_all
    have okp: "list_all group_ok ?pre" "list_all group_ok ?post"
      using ok by (auto simp: list_all_iff dest: in_set_takeD in_set_dropD)
    have lens: "length ?pre = s" "length ?post = 8 - e" using run len by simp_all
    have bytes: "bytes_of_groups gs = bytes_of_groups ?pre @ replicate (2 * (e - s)) 0 @ bytes_of_groups ?post"
      using arg_cong [OF run(3), of bytes_of_groups] unfolding bytes_of_groups_simps bytes_of_zeros .
    have str: "appendTo6 gs = colon_hex ?pre @ ''::'' @ colon_hex ?post"
      using Some r by (simp add: appendTo6_def)
    have post: "colon_hex ?post = [] \<longleftrightarrow> e = 8"
      using colon_hex_start(1) [of ?post] okp(2) run(2) len by (cases "e = 8") simp_all
    show ?thesis
    proof (cases "s = 0")
      case True
      have "strings_HasPrefix (appendTo6 gs) ''::''" "drop 2 (appendTo6 gs) = colon_hex ?post"
        using str True by (simp_all add: strings_HasPrefix_def)
      moreover have "v6_loop 8 (colon_hex ?post) [] (Some 0) =
          Some (replicate (16 - 2 * (8 - e)) 0 @ bytes_of_groups ?post)" if "e \<noteq> 8"
        using that v6_loop_plain [of ?post 8 "[]" "Some 0"] okp(2) lens run by (simp add: v6_finish_def)
      moreover have "16 - 2 * (8 - e) = 2 * e" using run by simp
      moreover have "e = 8 \<Longrightarrow> ?post = []" using len by simp
      ultimately show ?thesis
        using no post bytes True run by (auto simp: parseIPv6_def)
    next
      case False
      have ne: "?pre \<noteq> []" using False lens by auto
      have "\<not> strings_HasPrefix (appendTo6 gs) ''::''"
        unfolding str using colon_hex_start [OF ne okp(1)] by (intro not_prefix_hd) simp_all
      moreover have "v6_loop 8 (appendTo6 gs) [] None = Some (bytes_of_groups gs)"
      proof (cases "e = 8")
        case True
        with post have "colon_hex ?post = []" by simp
        with v6_loop_gap [OF ne okp(1), of 8 "[]" "[]"] lens run True show ?thesis
          unfolding str bytes by (simp add: v6_finish_def diff_mult_distrib2)
      next
        case e8: False
        have "v6_loop 8 (appendTo6 gs) [] None = v6_loop (8 - s) (colon_hex ?post) (bytes_of_groups ?pre) (Some (2 * s))"
          unfolding str using v6_loop_gap [OF ne okp(1), of 8 "colon_hex ?post" "[]"] lens run post e8 by simp
        also have "\<dots> = v6_finish [] (bytes_of_groups ?pre @ bytes_of_groups ?post) (Some (2 * s))"
          using e8 run lens okp(2) by (intro v6_loop_plain) auto
        also have "\<dots> = Some (bytes_of_groups gs)"
        proof -
          have "16 - (2 * s + 2 * (8 - e)) = 2 * (e - s)" using run by simp
          then show ?thesis unfolding bytes using lens run by (simp add: v6_finish_def)
        qed
        finally show ?thesis .
      qed
      ultimately show ?thesis using no by (simp add: parseIPv6_def)
    qed
  qed
qed

lemma groups16_facts:
  assumes "length bs = 16"
  shows "length (groups16 bs) = 8" "list_all group_ok (groups16 bs)" "bytes_of_groups (groups16 bs) = bs"
proof -
  have "even (length bs) \<Longrightarrow> 2 * length (groups16 bs) = length bs \<and> list_all group_ok (groups16 bs) \<and>
      bytes_of_groups (groups16 bs) = bs" for bs :: "byte list"
    by (induction bs rule: groups16.induct) (use of_be16_range in \<open>auto simp: group_ok_def nat_less_iff\<close>)
  from this [of bs] assms show "length (groups16 bs) = 8" "list_all group_ok (groups16 bs)"
    "bytes_of_groups (groups16 bs) = bs" by simp_all
qed

lemma appendTo6_dispatch:
  assumes "length gs = 8" "list_all group_ok gs"
  shows "ParseIP (appendTo6 gs) = parseIPv6 (appendTo6 gs)"
proof -
  let ?P = "\<lambda>c. c \<noteq> CHR ''.'' \<and> c \<noteq> CHR '':'' \<and> c \<noteq> CHR ''%''"
  have "CHR '':'' \<in> set (appendTo6 gs)"
  proof (cases "longest_zeros gs")
    case None
    obtain a b cs where "gs = a # b # cs"
      using assms(1) by (cases gs; cases "tl gs") auto
    with None show ?thesis by (simp add: appendTo6_def)
  qed (auto simp: appendTo6_def)
  then have "dropWhile ?P (appendTo6 gs) \<noteq> []" by (auto simp: dropWhile_eq_Nil_conv)
  moreover from this have "\<not> ?P (hd (dropWhile ?P (appendTo6 gs)))" by (rule hd_dropWhile)
  moreover have "hd (dropWhile ?P (appendTo6 gs)) \<in> set (appendTo6 gs)"
    using calculation(1) by (meson hd_in_set set_dropWhileD)
  ultimately have "hd (dropWhile ?P (appendTo6 gs)) = CHR '':''"
    using appendTo6_chars [OF assms(2)] hex_char_facts(3,5) by fastforce
  with \<open>dropWhile ?P (appendTo6 gs) \<noteq> []\<close> show ?thesis
    by (cases "dropWhile ?P (appendTo6 gs)") (simp_all add: ParseIP_def)
qed

text \<open>Both families: the text form of an address is read back as the address.\<close>

lemma ParseIP_IP_String:
  "length ip = 4 \<Longrightarrow> ParseIP (IP_String ip) = Some (v4_prefix @ ip)"
  "length ip = 16 \<Longrightarrow> ParseIP (IP_String ip) = Some ip"
proof -
  show "ParseIP (IP_String ip) = Some (v4_prefix @ ip)" if "length ip = 4"
    using ParseIP_dotted [OF that] that by (simp add: IP_String_def To4_def)
  show "ParseIP (IP_String ip) = Some ip" if len: "length ip = 16"
  proof (cases "take 12 ip = v4_prefix")
    case True
    have "ParseIP (dotted (drop 12 ip)) = Some (take 12 ip @ drop 12 ip)"
      unfolding True using len by (intro ParseIP_dotted) simp
    then show ?thesis using True len by (simp add: IP_String_def To4_def del: append_take_drop_id)
      (metis append_take_drop_id)
  next
    case False
    note gs = groups16_facts [OF len]
    show ?thesis
      using False len appendTo6_dispatch [OF gs(1,2)] parseIPv6_appendTo6 [OF gs(1,2)] gs(3)
      by (simp add: IP_String_def To4_def)
  qed
qed

section \<open>Host and port\<close>

lemma SplitHostPort_plain:
  assumes "CHR '':'' \<notin> set host" "CHR 0x5B \<notin> set host" "CHR 0x5D \<notin> set host"
    and "\<forall>c \<in> set port. is_digit c"
  shows "SplitHostPort (host @ '':'' @ port) = Inr (host, port)"
proof -
  have port: "CHR '':'' \<notin> set port" "CHR 0x5B \<notin> set port" "CHR 0x5D \<notin> set port"
    using assms(4) digit_not_special by blast+
  have "strings_LastIndexByte (host @ CHR '':'' # port) (CHR '':'') = Some (length host)"
    using port(1) by (rule LastIndexByte_append)
  moreover have "hd (host @ CHR '':'' # port) \<noteq> CHR 0x5B"
    using assms(2) by (cases host) auto
  ultimately show ?thesis using assms port by (simp add: SplitHostPort_def Let_def)
qed

lemma SplitHostPort_bracketed:
  assumes "CHR 0x5B \<notin> set host" "CHR 0x5D \<notin> set host" and "\<forall>c \<in> set port. is_digit c"
  shows "SplitHostPort ([CHR 0x5B] @ host @ [CHR 0x5D, CHR '':''] @ port) = Inr (host, port)"
proof -
  let ?s = "CHR 0x5B # host @ CHR 0x5D # CHR '':'' # port"
  have port: "CHR '':'' \<notin> set port" "CHR 0x5B \<notin> set port" "CHR 0x5D \<notin> set port"
    using assms(3) digit_not_special by blast+
  have "strings_LastIndexByte ((CHR 0x5B # host @ [CHR 0x5D]) @ CHR '':'' # port) (CHR '':'') =
      Some (length (CHR 0x5B # host @ [CHR 0x5D]))"
    using port(1) by (rule LastIndexByte_append)
  then have last: "strings_LastIndexByte ?s (CHR '':'') = Some (length host + 2)" by simp
  have "strings_IndexByte ((CHR 0x5B # host) @ CHR 0x5D # CHR '':'' # port) (CHR 0x5D) =
      Some (length (CHR 0x5B # host))"
    using assms(2) by (intro IndexByte_append) simp
  then have "strings_IndexByte ?s (CHR 0x5D) = Some (length host + 1)" by simp
  with last show ?thesis using assms(1,2) port by (simp add: SplitHostPort_def Let_def)
qed

lemma SplitHostPort_Join:
  assumes "CHR 0x5B \<notin> set host" "CHR 0x5D \<notin> set host"
  shows "SplitHostPort (JoinHostPort host (nat_digits n)) = Inr (host, nat_digits n)"
  using SplitHostPort_plain [of host "nat_digits n"] SplitHostPort_bracketed [of host "nat_digits n"]
    assms nat_digits_digit by (auto simp: JoinHostPort_def)

lemma Join_chars: "c \<in> set (strings_Join xs sep) \<Longrightarrow> c \<in> set sep \<or> (\<exists>x \<in> set xs. c \<in> set x)"
  by (induction xs sep rule: strings_Join.induct) auto

lemma IP_String_brackets:
  assumes "length ip = 4 \<or> length ip = 16"
  shows "CHR 0x5B \<notin> set (IP_String ip) \<and> CHR 0x5D \<notin> set (IP_String ip)"
proof -
  have dot: "CHR 0x5B \<notin> set (dotted bs) \<and> CHR 0x5D \<notin> set (dotted bs)" for bs
  proof -
    have "c \<in> set (dotted bs) \<Longrightarrow> is_digit c \<or> c = CHR ''.''" for c
      unfolding dotted_def by (drule Join_chars) (auto dest: nat_digits_digit)
    then show ?thesis using digit_not_special by fastforce
  qed
  show ?thesis
  proof (cases "To4 ip")
    case (Some p)
    with dot show ?thesis by (simp add: IP_String_def)
  next
    case None
    with assms have "length ip = 16" by (auto simp: To4_def)
    from appendTo6_chars [OF groups16_facts(2) [OF this]] hex_char_facts(6,7)
    have "CHR 0x5B \<notin> set (appendTo6 (groups16 ip))" "CHR 0x5D \<notin> set (appendTo6 (groups16 ip))"
      by fastforce+
    with None show ?thesis by (simp add: IP_String_def)
  qed
qed

end
