(* ===== verification/Probe.thy ===== *)
theory Probe
  imports Tester Dial GoNetProps
begin

text \<open>
  One probe of a WAN on the wire (tester.go: probeDialTarget, probeRoundTrip): the dial target of a
  probe URL, the dial through the WAN's local port, the optional TLS handshake, and the HTTP exchange.
  TLS and HTTP are crypto/tls and net/http, so their outcomes are answers; what the code does with the
  connection on each of them is modelled. The outcome is the one that ProbeWAN and probeExitIP read.
\<close>

section \<open>The round trip\<close>

definition probeDialTarget :: "URL \<Rightarrow> string" where
  "probeDialTarget u =
     (case SplitHostPort (u_Host u) of
        Inr _ \<Rightarrow> u_Host u
      | Inl _ \<Rightarrow> JoinHostPort (u_Host u) (if u_Scheme u = ''http'' then ''80'' else ''443''))"

text \<open>
  The answers of the libraries: the error of url.Parse, of SetDeadline, of the handshake, of the
  construction and of the writing of the request; and the response: status code and text, body, and
  how the body ends.
\<close>

record probe_answers =
  pa_url :: goerror
  pa_deadline :: "goerror option"
  pa_handshake :: "goerror option"
  pa_request :: "goerror option"
  pa_write :: "goerror option"
  pa_response :: "goerror + int \<times> string \<times> string \<times> goerror option"

text \<open>After the dial: the error and its label, or the response.\<close>

definition probe_exchange ::
    "probe_answers \<Rightarrow> URL \<Rightarrow> (string \<times> goerror) + int \<times> string \<times> string \<times> goerror option" where
  "probe_exchange A u =
     (case pa_deadline A of
        Some e \<Rightarrow> Inl (''set probe deadline: '', e)
      | None \<Rightarrow>
          (case (if u_Scheme u = ''https'' then pa_handshake A else None) of
             Some e \<Rightarrow> Inl (''tls handshake: '', e)
           | None \<Rightarrow>
               (case pa_request A of
                  Some e \<Rightarrow> Inl (''create probe request: '', e)
                | None \<Rightarrow>
                    (case pa_write A of
                       Some e \<Rightarrow> Inl (''write probe request: '', e)
                     | None \<Rightarrow>
                         (case pa_response A of
                            Inl e \<Rightarrow> Inl (''read probe response: '', e)
                          | Inr r \<Rightarrow> Inr r)))))"

text \<open>The second component is what became of the connection, None when there was none.\<close>

definition probeRoundTrip ::
    "probe_answers \<Rightarrow> (string \<Rightarrow> goerror + conn) \<Rightarrow> string \<Rightarrow> string \<Rightarrow> probe_outcome \<times> conn option" where
  "probeRoundTrip A dial socksAddr probeURL =
     (case url_Parse probeURL of
        None \<Rightarrow> (ProbeRoundTripError (ErrWrap ''parse probe url: '' (pa_url A) []), None)
      | Some u \<Rightarrow>
          (case socks5Dial (dial socksAddr) (probeDialTarget u) of
             (Some e, c) \<Rightarrow> (ProbeRoundTripError (ErrWrap ''socks dial: '' e []), c)
           | (None, c) \<Rightarrow>
               (case probe_exchange A u of
                  Inl (label, e) \<Rightarrow> (ProbeRoundTripError (ErrWrap label e []), map_option conn_Close c)
                | Inr (code, status, body, err) \<Rightarrow> (ProbeResponse code status body err, c))))"

definition ProbeWANURL :: string where
  "ProbeWANURL = ''https://api.ipify.org/''"

section \<open>Properties\<close>

lemma socks5Dial_error_closes: "socks5Dial d t = (Some e, Some c) \<Longrightarrow> cn_closed c"
  by (auto simp: socks5Dial_def conn_Close_def split: sum.splits prod.splits)

text \<open>An error never leaves a connection open.\<close>

lemma probe_error_closes:
  "probeRoundTrip A dial addr url = (ProbeRoundTripError e, Some c) \<Longrightarrow> cn_closed c"
  by (auto simp: probeRoundTrip_def conn_Close_def
      split: option.splits prod.splits sum.splits dest: socks5Dial_error_closes)

text \<open>The request that the WAN's xray receives.\<close>

definition plain_host :: "string \<Rightarrow> bool" where
  "plain_host host \<longleftrightarrow> CHR '':'' \<notin> set host \<and> CHR 0x5B \<notin> set host \<and> CHR 0x5D \<notin> set host \<and> length host \<le> 255"

definition scheme_port :: "string \<Rightarrow> nat" where
  "scheme_port scheme = (if scheme = ''http'' then 80 else 443)"

lemma probeDialTarget_portless:
  assumes "plain_host (u_Host u)"
  shows "probeDialTarget u = JoinHostPort (u_Host u) (nat_digits (scheme_port (u_Scheme u)))"
proof -
  have "strings_LastIndexByte (u_Host u) (CHR '':'') = None"
    using assms by (simp add: plain_host_def LastIndexByte_None)
  then have "\<exists>e. SplitHostPort (u_Host u) = Inl e" by (simp add: SplitHostPort_def)
  moreover have "nat_digits 80 = ''80''" "nat_digits 443 = ''443''" by code_simp+
  ultimately show ?thesis by (auto simp: probeDialTarget_def scheme_port_def)
qed

lemma probeDialTarget_port:
  "plain_host host \<Longrightarrow> u_Host u = host @ '':'' @ nat_digits n \<Longrightarrow> probeDialTarget u = u_Host u"
  using SplitHostPort_plain [of host "nat_digits n"] nat_digits_digit [of _ n]
  by (simp add: plain_host_def probeDialTarget_def)

lemma dial_request_plain:
  assumes "plain_host host" and "1 \<le> n" "n \<le> 65535"
  shows "\<exists>req. dial_request (JoinHostPort host (nat_digits n)) = Inr req \<and> encode_target host (int n) = Inr req"
proof -
  have "\<exists>req. encode_target host (int n) = Inr req"
    using assms(1) by (auto simp: encode_target_def plain_host_def split: option.split)
  moreover have "dial_request (JoinHostPort host (nat_digits n)) = encode_target host (int n)"
    using assms SplitHostPort_Join [of host n] Atoi_nat_digits [of n] by (simp add: dial_request_def plain_host_def)
  ultimately show ?thesis by simp
qed

text \<open>C21. A WAN that works is found healthy: for a probe URL without a port, when the WAN's xray
  accepts and the endpoint answers with a 2xx status, the probe reaches host and default port of the
  scheme - the bytes sent are the greeting and exactly that CONNECT request - and ProbeWAN reports no
  failure. Whatever fails instead, no connection is left open.\<close>

theorem probe_healthy:
  assumes "url_Parse url = Some u" and "plain_host (u_Host u)"
    and "dial addr = Inr c" and "cn_in c = [0x05, 0x00] @ rep @ rest" and "accepting rep" and "2 \<le> cn_writes c"
    and "probe_exchange A u = Inr (code, status, body, None)" and "200 \<le> code" "code < 300"
    and "e_probe E (tick s) = fst (probeRoundTrip A dial addr url)"
  shows "fst (ProbeWAN E s) = None \<and>
    (\<exists>req c'. snd (probeRoundTrip A dial addr url) = Some c' \<and>
       encode_target (u_Host u) (int (scheme_port (u_Scheme u))) = Inr req \<and>
       cn_out c' = cn_out c @ [0x05, 0x01, 0x00] @ req \<and> cn_in c' = rest) \<and>
    (\<forall>A' dial' e. fst (probeRoundTrip A' dial' addr url) = ProbeRoundTripError e \<longrightarrow>
       (case snd (probeRoundTrip A' dial' addr url) of None \<Rightarrow> True | Some c' \<Rightarrow> cn_closed c'))"
proof -
  let ?n = "scheme_port (u_Scheme u)"
  have n: "1 \<le> ?n" "?n \<le> 65535" by (simp_all add: scheme_port_def)
  obtain req where req: "dial_request (probeDialTarget u) = Inr req" "encode_target (u_Host u) (int ?n) = Inr req"
    using dial_request_plain [OF assms(2) n] probeDialTarget_portless [OF assms(2)] by auto
  let ?c = "c\<lparr>cn_in := rest, cn_writes := cn_writes c - 2, cn_out := cn_out c @ [0x05, 0x01, 0x00] @ req\<rparr>"
  have "socks5Dial (Inr c) (probeDialTarget u) = (None, Some ?c)"
    by (rule socks5Dial_accepted [OF assms(4,5,6) req(1)])
  then have rt: "probeRoundTrip A dial addr url = (ProbeResponse code status body None, Some ?c)"
    using assms(1,3,7) by (simp add: probeRoundTrip_def)
  moreover have "fst (ProbeWAN E s) = None"
    using assms(8-10) rt by (simp add: ProbeWAN_def ask_eq)
  moreover have "case snd (probeRoundTrip A' dial' addr url) of None \<Rightarrow> True | Some c' \<Rightarrow> cn_closed c'"
    if "fst (probeRoundTrip A' dial' addr url) = ProbeRoundTripError e" for A' dial' e
    using that probe_error_closes [of A' dial' addr url e]
    by (cases "probeRoundTrip A' dial' addr url") (simp split: option.split)
  ultimately show ?thesis using req(2) by simp
qed

definition good_answers :: probe_answers where
  "good_answers =
     \<lparr>pa_url = ErrText [], pa_deadline = None, pa_handshake = None, pa_request = None, pa_write = None,
      pa_response = Inr (200, ''200 OK'', ''192.0.2.7'', None)\<rparr>"

definition good_wan :: conn where
  "good_wan =
     \<lparr>cn_in = [0x05, 0x00] @ [0x05, 0x00, 0x00, 0x01, 0, 0, 0, 0, 0, 0], cn_eof = ErrEOF, cn_writes = 9,
      cn_out = [], cn_closed = False\<rparr>"

lemma probe_healthy_witness:
  "fst (ProbeWAN (calm_env\<lparr>e_probe := \<lambda>_. fst (probeRoundTrip good_answers (\<lambda>_. Inr good_wan) ''127.0.0.1:20000'' ProbeWANURL)\<rparr>)
     empty_sys) = None \<and>
   (\<exists>c'. snd (probeRoundTrip good_answers (\<lambda>_. Inr good_wan) ''127.0.0.1:20000'' ProbeWANURL) = Some c' \<and>
     cn_out c' = [0x05, 0x01, 0x00] @ [0x05, 0x01, 0x00, 0x03, 13] @ bytes_of_string ''api.ipify.org'' @ [1, 187])"
proof -
  let ?u = "empty_url\<lparr>u_Scheme := ''https'', u_Host := ''api.ipify.org'', u_Path := ''/''\<rparr>"
  have u: "url_Parse ProbeWANURL = Some ?u" by code_simp
  have host: "plain_host (u_Host ?u)" by code_simp
  have ok: "accepting ([0x05, 0x00, 0x00, 0x01] @ [0, 0, 0, 0, 0, 0])" by (rule accept_v4) simp
  have ex: "probe_exchange good_answers ?u = Inr (200, ''200 OK'', ''192.0.2.7'', None)"
    by (simp add: probe_exchange_def good_answers_def)
  have req: "encode_target ''api.ipify.org'' 443 =
      Inr ([0x05, 0x01, 0x00, 0x03, 13] @ bytes_of_string ''api.ipify.org'' @ [1, 187])"
    by code_simp
  let ?d = "\<lambda>_ :: string. Inr good_wan :: goerror + conn"
  let ?E = "calm_env\<lparr>e_probe := \<lambda>_. fst (probeRoundTrip good_answers ?d ''127.0.0.1:20000'' ProbeWANURL)\<rparr>"
  have "cn_in good_wan = [0x05, 0x00] @ ([0x05, 0x00, 0x00, 0x01] @ [0, 0, 0, 0, 0, 0]) @ []"
    by (simp add: good_wan_def)
  from probe_healthy [where dial = ?d and addr = "''127.0.0.1:20000''" and E = ?E and s = empty_sys,
      OF u host refl this ok _ ex] req
  show ?thesis by (auto simp: good_wan_def scheme_port_def)
qed

text \<open>A bracketed address without a port is bracketed again, so it cannot be dialled.\<close>

lemma probe_target_bracketed:
  "probeDialTarget (empty_url\<lparr>u_Scheme := ''https'', u_Host := ''[2001:db8::1]''\<rparr>) = ''[[2001:db8::1]]:443''"
  "isl (dial_request ''[[2001:db8::1]]:443'')"
  by code_simp+

end
