(* ===== verification/SocksProps.thy ===== *)
theory SocksProps
  imports Socks GoNetProps
begin

text \<open>
  Properties of the two front ends: connections are counted in pairs, a WAN-routed connection
  depends on the network only through the WAN's own port, and the SOCKS5 front end and the SOCKS5
  client compose to the identity on the wire.
\<close>

section \<open>Frames\<close>

lemma load_frames [simp]:
  "load_of j (RecordFailure i w) = load_of j w" "load_of j (RecordSuccess i w) = load_of j w"
  "load_of j (on_metric get upd f w) = load_of j w" "load_of j (ticked w) = load_of j w"
  "load_of j (w\<lparr>access_log := l\<rparr>) = load_of j w"
proof -
  have same: "load_of j (set_slot i x w) = load_of j w" if "sConnCount x = load_of i w" "in_range i w" for x
    using that by (cases "nat j = nat i")
      (auto simp: load_of_def slot_at_def Slots_set_slot nth_list_update elim!: in_rangeE)
  show "load_of j (RecordFailure i w) = load_of j w" "load_of j (RecordSuccess i w) = load_of j w"
    by (auto simp: RecordFailure_def RecordSuccess_def Let_def load_of_def [symmetric] intro!: same)
qed (simp_all add: load_of_def slot_at_def ticked_def)

lemma in_range_frames [simp]:
  "in_range j (RecordFailure i w) = in_range j w" "in_range j (RecordSuccess i w) = in_range j w"
  "in_range j (IncConnCount i w) = in_range j w" "in_range j (ticked w) = in_range j w"
  "in_range j (w\<lparr>access_log := l\<rparr>) = in_range j w"
  by (simp_all add: RecordFailure_def RecordSuccess_def IncConnCount_def Let_def)
    (simp_all add: in_range_def slot_count_def ticked_def)

lemma relay_load:
  "load_of j (logAccess r t i up down st p rt w) = load_of j w"
  "load_of j (snd (relayThroughWAN E r q i t s p c u w)) = load_of j w"
  "load_of j (snd (directRelay E r q t s p c u w)) = load_of j w"
  "load_of j (snd (dialWAN r d i t p w)) = load_of j w"
  "load_of j (snd (directDial r d t p w)) = load_of j w"
  "in_range j (logAccess r t i up down st p rt w) = in_range j w"
  "in_range j (snd (relayThroughWAN E r q i t s p c u w)) = in_range j w"
  "in_range j (snd (dialWAN r d i t p w)) = in_range j w"
  by (simp_all add: logAccess_def relayThroughWAN_def directRelay_def dialWAN_def directDial_def
      add_metric_bytes_def observe_latency_def Let_def case_prod_beta split: option.split sum.split)

lemma conn_pair:
  assumes "in_range j w" and "min_int64 \<le> load_of j w" "load_of j w \<le> max_int64"
    and "load_of j v = load_of j (beginWAN i p w)" and "in_range j v"
  shows "load_of j (endWAN i v) = load_of j w"
  using assms wan.load_end [of j v i] wan.load_begin [of j w i]
  by (simp add: endWAN_def beginWAN_def add_metric_conn_def wrap64_id)

lemma begin_in_range [simp]: "in_range j (beginWAN i p w) = in_range j w"
  by (simp add: beginWAN_def add_metric_conn_def)

text \<open>C10. Every connection that a front end reserves on a slot is released: whatever the client
  sends, whatever the dialer answers and however the relay ends, the connection counter of every
  slot is the same after the handler as before it.\<close>

theorem handlers_balanced:
  assumes "in_range j w" and "min_int64 \<le> load_of j w" "load_of j w \<le> max_int64"
  shows "load_of j (snd (handleSocksConn ul E s dial q client w)) = load_of j w \<and>
    load_of j (snd (handleConnect ul E p dial q h target w)) = load_of j w"
proof -
  have serve: "load_of j (snd (socks_serve ul E s dial q start t c w)) = load_of j w" for start t c
  proof -
    let ?i = "GetLeastLoaded [wr_WanFailThreshold s] w"
    obtain r w1 where d: "dialWAN s dial ?i t ''socks5'' (beginWAN ?i ''socks5'' w) = (r, w1)" by fastforce
    have w1: "load_of j w1 = load_of j (beginWAN ?i ''socks5'' w)" "in_range j w1"
      using relay_load(4,8) [of j s dial ?i t "''socks5''" "beginWAN ?i ''socks5'' w"] d assms(1) by simp_all
    note pair = conn_pair [OF assms]
    have relay: "load_of j (endWAN ?i (snd (relayThroughWAN E s q ?i t start ''socks5'' c1 u w1))) = load_of j w" for c1 u
      using w1 by (intro pair) (simp_all add: relay_load)
    obtain r' w1' where d': "directDial s dial t ''socks5'' w = (r', w1')" by fastforce
    have w1': "load_of j w1' = load_of j w" using relay_load(5) [of j s dial t "''socks5''" w] d' by simp
    show ?thesis
      using d d' w1' relay pair [OF w1] relay_load(3)
      by (auto simp: socks_serve_def Let_def case_prod_beta split: sum.split option.split)
  qed
  have "load_of j (snd (handleConnect ul E p dial q h target w)) = load_of j w"
  proof -
    let ?i = "GetLeastLoaded [wr_WanFailThreshold p] w"
    obtain r w1 where d: "dialWAN p dial ?i target ''connect'' (beginWAN ?i ''connect'' w) = (r, w1)" by fastforce
    have w1: "load_of j w1 = load_of j (beginWAN ?i ''connect'' w)" "in_range j w1"
      using relay_load(4,8) [of j p dial ?i target "''connect''" "beginWAN ?i ''connect'' w"] d assms(1) by simp_all
    note pair = conn_pair [OF assms]
    have relay: "load_of j (endWAN ?i (snd (relayThroughWAN E p q ?i target st ''connect'' c1 u w1))) = load_of j w" for st c1 u
      using w1 by (intro pair) (simp_all add: relay_load)
    obtain r' w1' where d': "directDial p dial target ''connect'' w = (r', w1')" by fastforce
    have w1': "load_of j w1' = load_of j w" using relay_load(5) [of j p dial target "''connect''" w] d' by simp
    show ?thesis
      using d d' w1' relay pair [OF w1] relay_load(3)
      by (auto simp: handleConnect_def Let_def case_prod_beta split: sum.split)
  qed
  moreover have "load_of j (snd (handleSocksConn ul E s dial q client w)) = load_of j w"
    using serve by (auto simp: handleSocksConn_def Let_def case_prod_beta split: sum.split option.split)
  ultimately show ?thesis by simp
qed

text \<open>A counter below zero at the start is kept, too; here it is an open connection count of 3.\<close>

definition busy_world :: world where
  "busy_world = set_slot 0 ((new_slot 0 2081)\<lparr>sState := StateActive, sCmd := Some (Cmd (Some 0)), sConnCount := 3\<rparr>) small_world"

lemma busy_slot: "in_range 0 busy_world" "slot_at 0 busy_world =
    (new_slot 0 2081)\<lparr>sState := StateActive, sCmd := Some (Cmd (Some 0)), sConnCount := 3\<rparr>"
  by (simp_all add: in_range_def slot_count_def slot_at_def busy_world_def small_world_def set_slot_def)

definition plain_relay :: wanRelay where
  "plain_relay = \<lparr>wr_router = None, wr_AccessLog = True, wr_WanFailThreshold = 2\<rparr>"

lemma handlers_balanced_witness:
  "load_of 0 (snd (handleSocksConn id calm_env plain_relay (\<lambda>_. Inl ErrEOF) (0, 0)
     \<lparr>cn_in = [5, 1, 0, 5, 1, 0, 1, 10, 0, 0, 1, 0, 80], cn_eof = ErrEOF, cn_writes = 9, cn_out = [], cn_closed = False\<rparr>
     busy_world)) = 3"
proof -
  have "load_of 0 busy_world = 3" by (simp add: load_of_def busy_slot new_slot_def)
  with handlers_balanced [OF busy_slot(1)] show ?thesis by (simp add: min_int64_def max_int64_def)
qed

section \<open>The leak guard\<close>

text \<open>C11. A connection that is not routed direct reaches the network only through the local port of
  a WAN: two dialers that agree on the addresses 127.0.0.1:port of the slots give the same run, so
  the target itself is never dialled. Without a router no connection is direct.\<close>

theorem wan_route_confined:
  assumes "decideRoute ul r t \<noteq> RouteDirect"
    and "\<And>i. in_range i w \<Longrightarrow> dial (socks_addr i w) = dial' (socks_addr i w)"
  shows "socks_serve ul E r dial q start t client w = socks_serve ul E r dial' q start t client w \<and>
    handleConnect ul E r dial q h t w = handleConnect ul E r dial' q h t w"
proof -
  let ?i = "GetLeastLoaded [wr_WanFailThreshold r] w"
  have range: "in_range ?i w" if "\<not> ?i < 0"
    using GetLeastLoaded_range [of "[wr_WanFailThreshold r]" w] that by simp
  have addr: "socks_addr i (beginWAN i p w) = socks_addr i w" if "in_range i w" for i p
    using that by (simp add: socks_addr_def beginWAN_def add_metric_conn_def IncConnCount_def Let_def slot_at_set_slot)
  have "dialWAN r dial ?i t p (beginWAN ?i p w) = dialWAN r dial' ?i t p (beginWAN ?i p w)" if "\<not> ?i < 0" for p
    using assms(2) [OF range [OF that]] by (simp add: dialWAN_def addr [OF range [OF that]])
  then show ?thesis using assms(1) by (cases "?i < 0") (simp_all add: socks_serve_def handleConnect_def Let_def)
qed

lemma wan_route_confined_witness:
  "handleConnect id calm_env plain_relay (\<lambda>_. Inl ErrEOF) (0, 0) HijackFails ''example.com:443'' busy_world =
   handleConnect id calm_env plain_relay
     (\<lambda>a. if a = socks_addr 0 busy_world \<or> a = socks_addr 1 busy_world then Inl ErrEOF else Inl ErrBrokenPipe) (0, 0)
     HijackFails ''example.com:443'' busy_world"
proof -
  have "i = 0 \<or> i = 1" if "in_range i busy_world" for i
    using that by (auto simp: in_range_def slot_count_def busy_world_def small_world_def set_slot_def)
  then show ?thesis
    using wan_route_confined [of id plain_relay "''example.com:443''" busy_world "\<lambda>_. Inl ErrEOF"
        "\<lambda>a. if a = socks_addr 0 busy_world \<or> a = socks_addr 1 busy_world then Inl ErrEOF else Inl ErrBrokenPipe"]
    by (fastforce simp: plain_relay_def decideRoute_def)
qed

section \<open>The target on the wire\<close>

datatype target = TargetV4 "byte list" | TargetDomain string | TargetV6 "byte list"

text \<open>The address type, the address and the port as RFC 1928 writes them.\<close>

fun wire_target :: "target \<Rightarrow> int \<Rightarrow> byte list" where
  "wire_target (TargetV4 a) port = [0x01] @ a @ be16 port"
| "wire_target (TargetDomain d) port = [0x03, word_of_nat (length d)] @ bytes_of_string d @ be16 port"
| "wire_target (TargetV6 a) port = [0x04] @ a @ be16 port"

fun target_text :: "target \<Rightarrow> string" where
  "target_text (TargetV4 a) = IP_String a"
| "target_text (TargetDomain d) = d"
| "target_text (TargetV6 a) = IP_String a"

text \<open>
  The targets that keep their form: an IPv6 address that is not an IPv4 address in disguise, a
  domain name that is not an address literal and holds no brackets.
\<close>

fun target_ok :: "target \<Rightarrow> bool" where
  "target_ok (TargetV4 a) \<longleftrightarrow> length a = 4"
| "target_ok (TargetDomain d) \<longleftrightarrow>
     d \<noteq> [] \<and> length d \<le> 255 \<and> CHR 0x5B \<notin> set d \<and> CHR 0x5D \<notin> set d \<and> ParseIP d = None"
| "target_ok (TargetV6 a) \<longleftrightarrow> length a = 16 \<and> take 12 a \<noteq> v4_prefix"

lemma of_be16_be16: "0 \<le> n \<Longrightarrow> n < 65536 \<Longrightarrow> of_be16 (be16 n ! 0) (be16 n ! 1) = n"
  by (simp add: be16_def of_be16_eq drop_bit_eq_div take_bit_eq_mod uint_word_of_int_eq)

lemma read_host_target:
  assumes "target_ok f" and "cn_in c = tl (wire_target f port) @ rest"
  shows "read_host (hd (wire_target f port)) c = (Inr (target_text f), c\<lparr>cn_in := be16 port @ rest\<rparr>)"
proof (cases f)
  case (TargetV4 a)
  with assms ReadFull_exact [of c a "be16 port @ rest" 4] show ?thesis by (simp add: read_host_def)
next
  case (TargetV6 a)
  with assms ReadFull_exact [of c a "be16 port @ rest" 16] show ?thesis by (simp add: read_host_def)
next
  case (TargetDomain d)
  let ?n = "word_of_nat (length d) :: byte"
  have n: "unat ?n = length d" "?n \<noteq> 0"
    using assms(1) TargetDomain by (simp_all add: unat_of_nat take_bit_eq_mod word_of_nat_eq_0_iff nat_dvd_not_less)
  have "ReadFull 1 c = (Inr [?n], c\<lparr>cn_in := bytes_of_string d @ be16 port @ rest\<rparr>)"
    using assms(2) TargetDomain ReadFull_exact [of c "[?n]" "bytes_of_string d @ be16 port @ rest" 1] by simp
  moreover have "ReadFull (length d) (c\<lparr>cn_in := bytes_of_string d @ be16 port @ rest\<rparr>) =
      (Inr (bytes_of_string d), c\<lparr>cn_in := be16 port @ rest\<rparr>)"
    using ReadFull_exact [of "c\<lparr>cn_in := bytes_of_string d @ be16 port @ rest\<rparr>" "bytes_of_string d" "be16 port @ rest" "length d"]
    by simp
  ultimately show ?thesis using TargetDomain n by (simp add: read_host_def)
qed

lemma parseSocksTarget_target:
  assumes "target_ok f" and "1 \<le> port" "port \<le> 65535" and "cn_in c = tl (wire_target f port) @ rest"
  shows "parseSocksTarget (hd (wire_target f port)) c =
    (Inr (JoinHostPort (target_text f) (nat_digits (nat port))), c\<lparr>cn_in := rest\<rparr>)"
proof -
  have "ReadFull 2 (c\<lparr>cn_in := be16 port @ rest\<rparr>) = (Inr (be16 port), c\<lparr>cn_in := rest\<rparr>)"
    using ReadFull_exact [of "c\<lparr>cn_in := be16 port @ rest\<rparr>" "be16 port" rest 2] by simp
  with assms(2,3) of_be16_be16 [of port] show ?thesis
    by (simp add: parseSocksTarget_def read_host_target [OF assms(1,4)] strconv_Itoa_def Let_def)
qed

lemma To4_cases:
  "length a = 4 \<Longrightarrow> To4 (v4_prefix @ a) = Some a"
  "length a = 16 \<Longrightarrow> take 12 a \<noteq> v4_prefix \<Longrightarrow> To4 a = None"
  by (simp_all add: To4_def v4_prefix_def)

lemma dial_request_target:
  assumes "target_ok f" and "1 \<le> port" "port \<le> 65535"
  shows "dial_request (JoinHostPort (target_text f) (nat_digits (nat port))) =
    Inr ([0x05, 0x01, 0x00] @ wire_target f port)"
proof -
  have br: "CHR 0x5B \<notin> set (target_text f)" "CHR 0x5D \<notin> set (target_text f)"
    using assms(1) IP_String_brackets by (cases f; force)+
  have port: "strconv_Atoi (nat_digits (nat port)) = (port, None)"
    using Atoi_nat_digits [of "nat port"] assms(2,3) by simp
  have "encode_target (target_text f) port = Inr ([0x05, 0x01, 0x00] @ wire_target f port)"
    using assms(1) ParseIP_IP_String To4_cases by (cases f) (simp_all add: encode_target_def)
  with SplitHostPort_Join [OF br] port assms(2,3) show ?thesis by (simp add: dial_request_def)
qed

section \<open>End to end\<close>

text \<open>A client's stream: greeting, CONNECT request for a target, payload.\<close>

definition client_stream :: "byte list \<Rightarrow> byte \<Rightarrow> target \<Rightarrow> int \<Rightarrow> byte list \<Rightarrow> byte list" where
  "client_stream methods rsv f port payload =
     [0x05, word_of_nat (length methods)] @ methods @ [0x05, 0x01, rsv] @ wire_target f port @ payload"

lemma wire_target_hd: "wire_target f port = hd (wire_target f port) # tl (wire_target f port)"
  by (cases f) simp_all

text \<open>The connection after a greeting and the header of a request have been read.\<close>

definition after_hello :: "byte list \<Rightarrow> conn \<Rightarrow> conn" where
  "after_hello rest c =
     c\<lparr>cn_in := rest, cn_writes := cn_writes c - 1, cn_out := cn_out c @ [0x05, 0x00]\<rparr>"

lemma hello_header:
  assumes "cn_in c = [0x05, word_of_nat (length methods)] @ methods @ [0x05, cmd, rsv, atyp] @ rest"
    and "length methods < 256" and "1 \<le> cn_writes c"
  shows "socks_hello c =
    (if cmd \<noteq> 0x01 then (None, writeSocksReply 0x07 (after_hello rest c))
     else (Some atyp, after_hello rest c))"
proof -
  let ?n = "word_of_nat (length methods) :: byte" and ?req = "[0x05, cmd, rsv, atyp]"
  have n: "unat ?n = length methods" using assms(2) by (simp add: unat_of_nat take_bit_eq_mod)
  have r1: "ReadFull 2 c = (Inr [0x05, ?n], c\<lparr>cn_in := methods @ ?req @ rest\<rparr>)"
    using ReadFull_exact [of c "[0x05, ?n]" "methods @ ?req @ rest" 2] assms(1) by simp
  have r2: "ReadFull (length methods) (c\<lparr>cn_in := methods @ ?req @ rest\<rparr>) =
      (Inr methods, c\<lparr>cn_in := ?req @ rest\<rparr>)"
    using ReadFull_exact [of "c\<lparr>cn_in := methods @ ?req @ rest\<rparr>" methods "?req @ rest" "length methods"] by simp
  let ?c3 = "c\<lparr>cn_in := ?req @ rest, cn_writes := cn_writes c - 1, cn_out := cn_out c @ [0x05, 0x00]\<rparr>"
  have w: "conn_Write [0x05, 0x00] (c\<lparr>cn_in := ?req @ rest\<rparr>) = (None, ?c3)"
    using assms(3) by (simp add: conn_Write_def)
  have r3: "ReadFull 4 ?c3 = (Inr ?req, after_hello rest c)"
    using ReadFull_exact [of ?c3 ?req rest 4] by (simp add: after_hello_def)
  show ?thesis
    using r1 r2 w r3 n by (simp add: socks_hello_def)
qed

lemma hello_stream:
  assumes "cn_in c = client_stream methods rsv f port payload" and "length methods < 256" and "1 \<le> cn_writes c"
  shows "socks_hello c =
    (Some (hd (wire_target f port)), after_hello (tl (wire_target f port) @ payload) c)"
proof -
  have "client_stream methods rsv f port payload = [0x05, word_of_nat (length methods)] @ methods @
      [0x05, 0x01, rsv, hd (wire_target f port)] @ tl (wire_target f port) @ payload"
    by (subst (1) client_stream_def, subst wire_target_hd) simp
  with hello_header [of c methods "0x01" rsv] assms show ?thesis by simp
qed


definition udp_client :: conn where
  "udp_client = \<lparr>cn_in = [5, 1, 0, 5, 3, 0, 1, 10, 0, 0, 1, 0, 80], cn_eof = ErrEOF, cn_writes = 9, cn_out = [],
     cn_closed = False\<rparr>"


text \<open>
  What a client's request becomes when it is routed through a WAN: the text of its target.
\<close>

definition request_text :: "target \<Rightarrow> int \<Rightarrow> string" where
  "request_text f port = JoinHostPort (target_text f) (nat_digits (nat port))"

lemma socks_addr_begin: "in_range i w \<Longrightarrow> socks_addr i (beginWAN i p w) = socks_addr i w"
  by (simp add: socks_addr_def beginWAN_def add_metric_conn_def IncConnCount_def Let_def slot_at_set_slot)

text \<open>A WAN that accepts: what its xray has been sent when the relay begins.\<close>

lemma dialWAN_accepted:
  assumes "target_ok f" and "1 \<le> port" "port \<le> 65535" and "in_range i w"
    and "dial (socks_addr i w) = Inr up" and "cn_in up = [0x05, 0x00] @ rep @ answer" and "accepting rep"
    and "cn_out up = []" and "2 \<le> cn_writes up"
  shows "dialWAN s dial i (request_text f port) p (beginWAN i p w) =
    (Inr (up\<lparr>cn_in := answer, cn_writes := cn_writes up - 2,
      cn_out := [0x05, 0x01, 0x00] @ [0x05, 0x01, 0x00] @ wire_target f port\<rparr>), beginWAN i p w)"
  using socks5Dial_accepted [OF assms(6,7,9) dial_request_target [OF assms(1-3)]] assms(5,8)
  by (simp add: dialWAN_def socks_addr_begin [OF assms(4)] request_text_def)

text \<open>C12. The SOCKS5 front end and the SOCKS5 client compose to the identity on the wire: when a
  client asks for an IPv4 address, an IPv6 address or a domain name and the chosen WAN accepts,
  the WAN's xray receives the greeting, exactly the client's request (with the reserved byte
  zero) and the payload, and the client receives the two success replies and what the WAN sends
  back, unchanged; nothing else is written to either side.\<close>

theorem socks_forwarding:
  assumes "target_ok f" and "1 \<le> port" "port \<le> 65535" and "length methods < 256"
    and "cn_in client = client_stream methods rsv f port payload" and "2 \<le> cn_writes client"
    and "decideRoute ul s (request_text f port) = RouteWAN"
    and "GetLeastLoaded [wr_WanFailThreshold s] w = i" and "0 \<le> i"
    and "dial (socks_addr i w) = Inr up" and "cn_in up = [0x05, 0x00] @ rep @ answer" and "accepting rep"
    and "cn_out up = []" and "2 \<le> cn_writes up"
  shows "case handleSocksConn ul E s dial (nu, nd) client w of
    ((client', up'), w') \<Rightarrow>
      cn_out client' = cn_out client @ [0x05, 0x00] @ socks_reply 0x00 @ take nd answer \<and>
      (case up' of None \<Rightarrow> False
       | Some u \<Rightarrow> cn_out u = [0x05, 0x01, 0x00] @ [0x05, 0x01, 0x00] @ wire_target f port @ take nu payload)"
proof -
  define c1 where "c1 = after_hello (tl (wire_target f port) @ payload) client"
  have hello: "socks_hello client = (Some (hd (wire_target f port)), c1)"
    unfolding c1_def using assms(6) by (intro hello_stream [OF assms(5,4)]) simp
  define c2 where "c2 = c1\<lparr>cn_in := payload\<rparr>"
  have parse: "parseSocksTarget (hd (wire_target f port)) c1 = (Inr (request_text f port), c2)"
    unfolding c2_def request_text_def by (rule parseSocksTarget_target [OF assms(1-3)]) (simp add: c1_def after_hello_def)
  have i: "in_range i w" using GetLeastLoaded_range [of "[wr_WanFailThreshold s]" w] assms(8,9) by simp
  obtain u where u: "u = up\<lparr>cn_in := answer, cn_writes := cn_writes up - 2,
      cn_out := [0x05, 0x01, 0x00] @ [0x05, 0x01, 0x00] @ wire_target f port\<rparr>" by blast
  have d: "dialWAN s dial i (request_text f port) ''socks5'' (beginWAN i ''socks5'' w) =
      (Inr u, beginWAN i ''socks5'' w)"
    unfolding u by (rule dialWAN_accepted [where dial = dial, OF assms(1-3) i assms(10-14)])
  define c3 where "c3 = c2\<lparr>cn_writes := cn_writes c2 - 1, cn_out := cn_out c2 @ socks_reply 0x00\<rparr>"
  have wr: "conn_Write (socks_reply 0x00) c2 = (None, c3)"
    using assms(6) by (simp add: conn_Write_def c3_def c2_def c1_def after_hello_def)
  define c4 where "c4 = conn_Close (c3\<lparr>cn_out := cn_out c3 @ take nd answer\<rparr>)"
  define u4 where "u4 = conn_Close (u\<lparr>cn_out := cn_out u @ take nu payload\<rparr>)"
  obtain n where "pipe (nu, nd) c3 u = (n, c4, u4)"
    by (simp add: pipe_def io_Copy_def c4_def u4_def c3_def c2_def u Let_def)
  then obtain w2 where relay: "relayThroughWAN E s (nu, nd) i (request_text f port) (e_now E (tick w)) ''socks5'' c3 u
      (beginWAN i ''socks5'' w) = ((c4, u4), w2)"
    by (cases n) (simp add: relayThroughWAN_def Let_def)
  have "socks_serve ul E s dial (nu, nd) (e_now E (tick w)) (request_text f port) c2 w = ((c4, Some u4), endWAN i w2)"
    using d wr relay assms(7-9) by (simp add: socks_serve_def)
  then have "handleSocksConn ul E s dial (nu, nd) client w = ((conn_Close c4, Some u4), endWAN i w2)"
    using hello parse by (simp add: handleSocksConn_def)
  moreover have "cn_out (conn_Close c4) = cn_out client @ [0x05, 0x00] @ socks_reply 0x00 @ take nd answer"
    by (simp add: conn_Close_def c4_def c3_def c2_def c1_def after_hello_def)
  moreover have "cn_out u4 = [0x05, 0x01, 0x00] @ [0x05, 0x01, 0x00] @ wire_target f port @ take nu payload"
    by (simp add: conn_Close_def u4_def u)
  ultimately show ?thesis by simp
qed

lemma busy_least: "GetLeastLoaded [2] busy_world = 0"
  by (simp add: GetLeastLoaded_def busy_world_def small_world_def set_slot_def new_slot_def routable_def
      serving_def)

definition upstream_example :: conn where
  "upstream_example =
     \<lparr>cn_in = [5, 0] @ ([5, 0, 0, 1] @ [0, 0, 0, 0, 0, 0]) @ [72, 105], cn_eof = ErrEOF, cn_writes = 9,
      cn_out = [], cn_closed = False\<rparr>"

definition client_example :: conn where
  "client_example =
     \<lparr>cn_in = client_stream [0] 0 (TargetDomain ''example.com'') 443 [1, 2, 3], cn_eof = ErrEOF, cn_writes = 9,
      cn_out = [], cn_closed = False\<rparr>"

lemma socks_forwarding_witness:
  "case handleSocksConn id calm_env plain_relay (\<lambda>_. Inr upstream_example) (3, 2) client_example busy_world of
    ((client', up'), w') \<Rightarrow>
      cn_out client' = [0x05, 0x00] @ socks_reply 0x00 @ [72, 105] \<and>
      (case up' of None \<Rightarrow> False
       | Some u \<Rightarrow> cn_out u = [0x05, 0x01, 0x00] @ [0x05, 0x01, 0x00] @
           wire_target (TargetDomain ''example.com'') 443 @ [1, 2, 3])"
proof -
  have ok: "target_ok (TargetDomain ''example.com'')" by code_simp
  have rep: "accepting ([5, 0, 0, 1] @ [0, 0, 0, 0, 0, 0])" by (rule accept_v4) simp
  have take: "take 3 [1, 2, 3 :: byte] = [1, 2, 3]" "take 2 [72, 105 :: byte] = [72, 105]" by simp_all
  have "case handleSocksConn id calm_env plain_relay (\<lambda>_. Inr upstream_example) (3, 2) client_example busy_world of
    ((client', up'), w') \<Rightarrow>
      cn_out client' = cn_out client_example @ [0x05, 0x00] @ socks_reply 0x00 @ take 2 [72, 105] \<and>
      (case up' of None \<Rightarrow> False
       | Some u \<Rightarrow> cn_out u = [0x05, 0x01, 0x00] @ [0x05, 0x01, 0x00] @
           wire_target (TargetDomain ''example.com'') 443 @ take 3 [1, 2, 3])"
    by (rule socks_forwarding [OF ok _ _ _ _ _ _ _ _ _ _ rep, where methods = "[0]" and rsv = 0 and i = 0
          and up = upstream_example])
      (simp_all add: client_example_def upstream_example_def plain_relay_def decideRoute_def busy_least)
  moreover have "cn_out client_example = []" by (simp add: client_example_def)
  ultimately show ?thesis unfolding take by simp
qed

end
