(* ===== verification/FrontEnds.thy ===== *)
theory FrontEnds
  imports SocksProps
begin

text \<open>
  What the two front ends have in common beyond a single SOCKS5 connection: the CONNECT tunnel on the
  wire, and how new connections spread over the WANs.
\<close>

section \<open>The CONNECT tunnel\<close>



section \<open>Spreading of connections\<close>

text \<open>One new connection, as both front ends begin it: the least loaded slot is chosen and counted up.\<close>

definition arrive :: "int \<Rightarrow> string \<Rightarrow> world \<Rightarrow> world" where
  "arrive threshold proto w =
     (let wanIndex = GetLeastLoaded [threshold] w in if wanIndex < 0 then w else beginWAN wanIndex proto w)"

definition routable_slots :: "int \<Rightarrow> world \<Rightarrow> int set" where
  "routable_slots threshold w = {i. in_range i w \<and> routable threshold (slot_at i w)}"

lemma routable_slots_finite: "finite (routable_slots t w)"
proof (rule finite_subset)
  show "routable_slots t w \<subseteq> {0..<slot_count w}" by (auto simp: routable_slots_def in_range_def)
qed simp

lemma routable_slots_begin: "routable_slots t (beginWAN i p w) = routable_slots t w"
proof -
  have "routable t (slot_at j (beginWAN i p w)) = routable t (slot_at j w)" if "in_range j w" for j
    using that by (cases "j = i"; cases "in_range i w")
      (simp_all add: beginWAN_def add_metric_conn_def IncConnCount_def Let_def slot_at_set_slot routable_def serving_def)
  moreover have "in_range j (beginWAN i p w) = in_range j w" for j
    by (simp add: beginWAN_def add_metric_conn_def wan.known_begin)
  ultimately show ?thesis by (auto simp: routable_slots_def)
qed

lemma load_begin_routable:
  "j \<in> routable_slots t w \<Longrightarrow> 0 \<le> load_of j w \<Longrightarrow> load_of j w < max_int64 \<Longrightarrow>
     load_of j (beginWAN i p w) = load_of j w + (if i = j then 1 else 0)"
  using wan.load_begin [of j w i] wrap64_id [of "load_of j w + 1"]
  by (simp add: routable_slots_def beginWAN_def add_metric_conn_def load_of_def min_int64_def)

lemma arrive_least:
  assumes "routable_slots t w \<noteq> {}"
  shows "\<exists>i \<in> routable_slots t w. arrive t p w = beginWAN i p w \<and>
    (\<forall>j \<in> routable_slots t w. load_of i w \<le> load_of j w)"
proof -
  have "least_loaded_of (routable t) w (GetLeastLoaded [t] w)"
    using GetLeastLoaded_spec [of "[t]" w] assms by (auto simp: Let_def routable_slots_def split: if_splits)
  then have "GetLeastLoaded [t] w \<in> routable_slots t w"
      "\<forall>j \<in> routable_slots t w. load_of (GetLeastLoaded [t] w) w \<le> load_of j w"
    by (auto simp: least_loaded_of_def routable_slots_def load_of_def)
  moreover from this(1) have "arrive t p w = beginWAN (GetLeastLoaded [t] w) p w"
    by (simp add: arrive_def Let_def routable_slots_def in_range_def)
  ultimately show ?thesis by blast
qed


text \<open>Two idle active slots.\<close>

definition idle_world :: world where
  "idle_world = small_world\<lparr>pool := \<lparr>Slots =
     [(new_slot 0 2081)\<lparr>sState := StateActive, sCmd := Some (Cmd (Some 0))\<rparr>,
      (new_slot 1 2082)\<lparr>sState := StateActive, sCmd := Some (Cmd (Some 1))\<rparr>], BasePort = 2081\<rparr>\<rparr>"


end
