(* ===== verification/Spec2Isabelle.thy ===== *)
theory Spec2Isabelle
  imports Program Provenance ApiProps ApiJson Probe FrontEnds
begin

text \<open>
  Viberoxy: a verification library.

  Viberoxy (src/, Go) keeps a pool of WANs. A WAN slot is a child process of xray with a local SOCKS5
  port that tunnels to a proxy server from a subscription. The program fetches the subscription, parses
  the share links, tests the speed of the servers, fills the slots with those that pass, probes them,
  drains and replaces them, and relays the connections of its clients (HTTP CONNECT and SOCKS5) through
  the least loaded slot or directly, as the router says.

  \<^bold>\<open>How the program is modelled.\<close> A Go function that changes state is a function on a record: \<open>sys\<close>
  (Xray.thy) holds the children and temporary files that the program has made, the metrics, the access log
  and a counter of the answers consumed; \<open>world\<close> (Wan.thy) adds the pool, the candidates, the trigger
  channel and the cycle times. What comes from outside (start of a child, download, probe, fetch, clock,
  cancellation) is a stream of answers \<open>env\<close>, indexed by that counter, so every theorem holds for every
  behaviour of the network. Errors are \<open>goerror\<close> values in a sum or an option, a panic is None. Go's int and
  int64 are HOL ints wrapped at 64 bits (\<open>wrap64\<close>), or shown in range; bytes are 8 bit words; float64
  is real (rounding is not modelled); a string is a list of bytes, shown as chars. Mutexes are held for a
  whole pool operation, so an operation is one step; where a caller interleaves several of them,
  the interleaving is modelled (connection counting at the end of Wan.thy, a reset during a start in Ownership.thy).

  \<^bold>\<open>Library.\<close> Prelude: wrap-around, folds, disjoint families. GoLib: strings, strconv, base64. GoUrl: the
  parts of net/url. GoJson and GoEncode: reading and writing of encoding/json; JsonProps: what is written
  is read back. GoNet: addresses, SplitHostPort, connections; GoNetProps: the text of an IP address is read
  back. These translate documented behaviour of Go's standard library, as far as the program uses it.

  \<^bold>\<open>Components\<close>, in the order of their use.
  Router (router.go): \<open>Decide\<close>, the lists and their normal form.
  Config (main.go, parseConfig): every setting with its default, range and error.
  Parser (parser.go): all link formats and the subscription; ParserProps: well-formed results, encoded
  subscriptions, links that are rendered and read back, the panic.
  Metrics (metrics.go): gauges, counters, histograms and the text that is scraped.
  Xray (xray.go, life cycle): start, stop and health check of a child.
  Outbound (xray.go, configuration): readers of links, outbounds, stream settings, JSON; OutboundProps: no
  leak to the direct outbound, the file is read back as what it was made from, credentials kept or lost.
  Tester (tester.go): speed test, stability, ranking (the locale \<open>slice_sorter\<close> is what sort.Slice promises). Dial: the SOCKS5 client. Probe: one probe on the wire.
  Candidate (candidate.go): the ranked pool of candidates.
  Wan (wan.go): slots, their state machine, load balancing, draining, \<open>DropAndReplace\<close>; the locale
  \<open>conn_counter\<close> is the interface of connection counting. Ownership: every live child and every file
  belongs to exactly one slot; the locale \<open>process_layer\<close> states what a tester and a starter must promise
  for \<open>DropAndReplace\<close> and is interpreted on the program's own.
  Relay, Socks (relay.go, proxy.go, socks.go): the front ends as functions on byte streams; SocksProps:
  forwarding is the identity on the wire, refusals, reservations are balanced, WAN routes are confined;
  FrontEnds: the CONNECT tunnel, and new connections spread evenly.
  Health (health.go), Api (api.go): the endpoints; ApiProps: the drop endpoint; ApiJson: the JSON text of the
  responses, read back.
  Cycle (main.go): fetch, cycle, keepalive, startup rounds, main loop. CycleProps: the loops refine the
  relation \<open>fills\<close>, the abstract specification of filling empty slots. CycleLive: startup fills the pool on
  a working network, ends when cancelled, and keepalive drains a dead WAN.
  Services (main.go, startServices): which listeners run with which settings, and how they end.
  System: the transition system of the whole program and its invariant. Provenance: every child runs a
  configuration that was parsed from a subscription and goes to its server, never direct.
  Program (main.go, startup, runLoop): the program from start to end is a run of that system.

  \<^bold>\<open>Bounds and fuel.\<close> \<open>startup_rounds\<close> may go on for ever in the source, so it has fuel and None when it
  runs out; \<open>startup_fills_pool\<close> shows that one round is enough on a working network, and
  \<open>startup_cancellable\<close> that N rounds are enough when the context is cancelled from the N-th answer on. The JSON
  reader has the nesting limit 10000 of encoding/json. All other functions are total.

  \<^bold>\<open>Not modelled.\<close> Log lines (slog, \<open>logUnsupportedOnce\<close>). Timeouts,
  deadlines and socket options: they show as errors in the answers. The bytes of TLS and HTTP: the outcome of
  an HTTP exchange is an answer. The servers of net/http and the signals: requests are operations
  of \<open>Program\<close>. Interleavings inside a cycle, a handler or a drop with other operations, except the two named above.
  Cleaning of paths by http.ServeMux. \<open>seconds_until\<close> rounds exact times, not floats. \<open>StartXray\<close> records what the child
  was started with (configuration, port, mux); the text of its file is \<open>BuildXrayConfig\<close> of that.
\<close>

end
